theory Spec2Isabelle
  imports Complex_Main "HOL-Library.Sublist" "HOL-Library.Multiset"
begin

section \<open>The digest page script: values of the language\<close>

text \<open>
  The script of the digest page (\<^verbatim>\<open>script.js\<close>) keeps four things in the browser's local
  storage (the selected source, the preferences, the read list, the display mode) and
  derives the views of the page from the article collection of the payload. This theory
  embeds its pure functions and the read-list controller.

  A string is a list of characters. The script itself names only ASCII characters; which
  characters \<^verbatim>\<open>toLowerCase\<close> maps and which \<^verbatim>\<open>trim\<close> strips is left to the host
  (see \<open>host\<close> below).
\<close>

subsection \<open>Strings\<close>

definition lowerLetters :: string where
  "lowerLetters = ''abcdefghijklmnopqrstuvwxyz''"

text \<open>\<^verbatim>\<open>hay.includes(needle)\<close>: the needle occurs in the hay as a contiguous run.\<close>

fun str_includes :: "string \<Rightarrow> string \<Rightarrow> bool" where
  "str_includes [] needle = (needle = [])"
| "str_includes (c # cs) needle = (prefix needle (c # cs) \<or> str_includes cs needle)"

text \<open>\<^verbatim>\<open>s.replace(/c/g, r)\<close> for a pattern that is one literal character.\<close>

definition replaceAll :: "char \<Rightarrow> string \<Rightarrow> string \<Rightarrow> string" where
  "replaceAll c r s = concat (map (\<lambda>x. if x = c then r else [x]) s)"

text \<open>\<^verbatim>\<open>parts.join(sep)\<close>.\<close>

fun joinWith :: "string \<Rightarrow> string list \<Rightarrow> string" where
  "joinWith sep [] = []"
| "joinWith sep [p] = p"
| "joinWith sep (p # q # ps) = p @ sep @ joinWith sep (q # ps)"

text \<open>
  \<^verbatim>\<open>s.split(/[\n,]/)\<close>: the pieces between the separators; the current piece is
  accumulated in \<open>cur\<close>. A string with no separator is one piece, the empty string too.
\<close>

fun splitOn :: "(char \<Rightarrow> bool) \<Rightarrow> string \<Rightarrow> string \<Rightarrow> string list" where
  "splitOn isSep cur [] = [cur]"
| "splitOn isSep cur (c # cs) =
     (if isSep c then cur # splitOn isSep [] cs else splitOn isSep (cur @ [c]) cs)"

subsection \<open>Loosely typed values\<close>

text \<open>
  A number is a double: not-a-number, an infinity, or a finite value (a rational; the two
  zeros are not told apart, and the script cannot tell them apart either).
\<close>

datatype jsnum = NaN | PosInf | NegInf | Finite rat

text \<open>
  The values that \<^verbatim>\<open>JSON.parse\<close> and the payload produce, and \<^verbatim>\<open>undefined\<close> for what
  is absent. An object is the list of its own properties.
\<close>

datatype jsval =
    JUndefined
  | JNull
  | JBool bool
  | JNum jsnum
  | JStr string
  | JArr "jsval list"
  | JObj "(string \<times> jsval) list"

datatype error = TypeError | SyntaxError | SecurityError

text \<open>
  A step that can throw returns a sum; \<open>andThen\<close> runs the next step on a result and
  passes a throw on.
\<close>

definition andThen :: "error + 'a \<Rightarrow> ('a \<Rightarrow> error + 'b) \<Rightarrow> error + 'b" where
  "andThen r f = (case r of Inl e \<Rightarrow> Inl e | Inr x \<Rightarrow> f x)"

text \<open>\<^verbatim>\<open>xs.map(f)\<close> for a callback that can throw: the first throw ends the loop.\<close>

fun mapE :: "('a \<Rightarrow> error + 'b) \<Rightarrow> 'a list \<Rightarrow> error + 'b list" where
  "mapE f [] = Inr []"
| "mapE f (x # xs) =
     (case f x of
        Inl e \<Rightarrow> Inl e
      | Inr y \<Rightarrow> (case mapE f xs of Inl e \<Rightarrow> Inl e | Inr ys \<Rightarrow> Inr (y # ys)))"

text \<open>
  What the script takes from its host and this theory does not define: how a number is
  printed and read, what \<^verbatim>\<open>s.toLowerCase()\<close> and \<^verbatim>\<open>s.trim()\<close> return, the collation
  of \<^verbatim>\<open>localeCompare\<close>, and the JSON reader (\<open>None\<close> when \<^verbatim>\<open>JSON.parse\<close> throws).
  The time that \<^verbatim>\<open>Date.now()\<close> shows while one operation of the script runs is an
  argument \<open>now\<close> of the operation.
\<close>

record host =
  numberToString :: "jsnum \<Rightarrow> string"
  stringToNumber :: "string \<Rightarrow> jsnum"
  toLowerCase :: "string \<Rightarrow> string"
  trim :: "string \<Rightarrow> string"
  localeCompare :: "string \<Rightarrow> string \<Rightarrow> int"
  jsonParse :: "string \<Rightarrow> jsval option"

text \<open>Truthiness, as \<^verbatim>\<open>Boolean(v)\<close>, \<^verbatim>\<open>!v\<close>, \<^verbatim>\<open>v || d\<close> and \<^verbatim>\<open>v ? a : b\<close> read it.\<close>

fun truthy :: "jsval \<Rightarrow> bool" where
  "truthy JUndefined = False"
| "truthy JNull = False"
| "truthy (JBool b) = b"
| "truthy (JNum n) = (n \<noteq> NaN \<and> n \<noteq> Finite 0)"
| "truthy (JStr s) = (s \<noteq> [])"
| "truthy (JArr xs) = True"
| "truthy (JObj kvs) = True"

text \<open>\<^verbatim>\<open>a || b\<close>.\<close>

definition orElse :: "jsval \<Rightarrow> jsval \<Rightarrow> jsval" where
  "orElse a b = (if truthy a then a else b)"

text \<open>
  \<^verbatim>\<open>v.key\<close> for the keys the script reads (none of them is a member of a prototype):
  an own property of an object, \<^verbatim>\<open>undefined\<close> on everything else. On \<^verbatim>\<open>null\<close> and
  \<^verbatim>\<open>undefined\<close> the access throws; the callers below guard it or make the throw a branch.
\<close>

definition getProp :: "jsval \<Rightarrow> string \<Rightarrow> jsval" where
  "getProp v key = (case v of JObj kvs \<Rightarrow> (case map_of kvs key of Some x \<Rightarrow> x | None \<Rightarrow> JUndefined)
                     | _ \<Rightarrow> JUndefined)"

text \<open>
  \<^verbatim>\<open>String(v)\<close>. An array prints its elements joined by commas, \<^verbatim>\<open>null\<close> and
  \<^verbatim>\<open>undefined\<close> elements as nothing. An object is printed by its \<^verbatim>\<open>toString\<close> member:
  the inherited one prints \<^verbatim>\<open>[object Object]\<close>; an own property \<^verbatim>\<open>toString\<close> hides
  it, and since a value read from JSON is never a function, the conversion then falls to
  \<^verbatim>\<open>valueOf\<close> (inherited, returning the object itself, or an own property that is no
  function either) and throws a \<^verbatim>\<open>TypeError\<close>. So does the printing of an array that
  holds such an object.
\<close>

fun toStr :: "host \<Rightarrow> jsval \<Rightarrow> error + string"
  and toStrElems :: "host \<Rightarrow> jsval list \<Rightarrow> error + string list" where
  "toStr h JUndefined = Inr ''undefined''"
| "toStr h JNull = Inr ''null''"
| "toStr h (JBool b) = Inr (if b then ''true'' else ''false'')"
| "toStr h (JNum n) = Inr (numberToString h n)"
| "toStr h (JStr s) = Inr s"
| "toStr h (JArr xs) =
     (case toStrElems h xs of Inl e \<Rightarrow> Inl e | Inr parts \<Rightarrow> Inr (joinWith '','' parts))"
| "toStr h (JObj kvs) =
     (if ''toString'' \<in> set (map fst kvs) then Inl TypeError else Inr ''[object Object]'')"
| "toStrElems h [] = Inr []"
| "toStrElems h (x # xs) =
     (case (case x of JUndefined \<Rightarrow> Inr [] | JNull \<Rightarrow> Inr [] | _ \<Rightarrow> toStr h x) of
        Inl e \<Rightarrow> Inl e
      | Inr p \<Rightarrow> (case toStrElems h xs of Inl e \<Rightarrow> Inl e | Inr ps \<Rightarrow> Inr (p # ps)))"

text \<open>
  \<^verbatim>\<open>Number(v)\<close>. An array is printed and the text read as a number. An object is asked
  for \<^verbatim>\<open>valueOf\<close> first, which gives no primitive value, then printed: with an own
  property \<^verbatim>\<open>toString\<close> the conversion throws, otherwise the text \<^verbatim>\<open>[object Object]\<close>
  reads as not-a-number on every host.
\<close>

fun toNumber :: "host \<Rightarrow> jsval \<Rightarrow> error + jsnum" where
  "toNumber h JUndefined = Inr NaN"
| "toNumber h JNull = Inr (Finite 0)"
| "toNumber h (JBool b) = Inr (if b then Finite 1 else Finite 0)"
| "toNumber h (JNum n) = Inr n"
| "toNumber h (JStr s) = Inr (stringToNumber h s)"
| "toNumber h (JArr xs) =
     (case toStr h (JArr xs) of Inl e \<Rightarrow> Inl e | Inr s \<Rightarrow> Inr (stringToNumber h s))"
| "toNumber h (JObj kvs) =
     (if ''toString'' \<in> set (map fst kvs) then Inl TypeError else Inr NaN)"

section \<open>Escaping and the display mode\<close>

text \<open>
  \<^verbatim>\<open>
  function escapeHtml(value) {
    return String(value || '')
      .replace(/&/g, '&amp;')
      .replace(/</g, '&lt;')
      .replace(/>/g, '&gt;')
      .replace(/"/g, '&quot;')
      .replace(/'/g, '&#39;');
  }
  \<close>
\<close>

definition escapeHtml :: "host \<Rightarrow> jsval \<Rightarrow> error + string" where
  "escapeHtml h v =
     andThen (toStr h (orElse v (JStr [])))
       (\<lambda>s. Inr (replaceAll (CHR 0x27) ''&#39;''
                   (replaceAll (CHR 0x22) ''&quot;''
                     (replaceAll CHR ''>'' ''&gt;''
                       (replaceAll CHR ''<'' ''&lt;''
                         (replaceAll CHR ''&'' ''&amp;'' s))))))"

text \<open>The five entities that \<open>escapeHtml\<close> emits.\<close>

definition entities :: "string list" where
  "entities = [''&amp;'', ''&lt;'', ''&gt;'', ''&quot;'', ''&#39;'']"

text \<open>Every ampersand of a string begins one of the five entities.\<close>

fun ampersandsBeginEntities :: "string \<Rightarrow> bool" where
  "ampersandsBeginEntities [] = True"
| "ampersandsBeginEntities (c # cs) =
     ((if c = CHR ''&'' then \<exists>e \<in> set entities. prefix e (c # cs) else True)
      \<and> ampersandsBeginEntities cs)"

text \<open>What the five replacements of \<open>escapeHtml\<close> make of one character.\<close>

definition escapeChar :: "char \<Rightarrow> string" where
  "escapeChar c =
     (if c = CHR ''&'' then ''&amp;''
      else if c = CHR ''<'' then ''&lt;''
      else if c = CHR ''>'' then ''&gt;''
      else if c = CHR 0x22 then ''&quot;''
      else if c = CHR 0x27 then ''&#39;''
      else [c])"

text \<open>
  \<^verbatim>\<open>
  const DISPLAY_MODE_CLASSES = { title: ..., authors: ..., full: ... };
  function normalizeDisplayMode(value) {
    if (typeof value !== 'string') { return 'full'; }
    const normalized = value.trim().toLowerCase();
    return Object.prototype.hasOwnProperty.call(DISPLAY_MODE_CLASSES, normalized) ? normalized : 'full';
  }
  \<close>
\<close>

definition DISPLAY_MODE_CLASSES :: "(string \<times> string) list" where
  "DISPLAY_MODE_CLASSES =
     [(''title'', ''display-mode-title''),
      (''authors'', ''display-mode-authors''),
      (''full'', ''display-mode-full'')]"

definition normalizeDisplayMode :: "host \<Rightarrow> jsval \<Rightarrow> string" where
  "normalizeDisplayMode h v =
     (case v of
        JStr s \<Rightarrow>
          (let normalized = toLowerCase h (trim h s)
           in if normalized \<in> fst ` set DISPLAY_MODE_CLASSES then normalized else ''full'')
      | _ \<Rightarrow> ''full'')"

section \<open>The derivation engine\<close>

subsection \<open>Articles\<close>

text \<open>
  An article of the payload, with the fields the functions below read. An optional field
  that is absent is \<open>None\<close>. \<open>article_id\<close> is the field \<^verbatim>\<open>id\<close>; \<open>keywordTags\<close> is the
  field \<^verbatim>\<open>keywords\<close>, \<open>None\<close> when it is absent or not an array.
\<close>

record article =
  arxiv_id :: "string option"
  article_id :: "string option"
  title :: string
  authors :: "string list"
  abstract :: string
  keywordTags :: "string list option"
  section_type :: "string option"
  primary_subject :: "string option"

text \<open>\<^verbatim>\<open>field || fallback\<close> on an optional string: absent and empty are both falsy.\<close>

definition orDefault :: "string option \<Rightarrow> string \<Rightarrow> string" where
  "orDefault field fallback =
     (case field of None \<Rightarrow> fallback | Some s \<Rightarrow> if s = [] then fallback else s)"

subsection \<open>The two filters\<close>

text \<open>
  \<^verbatim>\<open>
  function filterByFavoriteAuthors(articles, favoriteAuthors) {
    const favorites = (favoriteAuthors || []).map((name) => name.toLowerCase()).filter(Boolean);
    if (!favorites.length) return [];
    return articles.filter((article) => {
      const authorLower = article.authors.map((name) => name.toLowerCase());
      return favorites.some((fav) => authorLower.some((author) => author.includes(fav)));
    });
  }
  \<close>
\<close>

definition filterByFavoriteAuthors :: "host \<Rightarrow> article list \<Rightarrow> string list \<Rightarrow> article list" where
  "filterByFavoriteAuthors h as favoriteAuthors =
     (let favorites = filter (\<lambda>name. name \<noteq> []) (map (toLowerCase h) favoriteAuthors)
      in if favorites = [] then []
         else filter (\<lambda>a.
                let authorLower = map (toLowerCase h) (authors a)
                in list_ex (\<lambda>fav. list_ex (\<lambda>author. str_includes author fav) authorLower) favorites)
              as)"

text \<open>
  \<^verbatim>\<open>
  function filterByKeywords(articles, keywords) {
    const needles = (keywords || []).map((kw) => kw.toLowerCase()).filter(Boolean);
    if (!needles.length) return [];
    return articles.filter((article) => {
      const articleKeywords = Array.isArray(article.keywords)
        ? article.keywords.map((kw) => kw.toLowerCase())
        : [];
      if (articleKeywords.length) {
        return needles.some((needle) => articleKeywords.includes(needle));
      }
      const fallback = `${article.title} ${article.abstract}`.toLowerCase();
      return needles.some((needle) => fallback.includes(needle));
    });
  }
  \<close>
\<close>

definition filterByKeywords :: "host \<Rightarrow> article list \<Rightarrow> string list \<Rightarrow> article list" where
  "filterByKeywords h as kws =
     (let needles = filter (\<lambda>kw. kw \<noteq> []) (map (toLowerCase h) kws)
      in if needles = [] then []
         else filter (\<lambda>a.
                let articleKeywords =
                      (case keywordTags a of Some ks \<Rightarrow> map (toLowerCase h) ks | None \<Rightarrow> [])
                in if articleKeywords \<noteq> []
                   then list_ex (\<lambda>needle. needle \<in> set articleKeywords) needles
                   else (let fallback = toLowerCase h (title a @ '' '' @ abstract a)
                         in list_ex (\<lambda>needle. str_includes fallback needle) needles))
              as)"

subsection \<open>Grouping by section and subject\<close>

text \<open>
  \<^verbatim>\<open>
  function slugify(text, fallback = 'section') {
    const slug = String(text || '').trim().toLowerCase()
      .replace(/[^a-z0-9]+/g, '-')
      .replace(/^-+|-+$/g, '');
    return slug || fallback;
  }
  \<close>
  \<open>collapseRuns\<close> replaces every run of characters outside a-z, 0-9 by one hyphen; the flag
  says that the previous character was part of such a run.
\<close>

definition isSlugChar :: "char \<Rightarrow> bool" where
  "isSlugChar c = (c \<in> set lowerLetters \<or> c \<in> set ''0123456789'')"

fun collapseRuns :: "bool \<Rightarrow> string \<Rightarrow> string" where
  "collapseRuns inRun [] = []"
| "collapseRuns inRun (c # cs) =
     (if isSlugChar c then c # collapseRuns False cs
      else if inRun then collapseRuns True cs
      else CHR ''-'' # collapseRuns True cs)"

definition stripHyphens :: "string \<Rightarrow> string" where
  "stripHyphens s =
     rev (dropWhile (\<lambda>c. c = CHR ''-'') (rev (dropWhile (\<lambda>c. c = CHR ''-'') s)))"

definition slugify :: "host \<Rightarrow> string \<Rightarrow> string \<Rightarrow> string" where
  "slugify h text fallback =
     (let slug = stripHyphens (collapseRuns False (toLowerCase h (trim h text)))
      in if slug = [] then fallback else slug)"

text \<open>
  A \<^verbatim>\<open>Map\<close> keeps its keys in the order of their first insertion: an association list
  with one pair for each key. \<open>mapSet\<close> replaces the value of a key in place and appends a
  new key at the end.
\<close>

type_synonym 'v jsmap = "(string \<times> 'v) list"

definition mapHas :: "'v jsmap \<Rightarrow> string \<Rightarrow> bool" where
  "mapHas m k = (k \<in> set (map fst m))"

fun mapSet :: "'v jsmap \<Rightarrow> string \<Rightarrow> 'v \<Rightarrow> 'v jsmap" where
  "mapSet [] k v = [(k, v)]"
| "mapSet ((k', v') # m) k v = (if k' = k then (k, v) # m else (k', v') # mapSet m k v)"

text \<open>
  \<^verbatim>\<open>array.sort(compare)\<close>: a stable sort; an element goes behind every earlier element
  that the comparison does not put after it.
\<close>

fun insertBy :: "('a \<Rightarrow> 'a \<Rightarrow> int) \<Rightarrow> 'a \<Rightarrow> 'a list \<Rightarrow> 'a list" where
  "insertBy cmp x [] = [x]"
| "insertBy cmp x (y # ys) = (if 0 < cmp y x then x # y # ys else y # insertBy cmp x ys)"

definition sortBy :: "('a \<Rightarrow> 'a \<Rightarrow> int) \<Rightarrow> 'a list \<Rightarrow> 'a list" where
  "sortBy cmp xs = foldl (\<lambda>sorted x. insertBy cmp x sorted) [] xs"

record subjectGroup =
  subjectId :: string
  subjectLabel :: string
  items :: "article list"

record sectionGroup =
  sectionId :: string
  sectionLabel :: string
  count :: nat
  subjects :: "subjectGroup list"

text \<open>
  The body of the \<^verbatim>\<open>forEach\<close> of \<open>buildSectionGrouping\<close>:
  \<^verbatim>\<open>
      const sectionKey = article.section_type || 'Other';
      const subjectKey = article.primary_subject || 'Other';
      if (!sections.has(sectionKey)) { sections.set(sectionKey, new Map()); }
      const subjectMap = sections.get(sectionKey);
      if (!subjectMap.has(subjectKey)) { subjectMap.set(subjectKey, []); }
      subjectMap.get(subjectKey).push(article);
  \<close>
  The script pushes into the array that the inner map holds; here the maps are values,
  and the changed array and inner map are stored back under their keys.
\<close>

definition addArticle :: "article list jsmap jsmap \<Rightarrow> article \<Rightarrow> article list jsmap jsmap" where
  "addArticle sections a =
     (let sectionKey = orDefault (section_type a) ''Other'';
          subjectKey = orDefault (primary_subject a) ''Other'';
          sections1 = (if \<not> mapHas sections sectionKey then mapSet sections sectionKey [] else sections);
          subjectMap = (case map_of sections1 sectionKey of Some m \<Rightarrow> m | None \<Rightarrow> []);
          subjectMap1 = (if \<not> mapHas subjectMap subjectKey then mapSet subjectMap subjectKey [] else subjectMap);
          bucket = (case map_of subjectMap1 subjectKey of Some xs \<Rightarrow> xs | None \<Rightarrow> [])
      in mapSet sections1 sectionKey (mapSet subjectMap1 subjectKey (bucket @ [a])))"

text \<open>
  \<^verbatim>\<open>
    return Array.from(sections.entries())
      .sort(([a], [b]) => a.localeCompare(b))
      .map(([sectionName, subjectMap]) => {
        const sectionId = `category-${slugify(sectionName)}`;
        const subjects = Array.from(subjectMap.entries())
          .sort(([a], [b]) => a.localeCompare(b))
          .map(([subjectName, items]) => ({
            subjectId: `${sectionId}-${slugify(subjectName, 'subject')}`,
            subjectLabel: subjectName,
            items,
          }));
        const count = subjects.reduce((sum, entry) => sum + entry.items.length, 0);
        return { sectionId, sectionLabel: sectionName, count, subjects };
      });
  \<close>
\<close>

definition byKey :: "host \<Rightarrow> (string \<times> 'v) \<Rightarrow> (string \<times> 'v) \<Rightarrow> int" where
  "byKey h p q = localeCompare h (fst p) (fst q)"

definition makeSection :: "host \<Rightarrow> (string \<times> article list jsmap) \<Rightarrow> sectionGroup" where
  "makeSection h entry =
     (let sectionName = fst entry;
          subjectMap = snd entry;
          sectionId = ''category-'' @ slugify h sectionName ''section'';
          subjects = map (\<lambda>(subjectName, items).
                         \<lparr> subjectId = sectionId @ ''-'' @ slugify h subjectName ''subject'',
                           subjectLabel = subjectName,
                           items = items \<rparr>)
                       (sortBy (byKey h) subjectMap);
          count = foldl (\<lambda>sum entry. sum + length (items entry)) 0 subjects
      in \<lparr> sectionId = sectionId, sectionLabel = sectionName, count = count,
           subjects = subjects \<rparr>)"

definition buildSectionGrouping :: "host \<Rightarrow> article list \<Rightarrow> sectionGroup list" where
  "buildSectionGrouping h as =
     map (makeSection h) (sortBy (byKey h) (foldl addArticle [] as))"

section \<open>The normalization layer\<close>

subsection \<open>Preferences\<close>

record preferences =
  favorite_authors :: "string list"
  pref_keywords :: "string list"

text \<open>
  \<^verbatim>\<open>Array.from(new Set(cleaned))\<close>: the elements in the order of their first occurrence.
\<close>

fun uniqueInOrder :: "'a list \<Rightarrow> 'a list \<Rightarrow> 'a list" where
  "uniqueInOrder seen [] = seen"
| "uniqueInOrder seen (x # xs) =
     (if x \<in> set seen then uniqueInOrder seen xs else uniqueInOrder (seen @ [x]) xs)"

text \<open>
  \<^verbatim>\<open>
    const normalizeList = (value) => {
      if (Array.isArray(value)) {
        const cleaned = value.map((item) => String(item).trim()).filter((item) => item);
        return Array.from(new Set(cleaned));
      }
      if (typeof value === 'string') {
        const cleaned = value.split(/[\n,]/).map((item) => item.trim()).filter((item) => item);
        return Array.from(new Set(cleaned));
      }
      return [];
    };
  \<close>
\<close>

definition normalizeList :: "host \<Rightarrow> jsval \<Rightarrow> error + string list" where
  "normalizeList h v =
     (case v of
        JArr xs \<Rightarrow>
          andThen (mapE (\<lambda>item. andThen (toStr h item) (\<lambda>s. Inr (trim h s))) xs)
            (\<lambda>trimmed. Inr (uniqueInOrder [] (filter (\<lambda>item. item \<noteq> []) trimmed)))
      | JStr s \<Rightarrow>
          Inr (uniqueInOrder []
                (filter (\<lambda>item. item \<noteq> [])
                   (map (trim h) (splitOn (\<lambda>c. c = CHR 0x0A \<or> c = CHR '','') [] s))))
      | _ \<Rightarrow> Inr [])"

text \<open>
  \<^verbatim>\<open>
  function normalizePreferences(raw) {
    ...
    return {
      favorite_authors: normalizeList(raw.favorite_authors),
      keywords: normalizeList(raw.keywords),
    };
  }
  \<close>
  Reading a property of \<^verbatim>\<open>null\<close> or \<^verbatim>\<open>undefined\<close> throws a \<^verbatim>\<open>TypeError\<close>, and so
  does the printing of an array element that cannot be printed.
\<close>

definition normalizePreferences :: "host \<Rightarrow> jsval \<Rightarrow> error + preferences" where
  "normalizePreferences h raw =
     (case raw of
        JUndefined \<Rightarrow> Inl TypeError
      | JNull \<Rightarrow> Inl TypeError
      | _ \<Rightarrow>
          andThen (normalizeList h (getProp raw ''favorite_authors''))
            (\<lambda>favorites. andThen (normalizeList h (getProp raw ''keywords''))
               (\<lambda>kws. Inr \<lparr> favorite_authors = favorites, pref_keywords = kws \<rparr>)))"

text \<open>
  A preferences value as a loosely typed value: what \<^verbatim>\<open>JSON.parse\<close> reads back from the
  text that \<^verbatim>\<open>JSON.stringify\<close> writes for it, and what \<open>normalizePreferences\<close> is given
  when the script passes it a preferences value.
\<close>

definition preferencesValue :: "preferences \<Rightarrow> jsval" where
  "preferencesValue p =
     JObj [(''favorite_authors'', JArr (map JStr (favorite_authors p))),
           (''keywords'', JArr (map JStr (pref_keywords p)))]"

subsection \<open>Read-list entries\<close>

record readListEntry =
  entry_id :: string
  entry_title :: string
  entry_absUrl :: string
  entry_pdfUrl :: string
  entry_authors :: string
  entry_source :: string
  entry_note :: string
  entry_addedAt :: jsnum

text \<open>\<^verbatim>\<open>item && item.key\<close>.\<close>

definition guardedProp :: "jsval \<Rightarrow> string \<Rightarrow> jsval" where
  "guardedProp item key = (if truthy item then getProp item key else item)"

text \<open>\<^verbatim>\<open>String(item && item.key ? item.key : '').trim()\<close>.\<close>

definition trimmedField :: "host \<Rightarrow> jsval \<Rightarrow> string \<Rightarrow> error + string" where
  "trimmedField h item key =
     andThen (toStr h (if truthy (guardedProp item key) then getProp item key else JStr []))
       (\<lambda>s. Inr (trim h s))"

text \<open>
  \<^verbatim>\<open>String(item && (item.absUrl || item.url) ? item.absUrl || item.url : '').trim()\<close>.
\<close>

definition trimmedUrl :: "host \<Rightarrow> jsval \<Rightarrow> error + string" where
  "trimmedUrl h item =
     (let u = (if truthy item then orElse (getProp item ''absUrl'') (getProp item ''url'')
               else item)
      in andThen (toStr h (if truthy u
                           then orElse (getProp item ''absUrl'') (getProp item ''url'')
                           else JStr []))
           (\<lambda>s. Inr (trim h s)))"

text \<open>
  The function mapped over the array by \<open>normalizeReadListItems\<close>; \<open>None\<close> is its
  \<^verbatim>\<open>null\<close>.
  \<^verbatim>\<open>
      const id = String(item && item.id ? item.id : '').trim();
      const title = String(item && item.title ? item.title : '').trim() || id;
      if (!id || !title) return null;
      return {
        id,
        title,
        absUrl: String(item && (item.absUrl || item.url) ? item.absUrl || item.url : '').trim(),
        pdfUrl: String(item && item.pdfUrl ? item.pdfUrl : '').trim(),
        authors: String(item && item.authors ? item.authors : '').trim(),
        source: String(item && item.source ? item.source : '').trim(),
        note: typeof (item && item.note) === 'string' ? item.note : '',
        addedAt: Number(item && item.addedAt) || Date.now(),
      };
  \<close>
  The fields are computed in this order, and the first conversion that throws ends the
  function. The object is built only for an item with an id, which is an object; there
  \<^verbatim>\<open>item && item.note\<close> is \<^verbatim>\<open>item.note\<close>.
\<close>

definition normalizeReadListItem :: "host \<Rightarrow> jsnum \<Rightarrow> jsval \<Rightarrow> error + readListEntry option" where
  "normalizeReadListItem h now item =
     andThen (trimmedField h item ''id'') (\<lambda>id.
     andThen (trimmedField h item ''title'') (\<lambda>t.
       let title = (if t = [] then id else t)
       in if id = [] \<or> title = [] then Inr None
          else
            andThen (trimmedUrl h item) (\<lambda>absUrl.
            andThen (trimmedField h item ''pdfUrl'') (\<lambda>pdfUrl.
            andThen (trimmedField h item ''authors'') (\<lambda>authorNames.
            andThen (trimmedField h item ''source'') (\<lambda>sourceKey.
            andThen (toNumber h (guardedProp item ''addedAt'')) (\<lambda>n.
              Inr (Some
                \<lparr> entry_id = id,
                  entry_title = title,
                  entry_absUrl = absUrl,
                  entry_pdfUrl = pdfUrl,
                  entry_authors = authorNames,
                  entry_source = sourceKey,
                  entry_note = (case guardedProp item ''note'' of JStr s \<Rightarrow> s | _ \<Rightarrow> []),
                  entry_addedAt = (if truthy (JNum n) then n else now) \<rparr>))))))))"

text \<open>
  \<^verbatim>\<open>
  function normalizeReadListItems(value) {
    if (!Array.isArray(value)) return [];
    return value.map((item) => { ... }).filter(Boolean);
  }
  \<close>
\<close>

definition normalizeReadListItems :: "host \<Rightarrow> jsnum \<Rightarrow> jsval \<Rightarrow> error + readListEntry list" where
  "normalizeReadListItems h now v =
     (case v of
        JArr xs \<Rightarrow>
          andThen (mapE (normalizeReadListItem h now) xs)
            (\<lambda>normalized. Inr (concat (map (\<lambda>r. case r of None \<Rightarrow> [] | Some e \<Rightarrow> [e]) normalized)))
      | _ \<Rightarrow> Inr [])"

text \<open>An entry of the read list as the object that the script holds.\<close>

definition entryValue :: "readListEntry \<Rightarrow> jsval" where
  "entryValue e =
     JObj [(''id'', JStr (entry_id e)),
           (''title'', JStr (entry_title e)),
           (''absUrl'', JStr (entry_absUrl e)),
           (''pdfUrl'', JStr (entry_pdfUrl e)),
           (''authors'', JStr (entry_authors e)),
           (''source'', JStr (entry_source e)),
           (''note'', JStr (entry_note e)),
           (''addedAt'', JNum (entry_addedAt e))]"

section \<open>The persistence adapter\<close>

text \<open>
  The local storage of the browser: not usable at all (every access throws), or a store
  of texts under keys. \<open>getItem\<close> is \<^verbatim>\<open>localStorage.getItem(key)\<close>: \<open>Inl\<close> when it
  throws, \<open>Inr None\<close> for \<^verbatim>\<open>null\<close>.
\<close>

datatype storage = Unavailable | Stored "(string \<times> string) list"

definition getItem :: "storage \<Rightarrow> string \<Rightarrow> error + string option" where
  "getItem st key = (case st of Unavailable \<Rightarrow> Inl SecurityError | Stored kvs \<Rightarrow> Inr (map_of kvs key))"

definition SOURCE_STORAGE_KEY :: string where
  "SOURCE_STORAGE_KEY = ''arxivDigestSource''"

definition PREF_STORAGE_KEY :: string where
  "PREF_STORAGE_KEY = ''arxivDigestPreferences''"

definition DISPLAY_MODE_STORAGE_KEY :: string where
  "DISPLAY_MODE_STORAGE_KEY = ''arxivDigestDisplayMode''"

definition READ_LIST_STORAGE_KEY :: string where
  "READ_LIST_STORAGE_KEY = ''arxivDigestReadList''"

text \<open>
  \<^verbatim>\<open>
  function loadStoredDisplayMode() {
    try {
      const stored = localStorage.getItem(DISPLAY_MODE_STORAGE_KEY);
      return stored ? normalizeDisplayMode(stored) : '';
    } catch (_) { return ''; }
  }
  \<close>
\<close>

definition loadStoredDisplayMode :: "host \<Rightarrow> storage \<Rightarrow> string" where
  "loadStoredDisplayMode h st =
     (case getItem st DISPLAY_MODE_STORAGE_KEY of
        Inl _ \<Rightarrow> []
      | Inr None \<Rightarrow> []
      | Inr (Some stored) \<Rightarrow> if stored \<noteq> [] then normalizeDisplayMode h (JStr stored) else [])"

text \<open>
  \<^verbatim>\<open>
  function loadStoredReadList() {
    try {
      const raw = localStorage.getItem(READ_LIST_STORAGE_KEY);
      return raw ? normalizeReadListItems(JSON.parse(raw)) : [];
    } catch (_) { return []; }
  }
  \<close>
\<close>

definition loadStoredReadList :: "host \<Rightarrow> jsnum \<Rightarrow> storage \<Rightarrow> readListEntry list" where
  "loadStoredReadList h now st =
     (case getItem st READ_LIST_STORAGE_KEY of
        Inl _ \<Rightarrow> []
      | Inr None \<Rightarrow> []
      | Inr (Some raw) \<Rightarrow>
          if raw \<noteq> []
          then (case jsonParse h raw of
                  None \<Rightarrow> []
                | Some v \<Rightarrow> (case normalizeReadListItems h now v of
                              Inl _ \<Rightarrow> []
                            | Inr entries \<Rightarrow> entries))
          else [])"

text \<open>
  \<^verbatim>\<open>
  function loadStoredSource() {
    try { return localStorage.getItem(SOURCE_STORAGE_KEY) || ''; } catch (_) { return ''; }
  }
  \<close>
\<close>

definition loadStoredSource :: "storage \<Rightarrow> string" where
  "loadStoredSource st =
     (case getItem st SOURCE_STORAGE_KEY of
        Inl _ \<Rightarrow> []
      | Inr None \<Rightarrow> []
      | Inr (Some stored) \<Rightarrow> stored)"

text \<open>
  \<^verbatim>\<open>
  function loadStoredPreferences() {
    try {
      const raw = localStorage.getItem(PREF_STORAGE_KEY);
      return raw ? normalizePreferences(JSON.parse(raw)) : normalizePreferences(initialPreferences);
    } catch (_) { return normalizePreferences(initialPreferences); }
  }
  \<close>
  A throw in the handler itself is not caught, so the result is still a sum.
\<close>

definition loadStoredPreferences :: "host \<Rightarrow> storage \<Rightarrow> preferences \<Rightarrow> error + preferences" where
  "loadStoredPreferences h st initialPreferences =
     (let defaults = normalizePreferences h (preferencesValue initialPreferences)
      in case getItem st PREF_STORAGE_KEY of
           Inl _ \<Rightarrow> defaults
         | Inr None \<Rightarrow> defaults
         | Inr (Some raw) \<Rightarrow>
             if raw \<noteq> []
             then (case jsonParse h raw of
                     None \<Rightarrow> defaults
                   | Some v \<Rightarrow> (case normalizePreferences h v of
                                 Inl _ \<Rightarrow> defaults
                               | Inr p \<Rightarrow> Inr p))
             else defaults)"

section \<open>The state of the page\<close>

text \<open>
  The payload \<^verbatim>\<open>RAW_DATA\<close>: the sources under their keys, in the order of
  \<^verbatim>\<open>Object.keys\<close>, the default source and the default preferences as they come.
\<close>

record sourceData =
  label :: "string option"
  articles :: "article list"

record rawData =
  sources :: "(string \<times> sourceData) list"
  default_source :: "string option"
  raw_preferences :: jsval

text \<open>
  \<^verbatim>\<open>RAW_DATA.sources[key]\<close> is read for its truthiness only. A source is an object, so
  its own keys are truthy; so are the members that every object inherits.
\<close>

definition objectPrototypeMembers :: "string list" where
  "objectPrototypeMembers =
     [''constructor'', ''__defineGetter__'', ''__defineSetter__'', ''hasOwnProperty'',
      ''__lookupGetter__'', ''__lookupSetter__'', ''isPrototypeOf'', ''propertyIsEnumerable'',
      ''toString'', ''valueOf'', ''__proto__'', ''toLocaleString'']"

definition hasSource :: "rawData \<Rightarrow> string \<Rightarrow> bool" where
  "hasSource raw key = (key \<in> set (map fst (sources raw)) \<or> key \<in> set objectPrototypeMembers)"

text \<open>
  The state object, without the element that opened the modal.
\<close>

record state =
  source :: string
  preferences :: preferences
  isEditingPreferences :: bool
  activeSection :: string
  displayMode :: string
  expandedArticles :: "string set"
  readList :: "readListEntry list"
  readListEditingId :: string

text \<open>
  The start of the script, up to the choice of the source:
  \<^verbatim>\<open>
  const SOURCE_KEYS = Object.keys(RAW_DATA.sources || {});
  if (!SOURCE_KEYS.length) { return; }
  const initialPreferences = normalizePreferences(RAW_DATA.preferences || {});
  const state = {
    source: loadStoredSource(),
    preferences: loadStoredPreferences(),
    isEditingPreferences: false,
    activeSection: 'stats',
    displayMode: loadStoredDisplayMode() || 'authors',
    expandedArticles: new Set(),
    lastModalTrigger: null,
    readList: loadStoredReadList(),
    readListEditingId: '',
  };
  if (!RAW_DATA.sources[state.source]) {
    state.source = RAW_DATA.default_source && RAW_DATA.sources[RAW_DATA.default_source]
      ? RAW_DATA.default_source
      : SOURCE_KEYS[0];
  }
  \<close>
  \<open>Inr None\<close> is the early return of a payload with no source.
\<close>

definition chooseSource :: "rawData \<Rightarrow> string \<Rightarrow> string \<Rightarrow> string" where
  "chooseSource raw firstKey stored =
     (if \<not> hasSource raw stored
      then (case default_source raw of
              Some d \<Rightarrow> if d \<noteq> [] \<and> hasSource raw d then d else firstKey
            | None \<Rightarrow> firstKey)
      else stored)"

definition initialState :: "host \<Rightarrow> jsnum \<Rightarrow> rawData \<Rightarrow> storage \<Rightarrow> error + state option" where
  "initialState h now raw st =
     (case map fst (sources raw) of
        [] \<Rightarrow> Inr None
      | firstKey # _ \<Rightarrow>
          (case normalizePreferences h (orElse (raw_preferences raw) (JObj [])) of
             Inl e \<Rightarrow> Inl e
           | Inr initialPreferences \<Rightarrow>
               (case loadStoredPreferences h st initialPreferences of
                  Inl e \<Rightarrow> Inl e
                | Inr prefs \<Rightarrow>
                    Inr (Some
                      \<lparr> source = chooseSource raw firstKey (loadStoredSource st),
                        preferences = prefs,
                        isEditingPreferences = False,
                        activeSection = ''stats'',
                        displayMode = (let m = loadStoredDisplayMode h st
                                       in if m \<noteq> [] then m else ''authors''),
                        expandedArticles = {},
                        readList = loadStoredReadList h now st,
                        readListEditingId = [] \<rparr>))))"

section \<open>The view-state controller\<close>

text \<open>
  The identifier of an article on its card:
  \<^verbatim>\<open>const articleId = String(article.arxiv_id || article.id || '');\<close>
\<close>

definition articleId :: "article \<Rightarrow> string" where
  "articleId a = orDefault (arxiv_id a) (orDefault (article_id a) [])"

text \<open>
  In \<open>renderArticleCard\<close>:
  \<^verbatim>\<open>
    const isUserExpanded = state.expandedArticles.has(articleId);
    const ariaExpanded = state.displayMode === 'full' || isUserExpanded;
  \<close>
\<close>

definition ariaExpanded :: "state \<Rightarrow> article \<Rightarrow> bool" where
  "ariaExpanded s a =
     (let isUserExpanded = (articleId a \<in> expandedArticles s)
      in displayMode s = ''full'' \<or> isUserExpanded)"

text \<open>
  In \<open>updatePaperAria\<close>, for the card of one paper:
  \<^verbatim>\<open>
      const paperId = card.getAttribute('data-paper-id') || '';
      const isUserExpanded = paperId && state.expandedArticles.has(paperId);
      const isExpanded = state.displayMode === 'full' || Boolean(isUserExpanded);
  \<close>
\<close>

definition isExpanded :: "state \<Rightarrow> string \<Rightarrow> bool" where
  "isExpanded s paperId =
     (let isUserExpanded = (paperId \<noteq> [] \<and> paperId \<in> expandedArticles s)
      in displayMode s = ''full'' \<or> isUserExpanded)"

text \<open>
  \<^verbatim>\<open>
  function togglePaperExpansion(paper) {
    const paperId = paper.getAttribute('data-paper-id') || '';
    if (!paperId) return;
    if (state.expandedArticles.has(paperId)) { state.expandedArticles.delete(paperId); }
    else { state.expandedArticles.add(paperId); }
    updatePaperAria();
  }
  \<close>
\<close>

definition togglePaperExpansion :: "state \<Rightarrow> string \<Rightarrow> state" where
  "togglePaperExpansion s paperId =
     (if paperId = [] then s
      else if paperId \<in> expandedArticles s
      then s\<lparr>expandedArticles := expandedArticles s - {paperId}\<rparr>
      else s\<lparr>expandedArticles := insert paperId (expandedArticles s)\<rparr>)"

text \<open>
  \<^verbatim>\<open>
  function setDisplayMode(mode) {
    const normalized = normalizeDisplayMode(mode);
    if (normalized === state.displayMode) { return; }
    state.displayMode = normalized;
    ...
  }
  \<close>
\<close>

definition setDisplayMode :: "host \<Rightarrow> state \<Rightarrow> jsval \<Rightarrow> state" where
  "setDisplayMode h s mode =
     (let normalized = normalizeDisplayMode h mode
      in if normalized = displayMode s then s else s\<lparr>displayMode := normalized\<rparr>)"

section \<open>The read-list controller\<close>

text \<open>
  Of each operation the change of the state is modelled; the write to the storage and the
  rendering that follow it leave the state as it is. An operation that throws returns
  \<open>Inl\<close>.
  \<^verbatim>\<open>
  function setReadList(nextList) {
    state.readList = normalizeReadListItems(nextList);
    saveReadList(state.readList); renderReadList(); updateReadListButtons();
  }
  \<close>
\<close>

definition setReadList :: "host \<Rightarrow> jsnum \<Rightarrow> state \<Rightarrow> readListEntry list \<Rightarrow> error + state" where
  "setReadList h now s nextList =
     andThen (normalizeReadListItems h now (JArr (map entryValue nextList)))
       (\<lambda>entries. Inr (s\<lparr>readList := entries\<rparr>))"

text \<open>
  \<^verbatim>\<open>
  function addToReadList(entry) {
    const [normalized] = normalizeReadListItems([entry]);
    if (!normalized) return;
    const next = state.readList.filter((item) => item.id !== normalized.id);
    next.push(normalized);
    state.readListEditingId = '';
    setReadList(next);
  }
  \<close>
\<close>

definition addToReadList :: "host \<Rightarrow> jsnum \<Rightarrow> state \<Rightarrow> jsval \<Rightarrow> error + state" where
  "addToReadList h now s entry =
     andThen (normalizeReadListItems h now (JArr [entry]))
       (\<lambda>entries. case entries of
          [] \<Rightarrow> Inr s
        | normalized # _ \<Rightarrow>
            (let next = filter (\<lambda>item. entry_id item \<noteq> entry_id normalized) (readList s)
                        @ [normalized]
             in setReadList h now (s\<lparr>readListEditingId := []\<rparr>) next))"

text \<open>
  \<^verbatim>\<open>
  function removeFromReadList(id) {
    const next = state.readList.filter((item) => item.id !== id);
    if (state.readListEditingId === id) { state.readListEditingId = ''; }
    setReadList(next);
  }
  \<close>
\<close>

definition removeFromReadList :: "host \<Rightarrow> jsnum \<Rightarrow> state \<Rightarrow> string \<Rightarrow> error + state" where
  "removeFromReadList h now s targetId =
     (let next = filter (\<lambda>item. entry_id item \<noteq> targetId) (readList s);
          s1 = (if readListEditingId s = targetId then s\<lparr>readListEditingId := []\<rparr> else s)
      in setReadList h now s1 next)"

text \<open>
  \<^verbatim>\<open>
  function updateReadListNote(id, note) {
    let changed = false;
    const next = state.readList.map((item) => {
      if (item.id !== id) return item;
      changed = true;
      return { ...item, note: String(note || '') };
    });
    if (!changed) return;
    state.readListEditingId = '';
    setReadList(next);
  }
  \<close>
  The note is the text of an input field.
\<close>

definition updateReadListNote :: "host \<Rightarrow> jsnum \<Rightarrow> state \<Rightarrow> string \<Rightarrow> string \<Rightarrow> error + state" where
  "updateReadListNote h now s targetId note =
     (let changed = list_ex (\<lambda>item. entry_id item = targetId) (readList s);
          next = map (\<lambda>item. if entry_id item \<noteq> targetId then item else item\<lparr>entry_note := note\<rparr>)
                   (readList s)
      in if \<not> changed then Inr s else setReadList h now (s\<lparr>readListEditingId := []\<rparr>) next)"

text \<open>
  The handler of the clear button:
  \<^verbatim>\<open>
      state.readList = [];
      state.readListEditingId = '';
      saveReadList(state.readList); renderReadList(); updateReadListButtons();
  \<close>
\<close>

definition clearReadList :: "state \<Rightarrow> state" where
  "clearReadList s = s\<lparr>readList := [], readListEditingId := []\<rparr>"

text \<open>The four operations on the read list.\<close>

datatype readListOp =
    Add jsval
  | Remove string
  | SetNote string string
  | Clear

fun applyOp :: "host \<Rightarrow> jsnum \<Rightarrow> state \<Rightarrow> readListOp \<Rightarrow> error + state" where
  "applyOp h now s (Add entry) = addToReadList h now s entry"
| "applyOp h now s (Remove targetId) = removeFromReadList h now s targetId"
| "applyOp h now s (SetNote targetId note) = updateReadListNote h now s targetId note"
| "applyOp h now s Clear = Inr (clearReadList s)"

text \<open>
  A run of operations, each with the time at which it runs. An operation that throws ends
  its event handler and the page goes on with the state as the handler left it. The only
  conversions that can throw are those of the entry given to \<open>addToReadList\<close>, in its
  first statement, before anything is assigned: the state is then the one before the
  operation.
\<close>

fun applyOps :: "host \<Rightarrow> state \<Rightarrow> (jsnum \<times> readListOp) list \<Rightarrow> state" where
  "applyOps h s [] = s"
| "applyOps h s ((now, op) # ops) =
     (case applyOp h now s op of
        Inl _ \<Rightarrow> applyOps h s ops
      | Inr s' \<Rightarrow> applyOps h s' ops)"

section \<open>A host and inputs for the examples\<close>

text \<open>
  The theorems below hold on every host. Where a statement is evaluated on a concrete
  input, this host is used: it prints the whole part of a number in decimal and reads the
  natural numbers (anything else reads as not-a-number), it lower-cases the letters A to Z
  and the upper-case letters with the codes C0 to DE (all but the multiplication sign),
  it trims the white space below (tab, line feed, vertical tab, form feed, carriage return,
  space, no-break space), it compares strings by their character codes, and its JSON
  reader knows a few texts and throws on every other.
\<close>

definition upperLetters :: string where
  "upperLetters =
     ''ABCDEFGHIJKLMNOPQRSTUVWXYZ''
     @ [
        CHR 0xC0, CHR 0xC1, CHR 0xC2, CHR 0xC3, CHR 0xC4, CHR 0xC5, CHR 0xC6, CHR 0xC7,
        CHR 0xC8, CHR 0xC9, CHR 0xCA, CHR 0xCB, CHR 0xCC, CHR 0xCD, CHR 0xCE, CHR 0xCF,
        CHR 0xD0, CHR 0xD1, CHR 0xD2, CHR 0xD3, CHR 0xD4, CHR 0xD5, CHR 0xD6, CHR 0xD8,
        CHR 0xD9, CHR 0xDA, CHR 0xDB, CHR 0xDC, CHR 0xDD, CHR 0xDE]"

definition loweredLetters :: string where
  "loweredLetters =
     lowerLetters
     @ [
        CHR 0xE0, CHR 0xE1, CHR 0xE2, CHR 0xE3, CHR 0xE4, CHR 0xE5, CHR 0xE6, CHR 0xE7,
        CHR 0xE8, CHR 0xE9, CHR 0xEA, CHR 0xEB, CHR 0xEC, CHR 0xED, CHR 0xEE, CHR 0xEF,
        CHR 0xF0, CHR 0xF1, CHR 0xF2, CHR 0xF3, CHR 0xF4, CHR 0xF5, CHR 0xF6, CHR 0xF8,
        CHR 0xF9, CHR 0xFA, CHR 0xFB, CHR 0xFC, CHR 0xFD, CHR 0xFE]"

definition lowerChar :: "char \<Rightarrow> char" where
  "lowerChar c = (case map_of (zip upperLetters loweredLetters) c of Some l \<Rightarrow> l | None \<Rightarrow> c)"

definition isSpace :: "char \<Rightarrow> bool" where
  "isSpace c = (c \<in> set [CHR 0x09, CHR 0x0A, CHR 0x0B, CHR 0x0C, CHR 0x0D, CHR 0x20, CHR 0xA0])"

definition trimSpaces :: "string \<Rightarrow> string" where
  "trimSpaces s = rev (dropWhile isSpace (rev (dropWhile isSpace s)))"

definition digitChar :: "nat \<Rightarrow> char" where
  "digitChar d = ''0123456789'' ! d"

fun showNat :: "nat \<Rightarrow> string" where
  "showNat n = (if n < 10 then [digitChar n] else showNat (n div 10) @ [digitChar (n mod 10)])"

fun readDigits :: "nat \<Rightarrow> string \<Rightarrow> nat option" where
  "readDigits acc [] = Some acc"
| "readDigits acc (c # cs) =
     (case map_of (zip ''0123456789'' [0..<10]) c of
        None \<Rightarrow> None
      | Some d \<Rightarrow> readDigits (10 * acc + d) cs)"

fun compareCodes :: "string \<Rightarrow> string \<Rightarrow> int" where
  "compareCodes [] [] = 0"
| "compareCodes [] (y # ys) = - 1"
| "compareCodes (x # xs) [] = 1"
| "compareCodes (x # xs) (y # ys) =
     (if (of_char x :: nat) < of_char y then - 1
      else if (of_char y :: nat) < of_char x then 1
      else compareCodes xs ys)"

definition exampleHost :: host where
  "exampleHost =
     \<lparr> numberToString =
         (\<lambda>n. case n of
                NaN \<Rightarrow> ''NaN''
              | PosInf \<Rightarrow> ''Infinity''
              | NegInf \<Rightarrow> ''-Infinity''
              | Finite q \<Rightarrow> (if q < 0 then ''-'' else []) @ showNat (nat \<lfloor>\<bar>q\<bar>\<rfloor>)),
       stringToNumber =
         (\<lambda>s. let t = trimSpaces s
              in if t = [] then Finite 0
                 else (case readDigits 0 t of Some n \<Rightarrow> Finite (of_nat n) | None \<Rightarrow> NaN)),
       toLowerCase = map lowerChar,
       trim = trimSpaces,
       localeCompare = compareCodes,
       jsonParse =
         map_of
           [(''null'', JNull), (''5'', JNum (Finite 5)), (''{}'', JObj []), (''[]'', JArr []),
            (''{\"favorite_authors\":[\"Malik\",\"He\"],\"keywords\":[\"diffusion\",\"3\"]}'',
             JObj [(''favorite_authors'', JArr [JStr ''Malik'', JStr ''He'']),
                   (''keywords'', JArr [JStr ''diffusion'', JStr ''3''])]),
            (''{\"favorite_authors\":[{\"toString\":1}]}'',
             JObj [(''favorite_authors'', JArr [JObj [(''toString'', JNum (Finite 1))]])]),
            (''[{\"id\":\"2401.0001\",\"note\":\"a\"},{\"id\":\"2401.0001\",\"note\":\"b\"}]'',
             JArr [JObj [(''id'', JStr ''2401.0001''), (''note'', JStr ''a'')],
                   JObj [(''id'', JStr ''2401.0001''), (''note'', JStr ''b'')]])] \<rparr>"

text \<open>Two times of the clock, a minute apart.\<close>

definition firstTime :: jsnum where
  "firstTime = Finite 1700000000000"

definition laterTime :: jsnum where
  "laterTime = Finite 1700000060000"

text \<open>Three articles: two without keyword tags, one with tags.\<close>

definition paperMalik :: article where
  "paperMalik =
     \<lparr> arxiv_id = Some ''2401.0001'', article_id = None,
       title = ''Learning to See by Moving'',
       authors = [''Pulkit Agrawal'', ''Jitendra Malik''],
       abstract = ''Egomotion as a supervisory signal.'',
       keywordTags = None, section_type = Some ''New submissions'',
       primary_subject = Some ''Computer Vision'' \<rparr>"

definition paperDiffusion :: article where
  "paperDiffusion =
     \<lparr> arxiv_id = Some ''2401.0002'', article_id = None,
       title = ''Denoising Diffusion Models'',
       authors = [''Jonathan Ho''],
       abstract = ''A class of latent variable models.'',
       keywordTags = None, section_type = Some ''New submissions'',
       primary_subject = None \<rparr>"

definition paperTagged :: article where
  "paperTagged =
     \<lparr> arxiv_id = Some ''2401.0003'', article_id = None,
       title = ''Scaling Diffusion Transformers'',
       authors = [''Kaiming He''],
       abstract = ''Transformers for image synthesis.'',
       keywordTags = Some [''Transformers'', ''Image Synthesis''], section_type = None,
       primary_subject = Some ''Machine Learning'' \<rparr>"

text \<open>An article whose title and abstract are one letter each.\<close>

definition paperShort :: article where
  "paperShort =
     \<lparr> arxiv_id = None, article_id = Some ''2401.0004'', title = ''a'',
       authors = [''Fei-Fei Li''],
       abstract = ''b'', keywordTags = None, section_type = None, primary_subject = None \<rparr>"

text \<open>A payload with two sources, a default source and a default favorite author.\<close>

definition samplePayload :: rawData where
  "samplePayload =
     \<lparr> sources = [(''cs.CV'', \<lparr> label = Some ''Computer Vision'',
                               articles = [paperMalik, paperDiffusion, paperTagged] \<rparr>),
                  (''cs.LG'', \<lparr> label = None, articles = [paperShort] \<rparr>)],
       default_source = Some ''cs.LG'',
       raw_preferences = JObj [(''favorite_authors'', JStr ''Malik'')] \<rparr>"

text \<open>A state with an empty read list, and the same paper marked twice.\<close>

definition freshState :: state where
  "freshState =
     \<lparr> source = ''cs.CV'',
       preferences = \<lparr> favorite_authors = [], pref_keywords = [] \<rparr>,
       isEditingPreferences = False, activeSection = ''stats'', displayMode = ''authors'',
       expandedArticles = {}, readList = [], readListEditingId = [] \<rparr>"

definition markedFirst :: jsval where
  "markedFirst =
     JObj [(''id'', JStr ''2401.0001''), (''title'', JStr ''Learning to See by Moving''),
           (''absUrl'', JStr ''https://arxiv.org/abs/2401.0001''), (''note'', JStr ''first'')]"

definition markedSecond :: jsval where
  "markedSecond =
     JObj [(''id'', JStr ''2401.0001''), (''title'', JStr ''Learning to See by Moving''),
           (''absUrl'', JStr ''https://arxiv.org/abs/2401.0001''), (''note'', JStr ''second'')]"

text \<open>A storage that holds a read list with the same id twice.\<close>

definition storedTwice :: storage where
  "storedTwice =
     Stored [(READ_LIST_STORAGE_KEY,
              ''[{\"id\":\"2401.0001\",\"note\":\"a\"},{\"id\":\"2401.0001\",\"note\":\"b\"}]'')]"

text \<open>A storage whose preferences hold an item that cannot be printed.\<close>

definition storedUnprintable :: storage where
  "storedUnprintable =
     Stored [(PREF_STORAGE_KEY, ''{\"favorite_authors\":[{\"toString\":1}]}'')]"

section \<open>Invariants of the grouping\<close>

text \<open>The articles of a subject map, and of the whole map of sections, as multisets.\<close>

definition bucketItems :: "article list jsmap \<Rightarrow> article multiset" where
  "bucketItems sm = sum_list (map (\<lambda>p. mset (snd p)) sm)"

definition groupingItems :: "article list jsmap jsmap \<Rightarrow> article multiset" where
  "groupingItems m = sum_list (map (\<lambda>p. bucketItems (snd p)) m)"

text \<open>
  The keys under which \<open>addArticle\<close> files an article, and the maps in which every
  article is filed under its keys.
\<close>

definition keyed :: "string \<Rightarrow> string \<Rightarrow> article \<Rightarrow> bool" where
  "keyed k sk a = (orDefault (section_type a) ''Other'' = k \<and> orDefault (primary_subject a) ''Other'' = sk)"

definition bucketsKeyed :: "string \<Rightarrow> article list jsmap \<Rightarrow> bool" where
  "bucketsKeyed k sm = (\<forall>(sk, xs) \<in> set sm. \<forall>a \<in> set xs. keyed k sk a)"

definition groupingKeyed :: "article list jsmap jsmap \<Rightarrow> bool" where
  "groupingKeyed m = (\<forall>(k, sm) \<in> set m. bucketsKeyed k sm)"

section \<open>What the properties ask of the host\<close>

text \<open>
  Two facts about \<^verbatim>\<open>trim\<close> and one about \<^verbatim>\<open>toLowerCase\<close> that hold in every
  implementation of the language: trimming the empty string gives the empty string and
  trimming a trimmed string changes nothing; lower-casing gives the empty string for the
  empty string only. And a clock that shows a time other than 0 and not-a-number.
\<close>

definition trimSettles :: "host \<Rightarrow> bool" where
  "trimSettles h = (trim h [] = [] \<and> (\<forall>s. trim h (trim h s) = trim h s))"

definition lowerKeepsText :: "host \<Rightarrow> bool" where
  "lowerKeepsText h = (\<forall>s. (toLowerCase h s = []) = (s = []))"

definition clockRuns :: "jsnum \<Rightarrow> bool" where
  "clockRuns now = truthy (JNum now)"

section \<open>The values that can be printed\<close>

text \<open>
  Every value but an object with an own property \<^verbatim>\<open>toString\<close>, and an array that holds
  a value that cannot be printed.
\<close>

fun printable :: "jsval \<Rightarrow> bool" where
  "printable (JObj kvs) = (''toString'' \<notin> set (map fst kvs))"
| "printable (JArr xs) = (\<forall>x \<in> set xs. printable x)"
| "printable v = True"

text \<open>
  A value whose items \<open>normalizeList\<close> can print: every value but an array that holds
  an item that cannot be printed.
\<close>

definition printableItems :: "jsval \<Rightarrow> bool" where
  "printableItems v = (case v of JArr xs \<Rightarrow> (\<forall>x \<in> set xs. printable x) | _ \<Rightarrow> True)"

section \<open>Invariants of the normalization\<close>

text \<open>A list as \<open>normalizeList\<close> returns it: no entry twice, none empty, all trimmed.\<close>

definition cleanList :: "host \<Rightarrow> string list \<Rightarrow> bool" where
  "cleanList h xs = (distinct xs \<and> (\<forall>s \<in> set xs. s \<noteq> [] \<and> trim h s = s))"

text \<open>The trimmed text of a value that can be printed.\<close>

definition trimmedText :: "host \<Rightarrow> jsval \<Rightarrow> string" where
  "trimmedText h v = (case toStr h v of Inr s \<Rightarrow> trim h s | Inl _ \<Rightarrow> [])"

text \<open>
  A record of which \<open>normalizeReadListItems\<close> can print every field that it converts.
\<close>

definition printableFields :: "jsval \<Rightarrow> bool" where
  "printableFields item =
     (printable (getProp item ''id'') \<and> printable (getProp item ''title'')
      \<and> printable (getProp item ''absUrl'') \<and> printable (getProp item ''url'')
      \<and> printable (getProp item ''pdfUrl'') \<and> printable (getProp item ''authors'')
      \<and> printable (getProp item ''source'') \<and> printable (getProp item ''addedAt''))"

section \<open>Invariants of the read list\<close>

text \<open>The ids of a read list are usable: not empty and trimmed. They are unique.\<close>

definition usableIds :: "host \<Rightarrow> readListEntry list \<Rightarrow> bool" where
  "usableIds h rl = (\<forall>e \<in> set rl. entry_id e \<noteq> [] \<and> trim h (entry_id e) = entry_id e)"

definition uniqueIds :: "readListEntry list \<Rightarrow> bool" where
  "uniqueIds rl = distinct (map entry_id rl)"

text \<open>
  An entry as \<open>normalizeReadListItems\<close> leaves it when the clock runs: id and title not
  empty, the text fields trimmed, and a time that is truthy.
\<close>

definition settledEntry :: "host \<Rightarrow> readListEntry \<Rightarrow> bool" where
  "settledEntry h e =
     (entry_id e \<noteq> [] \<and> entry_title e \<noteq> []
      \<and> trim h (entry_id e) = entry_id e \<and> trim h (entry_title e) = entry_title e
      \<and> trim h (entry_absUrl e) = entry_absUrl e \<and> trim h (entry_pdfUrl e) = entry_pdfUrl e
      \<and> trim h (entry_authors e) = entry_authors e \<and> trim h (entry_source e) = entry_source e
      \<and> truthy (JNum (entry_addedAt e)))"

section \<open>What the storage holds under a key\<close>

text \<open>
  Nothing that a load can use: the storage throws, has no value under the key, or has the
  empty text. Otherwise a text that is not empty.
\<close>

definition noStoredValue :: "storage \<Rightarrow> string \<Rightarrow> bool" where
  "noStoredValue st key =
     (case getItem st key of Inl _ \<Rightarrow> True | Inr None \<Rightarrow> True | Inr (Some v) \<Rightarrow> v = [])"

definition storedValue :: "storage \<Rightarrow> string \<Rightarrow> string \<Rightarrow> bool" where
  "storedValue st key v = (getItem st key = Inr (Some v) \<and> v \<noteq> [])"

section \<open>Properties of the conversions\<close>

lemma andThen_Inr [simp]: "andThen (Inr x) f = f x"
  by (simp add: andThen_def)

lemma andThen_Inl [simp]: "andThen (Inl e) f = Inl e"
  by (simp add: andThen_def)

lemma andThen_eq_Inr: "andThen r f = Inr y \<longleftrightarrow> (\<exists>x. r = Inr x \<and> f x = Inr y)"
  by (cases r) simp_all

lemma andThen_eq_Inl: "andThen r f = Inl e \<longleftrightarrow> r = Inl e \<or> (\<exists>x. r = Inr x \<and> f x = Inl e)"
  by (cases r) simp_all

lemma mapE_eq_Inr:
  "mapE f xs = Inr ys \<longleftrightarrow> length ys = length xs \<and> (\<forall>i < length xs. f (xs ! i) = Inr (ys ! i))"
proof (induction xs arbitrary: ys)
  case Nil
  show ?case by auto
next
  case (Cons x xs)
  show ?case
  proof (cases ys)
    case Nil
    then show ?thesis by (auto split: sum.splits)
  next
    case (Cons y ys')
    have "mapE f (x # xs) = Inr (y # ys') \<longleftrightarrow> f x = Inr y \<and> mapE f xs = Inr ys'"
      by (auto split: sum.splits)
    also have "\<dots> \<longleftrightarrow> f x = Inr y \<and> length ys' = length xs
                 \<and> (\<forall>i < length xs. f (xs ! i) = Inr (ys' ! i))"
      by (simp add: Cons.IH)
    also have "\<dots> \<longleftrightarrow> length (y # ys') = length (x # xs)
                 \<and> (\<forall>i < length (x # xs). f ((x # xs) ! i) = Inr ((y # ys') ! i))"
      by (auto simp: nth_Cons split: nat.splits)
    finally show ?thesis by (simp only: Cons)
  qed
qed

lemma mapE_returns: "(\<exists>ys. mapE f xs = Inr ys) \<longleftrightarrow> (\<forall>x \<in> set xs. \<exists>y. f x = Inr y)"
  by (induction xs) (auto split: sum.splits)

lemma mapE_error: "mapE f xs = Inl e \<Longrightarrow> \<exists>x \<in> set xs. f x = Inl e"
  by (induction xs) (auto split: sum.splits)

lemma mapE_pure: "mapE (\<lambda>x. Inr (g x)) xs = Inr (map g xs)"
  by (induction xs) simp_all

lemma mapE_append:
  "mapE f (xs @ ys) =
     (case mapE f xs of
        Inl e \<Rightarrow> Inl e
      | Inr us \<Rightarrow> (case mapE f ys of Inl e \<Rightarrow> Inl e | Inr vs \<Rightarrow> Inr (us @ vs)))"
  by (induction xs) (auto split: sum.splits)

lemma toStr_returns:
  "(\<exists>s. toStr h v = Inr s) \<longleftrightarrow> printable v"
  "(\<exists>ss. toStrElems h xs = Inr ss) \<longleftrightarrow> (\<forall>x \<in> set xs. printable x)"
proof (induction h v and h xs rule: toStr_toStrElems.induct)
  case (9 h x xs)
  then show ?case by (cases x) (auto split: sum.splits)
qed (auto split: sum.splits)

lemma toStr_error:
  "toStr h v = Inl e \<Longrightarrow> e = TypeError"
  "toStrElems h xs = Inl e \<Longrightarrow> e = TypeError"
proof (induction h v and h xs rule: toStr_toStrElems.induct)
  case (9 h x xs)
  then show ?case by (cases x) (auto split: sum.splits if_splits)
qed (auto split: sum.splits if_splits)

lemma toNumber_returns: "(\<exists>n. toNumber h v = Inr n) \<longleftrightarrow> printable v"
proof (cases v)
  case (JArr xs)
  then show ?thesis using toStr_returns(1) [of h "JArr xs"] by (auto split: sum.splits)
qed auto

lemma toNumber_error: "toNumber h v = Inl e \<Longrightarrow> e = TypeError"
  using toStr_error(1) [of h v e] by (cases v) (auto split: sum.splits if_splits)

lemma printable_orElse: "printable (orElse v (JStr [])) = printable v"
  by (cases v) (simp_all add: orElse_def)

section \<open>Properties of the escaping and of the display mode\<close>

lemma replaceAll_concat_map:
  "replaceAll c r (concat (map f s)) = concat (map (\<lambda>x. replaceAll c r (f x)) s)"
  by (induction s) (simp_all add: replaceAll_def)

lemma replaceAll_as_map: "replaceAll c r s = concat (map (\<lambda>x. if x = c then r else [x]) s)"
  by (simp add: replaceAll_def)

lemma escape_one:
  "replaceAll (CHR 0x27) ''&#39;''
     (replaceAll (CHR 0x22) ''&quot;''
       (replaceAll CHR ''>'' ''&gt;''
         (replaceAll CHR ''<'' ''&lt;''
           (if x = CHR ''&'' then ''&amp;'' else [x])))) = escapeChar x"
  by (simp add: replaceAll_def escapeChar_def)

lemma replacements_concat:
  "replaceAll (CHR 0x27) ''&#39;''
     (replaceAll (CHR 0x22) ''&quot;''
       (replaceAll CHR ''>'' ''&gt;''
         (replaceAll CHR ''<'' ''&lt;''
           (replaceAll CHR ''&'' ''&amp;'' s)))) = concat (map escapeChar s)"
  apply (subst (5) replaceAll_as_map)
  apply (simp only: replaceAll_concat_map escape_one)
  done

lemma escapeHtml_concat:
  "escapeHtml h v = andThen (toStr h (orElse v (JStr []))) (\<lambda>s. Inr (concat (map escapeChar s)))"
  unfolding escapeHtml_def by (simp only: replacements_concat)

lemma escapeChar_no_raw:
  "set (escapeChar c) \<inter> {CHR ''<'', CHR ''>'', CHR 0x22, CHR 0x27} = {}"
  by (simp add: escapeChar_def)

lemma escapeChar_append:
  "ampersandsBeginEntities rest \<Longrightarrow> ampersandsBeginEntities (escapeChar c @ rest)"
  by (auto simp: escapeChar_def entities_def)

lemma ampersands_concat: "ampersandsBeginEntities (concat (map escapeChar s))"
  by (induction s) (simp_all add: escapeChar_append)

lemma escaped_no_raw:
  "set (concat (map escapeChar s)) \<inter> {CHR ''<'', CHR ''>'', CHR 0x22, CHR 0x27} = {}"
  using escapeChar_no_raw by (induction s) auto

lemma escapeHtml_returns: "(\<exists>s. escapeHtml h v = Inr s) \<longleftrightarrow> printable v"
  using toStr_returns(1) [of h "orElse v (JStr [])"]
  by (auto simp: escapeHtml_concat andThen_eq_Inr printable_orElse)

lemma escapeHtml_error: "escapeHtml h v = Inl e \<Longrightarrow> e = TypeError"
  by (auto simp: escapeHtml_concat andThen_eq_Inl dest: toStr_error(1))

lemma escapeHtml_falsy: "\<not> truthy w \<Longrightarrow> escapeHtml h w = Inr []"
  by (simp add: escapeHtml_concat orElse_def)

text \<open>
  C10, as the claim states it, fails on an object that has an own property
  \<^verbatim>\<open>toString\<close>, as \<^verbatim>\<open>JSON.parse('{"toString":1}')\<close>: \<^verbatim>\<open>String(value || '')\<close> throws a
  \<^verbatim>\<open>TypeError\<close>, so \<open>escapeHtml\<close> returns no string.
\<close>

theorem escapeHtml_throws:
  "escapeHtml exampleHost (JObj [(''toString'', JNum (Finite 1))]) = Inl TypeError"
  by (simp add: escapeHtml_def orElse_def)

text \<open>
  C10, amended. \<open>escapeHtml\<close> returns a string on every value that can be printed (every
  value but an object with an own property \<^verbatim>\<open>toString\<close> and an array that holds one),
  and throws a \<^verbatim>\<open>TypeError\<close> on the others. The string it returns holds none of the
  characters \<^verbatim>\<open><\<close>, \<^verbatim>\<open>>\<close>, the double quote and the single quote, and every ampersand
  in it begins one of the five entities: it is the printed value with each character
  escaped. Every falsy value (null, undefined, the empty string, zero, false,
  not-a-number) gives the empty string.
\<close>

theorem escapeHtml_safe:
  "((\<exists>s. escapeHtml h v = Inr s) \<longleftrightarrow> printable v)
   \<and> (\<forall>e. escapeHtml h v = Inl e \<longrightarrow> e = TypeError)
   \<and> (\<forall>s. escapeHtml h v = Inr s \<longrightarrow>
         set s \<inter> {CHR ''<'', CHR ''>'', CHR 0x22, CHR 0x27} = {}
         \<and> ampersandsBeginEntities s
         \<and> (\<exists>printed. toStr h (orElse v (JStr [])) = Inr printed
                \<and> s = concat (map escapeChar printed)))
   \<and> (\<not> truthy v \<longrightarrow> escapeHtml h v = Inr [])
   \<and> escapeHtml h JNull = Inr [] \<and> escapeHtml h JUndefined = Inr []
   \<and> escapeHtml h (JStr []) = Inr [] \<and> escapeHtml h (JNum (Finite 0)) = Inr []
   \<and> escapeHtml h (JBool False) = Inr [] \<and> escapeHtml h (JNum NaN) = Inr []"
proof -
  have err: "\<forall>e. escapeHtml h v = Inl e \<longrightarrow> e = TypeError"
    using escapeHtml_error by blast
  have safe: "\<forall>s. escapeHtml h v = Inr s \<longrightarrow>
         set s \<inter> {CHR ''<'', CHR ''>'', CHR 0x22, CHR 0x27} = {}
         \<and> ampersandsBeginEntities s
         \<and> (\<exists>printed. toStr h (orElse v (JStr [])) = Inr printed
                \<and> s = concat (map escapeChar printed))"
  proof (intro allI impI)
    fix s
    assume "escapeHtml h v = Inr s"
    then obtain printed where p: "toStr h (orElse v (JStr [])) = Inr printed"
      and s: "s = concat (map escapeChar printed)"
      by (auto simp: escapeHtml_concat andThen_eq_Inr)
    have "set s \<inter> {CHR ''<'', CHR ''>'', CHR 0x22, CHR 0x27} = {}"
      unfolding s by (rule escaped_no_raw)
    moreover have "ampersandsBeginEntities s" unfolding s by (rule ampersands_concat)
    ultimately show "set s \<inter> {CHR ''<'', CHR ''>'', CHR 0x22, CHR 0x27} = {}
         \<and> ampersandsBeginEntities s
         \<and> (\<exists>printed. toStr h (orElse v (JStr [])) = Inr printed
                \<and> s = concat (map escapeChar printed))"
      using p s by blast
  qed
  have falsy: "\<not> truthy v \<longrightarrow> escapeHtml h v = Inr []"
    by (simp add: escapeHtml_falsy)
  from escapeHtml_returns [of h v] err safe falsy
    escapeHtml_falsy [of JNull h] escapeHtml_falsy [of JUndefined h]
    escapeHtml_falsy [of "JStr []" h] escapeHtml_falsy [of "JNum (Finite 0)" h]
    escapeHtml_falsy [of "JBool False" h] escapeHtml_falsy [of "JNum NaN" h]
  show ?thesis by simp
qed

theorem escapeHtml_safe_witness:
  "escapeHtml exampleHost (JStr ''<a href=\"x\">Q&A</a>'')
     = Inr ''&lt;a href=&quot;x&quot;&gt;Q&amp;A&lt;/a&gt;''
   \<and> set ''&lt;a href=&quot;x&quot;&gt;Q&amp;A&lt;/a&gt;''
        \<inter> {CHR ''<'', CHR ''>'', CHR 0x22, CHR 0x27} = {}
   \<and> ampersandsBeginEntities ''&lt;a href=&quot;x&quot;&gt;Q&amp;A&lt;/a&gt;''
   \<and> \<not> truthy (JNum (Finite 0)) \<and> escapeHtml exampleHost (JNum (Finite 0)) = Inr []"
proof -
  have ev: "escapeHtml exampleHost (JStr ''<a href=\"x\">Q&A</a>'')
              = Inr ''&lt;a href=&quot;x&quot;&gt;Q&amp;A&lt;/a&gt;''"
    by (simp add: escapeHtml_def replaceAll_def orElse_def)
  have zero: "\<not> truthy (JNum (Finite 0))" by simp
  note safe = escapeHtml_safe [of exampleHost "JStr ''<a href=\"x\">Q&A</a>''",
      THEN conjunct2, THEN conjunct2, THEN conjunct1, THEN spec, THEN mp, OF ev]
  note falsy = escapeHtml_safe [of exampleHost "JNum (Finite 0)",
      THEN conjunct2, THEN conjunct2, THEN conjunct2, THEN conjunct1, THEN mp, OF zero]
  from ev safe [THEN conjunct1] safe [THEN conjunct2, THEN conjunct1] zero falsy
  show ?thesis by (intro conjI)
qed

text \<open>
  C8. \<open>normalizeDisplayMode\<close> returns one of the three modes on every value and has no
  branch that throws: \<open>full\<close> on a value that is not a string and on a string whose
  trimmed, lower-cased form names no mode (as \<open>bogus\<close>, which trimming and lower-casing
  leave as it is), and the mode on a string whose trimmed, lower-cased form names one.
\<close>

theorem normalizeDisplayMode_total:
  "normalizeDisplayMode h v \<in> {''title'', ''authors'', ''full''}
   \<and> ((\<forall>s. v \<noteq> JStr s) \<longrightarrow> normalizeDisplayMode h v = ''full'')
   \<and> (\<forall>s. v = JStr s \<longrightarrow>
         normalizeDisplayMode h v =
           (if toLowerCase h (trim h s) \<in> {''title'', ''authors'', ''full''}
            then toLowerCase h (trim h s) else ''full''))
   \<and> (toLowerCase h (trim h ''bogus'') = ''bogus'' \<longrightarrow>
         normalizeDisplayMode h (JStr ''bogus'') = ''full'')"
proof -
  have modes: "fst ` set DISPLAY_MODE_CLASSES = {''title'', ''authors'', ''full''}"
    by (simp add: DISPLAY_MODE_CLASSES_def)
  have bogus: "toLowerCase h (trim h ''bogus'') = ''bogus'' \<longrightarrow>
         normalizeDisplayMode h (JStr ''bogus'') = ''full''"
    by (simp add: normalizeDisplayMode_def modes)
  show ?thesis
    unfolding normalizeDisplayMode_def modes Let_def using bogus
    by (cases v) (auto simp: normalizeDisplayMode_def modes)
qed

theorem normalizeDisplayMode_total_witness:
  "normalizeDisplayMode exampleHost (JNum (Finite 3)) = ''full''
   \<and> normalizeDisplayMode exampleHost (JStr ''  Title '') = ''title''
   \<and> normalizeDisplayMode exampleHost (JStr ''compact'') = ''full''
   \<and> toLowerCase exampleHost (trim exampleHost ''bogus'') = ''bogus''
   \<and> normalizeDisplayMode exampleHost (JStr ''bogus'') = ''full''"
proof -
  have lower: "toLowerCase exampleHost (trim exampleHost ''  Title '') = ''title''"
    "toLowerCase exampleHost (trim exampleHost ''compact'') = ''compact''"
    "toLowerCase exampleHost (trim exampleHost ''bogus'') = ''bogus''"
    by code_simp+
  note num = normalizeDisplayMode_total [of exampleHost "JNum (Finite 3)",
      THEN conjunct2, THEN conjunct1, THEN mp]
  note str1 = normalizeDisplayMode_total [of exampleHost "JStr ''  Title ''",
      THEN conjunct2, THEN conjunct2, THEN conjunct1, THEN spec, THEN mp, OF refl]
  note str2 = normalizeDisplayMode_total [of exampleHost "JStr ''compact''",
      THEN conjunct2, THEN conjunct2, THEN conjunct1, THEN spec, THEN mp, OF refl]
  note bogus = normalizeDisplayMode_total [of exampleHost JNull,
      THEN conjunct2, THEN conjunct2, THEN conjunct2, THEN mp, OF lower(3)]
  have 1: "normalizeDisplayMode exampleHost (JNum (Finite 3)) = ''full''"
    by (rule num) simp
  have 2: "normalizeDisplayMode exampleHost (JStr ''  Title '') = ''title''"
    using str1 by (simp add: lower)
  have 3: "normalizeDisplayMode exampleHost (JStr ''compact'') = ''full''"
    using str2 by (simp add: lower)
  from 1 2 3 lower(3) bogus show ?thesis by (intro conjI)
qed

section \<open>Properties of the two filters\<close>

lemma lower_example: "toLowerCase exampleHost s = map lowerChar s"
  by (simp add: exampleHost_def)

lemma str_includes_sublist: "str_includes hay needle \<longleftrightarrow> sublist needle hay"
  by (induction hay) (auto simp: sublist_Cons_right)

lemma filterByFavoriteAuthors_filter:
  "filterByFavoriteAuthors h as favs =
     filter (\<lambda>a. \<exists>author \<in> set (authors a). \<exists>fav \<in> set favs.
               toLowerCase h fav \<noteq> [] \<and> sublist (toLowerCase h fav) (toLowerCase h author))
            as"
proof (cases "filter (\<lambda>s. s \<noteq> []) (map (toLowerCase h) favs) = []")
  case True
  then have "\<forall>x \<in> set favs. toLowerCase h x = []" by (auto simp: filter_empty_conv)
  then have "filter (\<lambda>a. \<exists>author \<in> set (authors a). \<exists>fav \<in> set favs.
                      toLowerCase h fav \<noteq> [] \<and> P author fav) as = []" for P
    by (auto simp: filter_empty_conv)
  with True show ?thesis by (simp add: filterByFavoriteAuthors_def)
next
  case False
  have body:
    "(let authorLower = map (toLowerCase h) (authors a)
      in list_ex (\<lambda>fav. list_ex (\<lambda>author. str_includes author fav) authorLower)
           (filter (\<lambda>name. name \<noteq> []) (map (toLowerCase h) favs)))
     = (\<exists>author \<in> set (authors a). \<exists>fav \<in> set favs.
          toLowerCase h fav \<noteq> [] \<and> sublist (toLowerCase h fav) (toLowerCase h author))" for a
    by (auto simp: list_ex_iff str_includes_sublist)
  show ?thesis
    unfolding filterByFavoriteAuthors_def Let_def if_not_P [OF False]
    by (rule filter_cong [OF refl]) (rule body [unfolded Let_def])
qed

lemma filterByKeywords_filter:
  "filterByKeywords h as kws =
     filter (\<lambda>a. \<exists>kw \<in> set kws. toLowerCase h kw \<noteq> [] \<and>
               (let tags = (case keywordTags a of Some ks \<Rightarrow> ks | None \<Rightarrow> [])
                in if tags \<noteq> [] then toLowerCase h kw \<in> set (map (toLowerCase h) tags)
                   else sublist (toLowerCase h kw) (toLowerCase h (title a @ '' '' @ abstract a))))
            as"
proof (cases "filter (\<lambda>s. s \<noteq> []) (map (toLowerCase h) kws) = []")
  case True
  then have "\<forall>x \<in> set kws. toLowerCase h x = []" by (auto simp: filter_empty_conv)
  then have "filter (\<lambda>a. \<exists>kw \<in> set kws. toLowerCase h kw \<noteq> [] \<and> P a kw) as = []" for P
    by (auto simp: filter_empty_conv)
  with True show ?thesis by (simp add: filterByKeywords_def)
next
  case False
  have tags: "(case keywordTags a of Some ks \<Rightarrow> map (toLowerCase h) ks | None \<Rightarrow> [])
              = map (toLowerCase h) (case keywordTags a of Some ks \<Rightarrow> ks | None \<Rightarrow> [])" for a
    by (simp split: option.splits)
  have body:
    "(let articleKeywords = (case keywordTags a of Some ks \<Rightarrow> map (toLowerCase h) ks | None \<Rightarrow> [])
      in if articleKeywords \<noteq> []
         then list_ex (\<lambda>needle. needle \<in> set articleKeywords)
                (filter (\<lambda>s. s \<noteq> []) (map (toLowerCase h) kws))
         else (let fallback = toLowerCase h (title a @ '' '' @ abstract a)
               in list_ex (\<lambda>needle. str_includes fallback needle)
                    (filter (\<lambda>s. s \<noteq> []) (map (toLowerCase h) kws))))
     = (\<exists>kw \<in> set kws. toLowerCase h kw \<noteq> [] \<and>
          (let tags = (case keywordTags a of Some ks \<Rightarrow> ks | None \<Rightarrow> [])
           in if tags \<noteq> [] then toLowerCase h kw \<in> set (map (toLowerCase h) tags)
              else sublist (toLowerCase h kw) (toLowerCase h (title a @ '' '' @ abstract a))))" for a
    unfolding tags Let_def
    by (auto simp: list_ex_iff str_includes_sublist)
  show ?thesis
    unfolding filterByKeywords_def Let_def if_not_P [OF False]
    by (rule filter_cong [OF refl]) (rule body [unfolded Let_def])
qed

lemma lowerKeepsText_example: "lowerKeepsText exampleHost"
  by (simp add: lowerKeepsText_def lower_example)

text \<open>
  C1, as the claim states it, fails on a favorite list with an empty entry: the empty
  string is contained in the name of every author, and \<open>filterByFavoriteAuthors\<close> drops
  empty entries before it matches, so it returns nothing.
\<close>

theorem filterByFavoriteAuthors_empty_entry:
  "filterByFavoriteAuthors exampleHost [paperMalik] [''''] = []
   \<and> authors paperMalik = [''Pulkit Agrawal'', ''Jitendra Malik'']
   \<and> sublist (toLowerCase exampleHost '''') (toLowerCase exampleHost ''Jitendra Malik'')"
  by (simp add: filterByFavoriteAuthors_def paperMalik_def lower_example)

text \<open>
  C1, amended. For every article collection and favorite list, \<open>filterByFavoriteAuthors\<close>
  returns the empty list when the favorite list is empty, returns a subset of the
  collection, and returns an article of the collection if and only if the lower-cased name
  of one of its authors contains, as a substring, the lower-cased form of an entry of the
  favorite list that is not empty once lower-cased: that is, of a non-empty entry, since
  lower-casing leaves a non-empty string non-empty.
\<close>

theorem filterByFavoriteAuthors_matches:
  "filterByFavoriteAuthors h as [] = []
   \<and> set (filterByFavoriteAuthors h as favs) \<subseteq> set as
   \<and> (\<forall>a \<in> set as.
         a \<in> set (filterByFavoriteAuthors h as favs) \<longleftrightarrow>
           (\<exists>author \<in> set (authors a). \<exists>fav \<in> set favs.
              toLowerCase h fav \<noteq> [] \<and> sublist (toLowerCase h fav) (toLowerCase h author)))
   \<and> (lowerKeepsText h \<longrightarrow>
        (\<forall>a \<in> set as.
           a \<in> set (filterByFavoriteAuthors h as favs) \<longleftrightarrow>
             (\<exists>author \<in> set (authors a). \<exists>fav \<in> set favs.
                fav \<noteq> [] \<and> sublist (toLowerCase h fav) (toLowerCase h author))))"
  by (auto simp: filterByFavoriteAuthors_filter lowerKeepsText_def)

theorem filterByFavoriteAuthors_matches_witness:
  "paperMalik \<in> set [paperMalik, paperDiffusion, paperTagged]
   \<and> lowerKeepsText exampleHost
   \<and> paperMalik \<in> set (filterByFavoriteAuthors exampleHost [paperMalik, paperDiffusion, paperTagged] [''malik''])
   \<and> paperTagged \<notin> set (filterByFavoriteAuthors exampleHost [paperMalik, paperDiffusion, paperTagged] [''malik''])"
proof -
  let ?as = "[paperMalik, paperDiffusion, paperTagged]"
  have m: "paperMalik \<in> set ?as" and t: "paperTagged \<in> set ?as" by simp_all
  have yes: "\<exists>author \<in> set (authors paperMalik). \<exists>fav \<in> set [''malik''].
               fav \<noteq> [] \<and> sublist (toLowerCase exampleHost fav) (toLowerCase exampleHost author)"
    by code_simp
  have no: "\<not> (\<exists>author \<in> set (authors paperTagged). \<exists>fav \<in> set [''malik''].
               fav \<noteq> [] \<and> sublist (toLowerCase exampleHost fav) (toLowerCase exampleHost author))"
    by code_simp
  note spec = filterByFavoriteAuthors_matches [of exampleHost ?as "[''malik'']",
      THEN conjunct2, THEN conjunct2, THEN conjunct2, THEN mp, OF lowerKeepsText_example]
  from spec [THEN bspec, OF m] yes
  have a: "paperMalik \<in> set (filterByFavoriteAuthors exampleHost ?as [''malik''])"
    by (rule iffD2)
  from spec [THEN bspec, OF t] no
  have b: "paperTagged \<notin> set (filterByFavoriteAuthors exampleHost ?as [''malik''])"
    by (simp only: simp_thms)
  from m lowerKeepsText_example a b show ?thesis by (intro conjI)
qed

text \<open>
  C2, as the claim states it, fails on the keyword list with the entries \<open>''''\<close> and
  \<open>''ab''\<close> and an untagged article with title \<open>a\<close> and abstract \<open>b\<close>: the empty entry
  is a substring of every text and \<open>ab\<close> is a substring of the concatenation \<open>ab\<close>, yet
  \<open>filterByKeywords\<close> returns nothing. It drops empty entries, and it searches the title
  and the abstract joined by a space.
\<close>

theorem filterByKeywords_empty_entry_and_space:
  "filterByKeywords exampleHost [paperShort] ['''', ''ab''] = []
   \<and> keywordTags paperShort = None
   \<and> sublist (toLowerCase exampleHost '''')
       (toLowerCase exampleHost (title paperShort @ abstract paperShort))
   \<and> sublist (toLowerCase exampleHost ''ab'')
       (toLowerCase exampleHost (title paperShort @ abstract paperShort))
   \<and> sublist (toLowerCase exampleHost '''')
       (toLowerCase exampleHost (title paperShort @ '' '' @ abstract paperShort))"
  by code_simp

text \<open>
  C2, amended. For every article collection and keyword list, \<open>filterByKeywords\<close> returns
  the empty list when the keyword list is empty and a subset of the collection always;
  an article with a non-empty list of keyword tags is returned if and only if the
  lower-cased form of an entry of the keyword list is not empty and is a member of its
  lower-cased tag list; an article without tags is returned if and only if the lower-cased
  form of an entry is not empty and is a substring of the lower-cased text made of its
  title, one space and its abstract. The entries that are not empty once lower-cased are
  the non-empty entries, since lower-casing leaves a non-empty string non-empty.
\<close>

theorem filterByKeywords_matches:
  "filterByKeywords h as [] = []
   \<and> set (filterByKeywords h as kws) \<subseteq> set as
   \<and> (\<forall>a \<in> set as. \<forall>tags. keywordTags a = Some tags \<and> tags \<noteq> [] \<longrightarrow>
        (a \<in> set (filterByKeywords h as kws) \<longleftrightarrow>
           (\<exists>kw \<in> set kws. toLowerCase h kw \<noteq> []
              \<and> toLowerCase h kw \<in> set (map (toLowerCase h) tags))))
   \<and> (\<forall>a \<in> set as. keywordTags a = None \<or> keywordTags a = Some [] \<longrightarrow>
        (a \<in> set (filterByKeywords h as kws) \<longleftrightarrow>
           (\<exists>kw \<in> set kws. toLowerCase h kw \<noteq> []
              \<and> sublist (toLowerCase h kw) (toLowerCase h (title a @ '' '' @ abstract a)))))
   \<and> (lowerKeepsText h \<longrightarrow>
        (\<forall>a \<in> set as. \<forall>tags. keywordTags a = Some tags \<and> tags \<noteq> [] \<longrightarrow>
           (a \<in> set (filterByKeywords h as kws) \<longleftrightarrow>
              (\<exists>kw \<in> set kws. kw \<noteq> []
                 \<and> toLowerCase h kw \<in> set (map (toLowerCase h) tags))))
        \<and> (\<forall>a \<in> set as. keywordTags a = None \<or> keywordTags a = Some [] \<longrightarrow>
           (a \<in> set (filterByKeywords h as kws) \<longleftrightarrow>
              (\<exists>kw \<in> set kws. kw \<noteq> []
                 \<and> sublist (toLowerCase h kw) (toLowerCase h (title a @ '' '' @ abstract a))))))"
proof -
  have empty: "filterByKeywords h as [] = []" by (simp add: filterByKeywords_def)
  have subset: "set (filterByKeywords h as kws) \<subseteq> set as" by (auto simp: filterByKeywords_filter)
  have tagged: "\<forall>a \<in> set as. \<forall>tags. keywordTags a = Some tags \<and> tags \<noteq> [] \<longrightarrow>
        (a \<in> set (filterByKeywords h as kws) \<longleftrightarrow>
           (\<exists>kw \<in> set kws. toLowerCase h kw \<noteq> []
              \<and> toLowerCase h kw \<in> set (map (toLowerCase h) tags)))"
    by (simp add: filterByKeywords_filter)
  have untagged: "\<forall>a \<in> set as. keywordTags a = None \<or> keywordTags a = Some [] \<longrightarrow>
        (a \<in> set (filterByKeywords h as kws) \<longleftrightarrow>
           (\<exists>kw \<in> set kws. toLowerCase h kw \<noteq> []
              \<and> sublist (toLowerCase h kw) (toLowerCase h (title a @ '' '' @ abstract a))))"
    by (auto simp: filterByKeywords_filter)
  have keeps: "lowerKeepsText h \<longrightarrow>
        (\<forall>a \<in> set as. \<forall>tags. keywordTags a = Some tags \<and> tags \<noteq> [] \<longrightarrow>
           (a \<in> set (filterByKeywords h as kws) \<longleftrightarrow>
              (\<exists>kw \<in> set kws. kw \<noteq> []
                 \<and> toLowerCase h kw \<in> set (map (toLowerCase h) tags))))
        \<and> (\<forall>a \<in> set as. keywordTags a = None \<or> keywordTags a = Some [] \<longrightarrow>
           (a \<in> set (filterByKeywords h as kws) \<longleftrightarrow>
              (\<exists>kw \<in> set kws. kw \<noteq> []
                 \<and> sublist (toLowerCase h kw) (toLowerCase h (title a @ '' '' @ abstract a)))))"
  proof
    assume "lowerKeepsText h"
    then have k: "(toLowerCase h kw \<noteq> []) = (kw \<noteq> [])" for kw
      by (simp add: lowerKeepsText_def)
    from tagged untagged show "(\<forall>a \<in> set as. \<forall>tags. keywordTags a = Some tags \<and> tags \<noteq> [] \<longrightarrow>
           (a \<in> set (filterByKeywords h as kws) \<longleftrightarrow>
              (\<exists>kw \<in> set kws. kw \<noteq> []
                 \<and> toLowerCase h kw \<in> set (map (toLowerCase h) tags))))
        \<and> (\<forall>a \<in> set as. keywordTags a = None \<or> keywordTags a = Some [] \<longrightarrow>
           (a \<in> set (filterByKeywords h as kws) \<longleftrightarrow>
              (\<exists>kw \<in> set kws. kw \<noteq> []
                 \<and> sublist (toLowerCase h kw) (toLowerCase h (title a @ '' '' @ abstract a)))))"
      unfolding k by (rule conjI)
  qed
  from empty subset tagged untagged keeps show ?thesis by (intro conjI)
qed

theorem filterByKeywords_matches_witness:
  "paperDiffusion \<in> set (filterByKeywords exampleHost [paperMalik, paperDiffusion, paperTagged] [''diffusion''])
   \<and> paperTagged \<notin> set (filterByKeywords exampleHost [paperMalik, paperDiffusion, paperTagged] [''diffusion''])
   \<and> paperTagged \<in> set (filterByKeywords exampleHost [paperMalik, paperDiffusion, paperTagged] [''TRANSFORMERS''])
   \<and> lowerKeepsText exampleHost"
proof -
  let ?as = "[paperMalik, paperDiffusion, paperTagged]"
  let ?tags = "[''Transformers'', ''Image Synthesis'']"
  have d1: "paperDiffusion \<in> set ?as" by simp
  have d2: "keywordTags paperDiffusion = None \<or> keywordTags paperDiffusion = Some []"
    by (simp add: paperDiffusion_def)
  have t1: "paperTagged \<in> set ?as" by simp
  have t2: "keywordTags paperTagged = Some ?tags \<and> ?tags \<noteq> []"
    by (simp add: paperTagged_def)
  have yes: "\<exists>kw \<in> set [''diffusion'']. kw \<noteq> [] \<and>
               sublist (toLowerCase exampleHost kw)
                 (toLowerCase exampleHost (title paperDiffusion @ '' '' @ abstract paperDiffusion))"
    by code_simp
  have no: "\<not> (\<exists>kw \<in> set [''diffusion'']. toLowerCase exampleHost kw \<noteq> [] \<and>
               toLowerCase exampleHost kw \<in> set (map (toLowerCase exampleHost) ?tags))"
    by code_simp
  have tag: "\<exists>kw \<in> set [''TRANSFORMERS'']. toLowerCase exampleHost kw \<noteq> [] \<and>
               toLowerCase exampleHost kw \<in> set (map (toLowerCase exampleHost) ?tags)"
    by code_simp
  note untagged = filterByKeywords_matches [of exampleHost ?as "[''diffusion'']",
      THEN conjunct2, THEN conjunct2, THEN conjunct2, THEN conjunct2, THEN mp,
      OF lowerKeepsText_example, THEN conjunct2, THEN bspec, OF d1, THEN mp, OF d2]
  note tagged1 = filterByKeywords_matches [of exampleHost ?as "[''diffusion'']",
      THEN conjunct2, THEN conjunct2, THEN conjunct1, THEN bspec, OF t1, THEN spec, THEN mp, OF t2]
  note tagged2 = filterByKeywords_matches [of exampleHost ?as "[''TRANSFORMERS'']",
      THEN conjunct2, THEN conjunct2, THEN conjunct1, THEN bspec, OF t1, THEN spec, THEN mp, OF t2]
  from untagged yes have a: "paperDiffusion \<in> set (filterByKeywords exampleHost ?as [''diffusion''])"
    by (rule iffD2)
  from tagged1 no have b: "paperTagged \<notin> set (filterByKeywords exampleHost ?as [''diffusion''])"
    by (simp only: simp_thms)
  from tagged2 tag have c: "paperTagged \<in> set (filterByKeywords exampleHost ?as [''TRANSFORMERS''])"
    by (rule iffD2)
  from a b c lowerKeepsText_example show ?thesis by (intro conjI)
qed

section \<open>Properties of the grouping\<close>

lemma mapHas_map_of: "mapHas m k \<longleftrightarrow> map_of m k \<noteq> None"
  by (simp add: mapHas_def map_of_eq_None_iff)

lemma map_of_mapSet_same: "map_of (mapSet m k v) k = Some v"
  by (induction m) auto

lemma sum_mapSet:
  fixes f :: "'v \<Rightarrow> 'b :: comm_monoid_add"
  shows "sum_list (map (\<lambda>p. f (snd p)) (mapSet m k v))
           + (case map_of m k of None \<Rightarrow> 0 | Some old \<Rightarrow> f old)
         = sum_list (map (\<lambda>p. f (snd p)) m) + f v"
  by (induction m) (auto simp: ac_simps)

lemma bucketItems_push:
  "bucketItems (mapSet (if \<not> mapHas sm k then mapSet sm k [] else sm) k
      ((case map_of (if \<not> mapHas sm k then mapSet sm k [] else sm) k of
          Some xs \<Rightarrow> xs | None \<Rightarrow> []) @ [a]))
   = add_mset a (bucketItems sm)"
proof (cases "map_of sm k")
  case None
  then have nh: "\<not> mapHas sm k" by (simp add: mapHas_map_of)
  from sum_mapSet [of mset sm k "[]"] None
  have 1: "bucketItems (mapSet sm k []) = bucketItems sm" by (simp add: bucketItems_def)
  from sum_mapSet [of mset "mapSet sm k []" k "[a]"]
  have "bucketItems (mapSet (mapSet sm k []) k [a]) = add_mset a (bucketItems (mapSet sm k []))"
    by (simp add: bucketItems_def map_of_mapSet_same)
  with 1 nh show ?thesis by (simp add: map_of_mapSet_same)
next
  case (Some xs)
  then have h: "mapHas sm k" by (simp add: mapHas_map_of)
  from sum_mapSet [of mset sm k "xs @ [a]"] Some
  have "bucketItems (mapSet sm k (xs @ [a])) = add_mset a (bucketItems sm)"
    by (simp add: bucketItems_def)
  with h Some show ?thesis by simp
qed

lemma groupingItems_addArticle: "groupingItems (addArticle m a) = add_mset a (groupingItems m)"
proof -
  define k where "k = orDefault (section_type a) ''Other''"
  define sk where "sk = orDefault (primary_subject a) ''Other''"
  define m1 where "m1 = (if \<not> mapHas m k then mapSet m k [] else m)"
  define sm where "sm = (case map_of m1 k of Some s \<Rightarrow> s | None \<Rightarrow> [])"
  define sm' where "sm' = mapSet (if \<not> mapHas sm sk then mapSet sm sk [] else sm) sk
      ((case map_of (if \<not> mapHas sm sk then mapSet sm sk [] else sm) sk of
          Some xs \<Rightarrow> xs | None \<Rightarrow> []) @ [a])"
  have res: "addArticle m a = mapSet m1 k sm'"
    by (simp add: addArticle_def Let_def k_def sk_def m1_def sm_def sm'_def)
  have inner: "bucketItems sm' = add_mset a (bucketItems sm)"
    unfolding sm'_def by (rule bucketItems_push)
  have m1_total: "groupingItems m1 = groupingItems m"
  proof (cases "mapHas m k")
    case True then show ?thesis by (simp add: m1_def)
  next
    case False
    then have "map_of m k = None" by (simp add: mapHas_map_of)
    with sum_mapSet [of bucketItems m k "[]"] False show ?thesis
      by (simp add: m1_def groupingItems_def bucketItems_def)
  qed
  have look: "map_of m1 k = Some sm"
  proof (cases "mapHas m k")
    case True
    then show ?thesis by (auto simp: m1_def sm_def mapHas_map_of)
  next
    case False then show ?thesis by (simp add: m1_def sm_def map_of_mapSet_same)
  qed
  from sum_mapSet [of bucketItems m1 k sm'] look
  have "groupingItems (mapSet m1 k sm') + bucketItems sm = groupingItems m1 + bucketItems sm'"
    by (simp add: groupingItems_def)
  with inner m1_total res show ?thesis by simp
qed

lemma groupingItems_foldl: "groupingItems (foldl addArticle m as) = groupingItems m + mset as"
  by (induction as arbitrary: m) (simp_all add: groupingItems_addArticle)

lemma sum_insertBy:
  fixes f :: "'a \<Rightarrow> 'b :: comm_monoid_add"
  shows "sum_list (map f (insertBy cmp x ys)) = f x + sum_list (map f ys)"
  by (induction ys) (auto simp: ac_simps)

lemma sum_foldl_insertBy:
  fixes f :: "'a \<Rightarrow> 'b :: comm_monoid_add"
  shows "sum_list (map f (foldl (\<lambda>sorted x. insertBy cmp x sorted) acc xs))
         = sum_list (map f acc) + sum_list (map f xs)"
  by (induction xs arbitrary: acc) (simp_all add: sum_insertBy ac_simps)

lemma sum_sortBy:
  fixes f :: "'a \<Rightarrow> 'b :: comm_monoid_add"
  shows "sum_list (map f (sortBy cmp xs)) = sum_list (map f xs)"
  by (simp add: sortBy_def sum_foldl_insertBy)

lemma foldl_add: "foldl (\<lambda>sum entry. sum + f entry) n xs = n + (sum_list (map f xs) :: nat)"
  by (induction xs arbitrary: n) simp_all

lemma count_makeSection:
  "count (makeSection h entry)
   = sum_list (map (\<lambda>g. length (items g)) (subjects (makeSection h entry)))"
  by (simp add: makeSection_def Let_def foldl_add)

lemma items_makeSection:
  "sum_list (map (\<lambda>s. mset (items s)) (subjects (makeSection h entry))) = bucketItems (snd entry)"
proof -
  have "sum_list (map (\<lambda>s. mset (items s)) (subjects (makeSection h entry)))
        = sum_list (map (\<lambda>p. mset (snd p)) (sortBy (byKey h) (snd entry)))"
    by (simp add: makeSection_def Let_def comp_def case_prod_unfold)
  then show ?thesis by (simp add: sum_sortBy bucketItems_def)
qed

lemma items_buildSectionGrouping:
  "mset (concat (map (\<lambda>g. concat (map items (subjects g))) (buildSectionGrouping h as))) = mset as"
proof -
  have "mset (concat (map (\<lambda>g. concat (map items (subjects g))) (buildSectionGrouping h as)))
        = sum_list (map (\<lambda>p. bucketItems (snd p)) (sortBy (byKey h) (foldl addArticle [] as)))"
    by (simp add: buildSectionGrouping_def mset_concat comp_def items_makeSection)
  also have "\<dots> = groupingItems (foldl addArticle [] as)"
    by (simp add: sum_sortBy groupingItems_def)
  also have "\<dots> = mset as"
    using groupingItems_foldl [of "[]" as] by (simp add: groupingItems_def)
  finally show ?thesis .
qed

lemma length_concat_items:
  "length (concat (map items ss)) = sum_list (map (\<lambda>s. length (items s)) ss)"
  by (simp add: length_concat comp_def)


lemma set_mapSet: "set (mapSet m k v) \<subseteq> insert (k, v) (set m)"
  by (induction m) (auto split: if_splits)

lemma bucketsKeyed_mapSet:
  "bucketsKeyed k sm \<Longrightarrow> (\<forall>a \<in> set xs. keyed k sk a) \<Longrightarrow> bucketsKeyed k (mapSet sm sk xs)"
  using set_mapSet [of sm sk xs] by (fastforce simp: bucketsKeyed_def)

lemma groupingKeyed_mapSet:
  "groupingKeyed m \<Longrightarrow> bucketsKeyed k sm \<Longrightarrow> groupingKeyed (mapSet m k sm)"
  using set_mapSet [of m k sm] by (fastforce simp: groupingKeyed_def)

lemma bucketsKeyed_lookup:
  assumes "bucketsKeyed k sm"
  shows "\<forall>a \<in> set (case map_of sm sk of Some xs \<Rightarrow> xs | None \<Rightarrow> []). keyed k sk a"
proof (cases "map_of sm sk")
  case None
  then show ?thesis by simp
next
  case (Some xs)
  then have "(sk, xs) \<in> set sm" by (rule map_of_SomeD)
  with assms Some show ?thesis by (auto simp: bucketsKeyed_def)
qed

lemma groupingKeyed_lookup:
  assumes "groupingKeyed m"
  shows "bucketsKeyed k (case map_of m k of Some sm \<Rightarrow> sm | None \<Rightarrow> [])"
proof (cases "map_of m k")
  case None
  then show ?thesis by (simp add: bucketsKeyed_def)
next
  case (Some sm)
  then have "(k, sm) \<in> set m" by (rule map_of_SomeD)
  with assms Some show ?thesis by (auto simp: groupingKeyed_def)
qed

lemma groupingKeyed_addArticle: "groupingKeyed m \<Longrightarrow> groupingKeyed (addArticle m a)"
proof -
  assume inv: "groupingKeyed m"
  define k where "k = orDefault (section_type a) ''Other''"
  define sk where "sk = orDefault (primary_subject a) ''Other''"
  define m1 where "m1 = (if \<not> mapHas m k then mapSet m k [] else m)"
  define sm where "sm = (case map_of m1 k of Some s \<Rightarrow> s | None \<Rightarrow> [])"
  define sm1 where "sm1 = (if \<not> mapHas sm sk then mapSet sm sk [] else sm)"
  define bucket where "bucket = (case map_of sm1 sk of Some xs \<Rightarrow> xs | None \<Rightarrow> [])"
  have res: "addArticle m a = mapSet m1 k (mapSet sm1 sk (bucket @ [a]))"
    by (simp add: addArticle_def Let_def k_def sk_def m1_def sm_def sm1_def bucket_def)
  have a: "keyed k sk a" by (simp add: keyed_def k_def sk_def)
  have m1: "groupingKeyed m1"
    using inv by (simp add: m1_def groupingKeyed_mapSet bucketsKeyed_def)
  then have sm: "bucketsKeyed k sm" unfolding sm_def by (rule groupingKeyed_lookup)
  then have sm1: "bucketsKeyed k sm1" by (simp add: sm1_def bucketsKeyed_mapSet)
  then have "\<forall>x \<in> set bucket. keyed k sk x" unfolding bucket_def by (rule bucketsKeyed_lookup)
  with a have "\<forall>x \<in> set (bucket @ [a]). keyed k sk x" by simp
  with sm1 have "bucketsKeyed k (mapSet sm1 sk (bucket @ [a]))" by (rule bucketsKeyed_mapSet)
  with m1 show ?thesis unfolding res by (rule groupingKeyed_mapSet)
qed

lemma groupingKeyed_foldl: "groupingKeyed m \<Longrightarrow> groupingKeyed (foldl addArticle m as)"
  by (induction as arbitrary: m) (simp_all add: groupingKeyed_addArticle)

lemma set_insertBy: "set (insertBy cmp x ys) = insert x (set ys)"
  by (induction ys) auto

lemma set_foldl_insertBy:
  "set (foldl (\<lambda>sorted x. insertBy cmp x sorted) acc xs) = set acc \<union> set xs"
  by (induction xs arbitrary: acc) (simp_all add: set_insertBy)

lemma set_sortBy: "set (sortBy cmp xs) = set xs"
  by (simp add: sortBy_def set_foldl_insertBy)

lemma labels_buildSectionGrouping:
  assumes "g \<in> set (buildSectionGrouping h as)" "s \<in> set (subjects g)" "a \<in> set (items s)"
  shows "orDefault (section_type a) ''Other'' = sectionLabel g
         \<and> orDefault (primary_subject a) ''Other'' = subjectLabel s"
proof -
  have inv: "groupingKeyed (foldl addArticle [] as)"
    by (rule groupingKeyed_foldl) (simp add: groupingKeyed_def)
  from assms(1) obtain k sm where e: "(k, sm) \<in> set (foldl addArticle [] as)"
    and g: "g = makeSection h (k, sm)"
    by (auto simp: buildSectionGrouping_def set_sortBy)
  from inv e have bk: "bucketsKeyed k sm" by (auto simp: groupingKeyed_def)
  from assms(2) g obtain sk xs where p: "(sk, xs) \<in> set sm" and s: "subjectLabel s = sk" "items s = xs"
    by (auto simp: makeSection_def Let_def set_sortBy)
  from bk p assms(3) s have "keyed k sk a" by (auto simp: bucketsKeyed_def)
  moreover have "sectionLabel g = k" by (simp add: g makeSection_def Let_def)
  ultimately show ?thesis using s by (simp add: keyed_def)
qed

text \<open>
  C3. In the result of \<open>buildSectionGrouping\<close>, the item counts of the subject groups of
  each section add up to the count of the section, and the counts of the sections add up to
  the number of articles: the items of all the groups are the articles, each one once, and
  each article is in the group of its section and subject, \<open>Other\<close> standing for a
  missing one.
\<close>

theorem buildSectionGrouping_totals:
  "(\<forall>g \<in> set (buildSectionGrouping h as).
      sum_list (map (\<lambda>s. length (items s)) (subjects g)) = count g)
   \<and> sum_list (map count (buildSectionGrouping h as)) = length as
   \<and> mset (concat (map (\<lambda>g. concat (map items (subjects g))) (buildSectionGrouping h as)))
       = mset as
   \<and> (\<forall>g \<in> set (buildSectionGrouping h as). \<forall>s \<in> set (subjects g). \<forall>a \<in> set (items s).
         orDefault (section_type a) ''Other'' = sectionLabel g
         \<and> orDefault (primary_subject a) ''Other'' = subjectLabel s)"
proof -
  let ?G = "buildSectionGrouping h as"
  have each: "\<forall>g \<in> set ?G. sum_list (map (\<lambda>s. length (items s)) (subjects g)) = count g"
    by (auto simp: buildSectionGrouping_def count_makeSection)
  have "sum_list (map count ?G)
        = sum_list (map (\<lambda>g. length (concat (map items (subjects g)))) ?G)"
    using each by (intro arg_cong [where f = sum_list] map_cong refl) (simp add: length_concat_items)
  also have "\<dots> = length (concat (map (\<lambda>g. concat (map items (subjects g))) ?G))"
    by (simp add: length_concat comp_def)
  also have "\<dots> = length as"
    using items_buildSectionGrouping [of h as, THEN arg_cong, of size] by simp
  finally have total: "sum_list (map count ?G) = length as" .
  from each total items_buildSectionGrouping [of h as] labels_buildSectionGrouping [of _ h as]
  show ?thesis by blast
qed

theorem buildSectionGrouping_totals_witness:
  "map sectionLabel
     (buildSectionGrouping exampleHost [paperMalik, paperDiffusion, paperTagged, paperShort])
     = [''New submissions'', ''Other'']
   \<and> map count
       (buildSectionGrouping exampleHost [paperMalik, paperDiffusion, paperTagged, paperShort])
     = [2, 2]
   \<and> sum_list (map count
       (buildSectionGrouping exampleHost [paperMalik, paperDiffusion, paperTagged, paperShort]))
     = length [paperMalik, paperDiffusion, paperTagged, paperShort]"
proof -
  let ?G = "buildSectionGrouping exampleHost [paperMalik, paperDiffusion, paperTagged, paperShort]"
  have labels: "map sectionLabel ?G = [''New submissions'', ''Other'']"
    by code_simp
  have counts: "map count ?G = [2, 2]"
    by code_simp
  note buildSectionGrouping_totals
         [of exampleHost "[paperMalik, paperDiffusion, paperTagged, paperShort]",
          THEN conjunct2, THEN conjunct1]
  with labels counts show ?thesis by (intro conjI)
qed

section \<open>Properties of the normalization of preferences\<close>

lemma mapE_andThen_pure:
  "mapE (\<lambda>x. andThen (g x) (\<lambda>s. Inr (f s))) xs = andThen (mapE g xs) (\<lambda>ss. Inr (map f ss))"
  by (induction xs) (auto simp: andThen_def split: sum.splits)

lemma mapE_map: "mapE f (map g xs) = mapE (\<lambda>x. f (g x)) xs"
  by (induction xs) (auto split: sum.splits)

lemma uniqueInOrder_set: "set (uniqueInOrder seen xs) = set seen \<union> set xs"
  by (induction xs arbitrary: seen) auto

lemma uniqueInOrder_distinct: "distinct seen \<Longrightarrow> distinct (uniqueInOrder seen xs)"
  by (induction xs arbitrary: seen) auto

lemma uniqueInOrder_id: "distinct (seen @ xs) \<Longrightarrow> uniqueInOrder seen xs = seen @ xs"
  by (induction xs arbitrary: seen) auto

lemma cleanList_unique_trimmed:
  "trimSettles h \<Longrightarrow> cleanList h (uniqueInOrder [] (filter (\<lambda>item. item \<noteq> []) (map (trim h) xs)))"
  by (auto simp: cleanList_def uniqueInOrder_distinct uniqueInOrder_set trimSettles_def)

lemma normalizeList_returns: "(\<exists>ys. normalizeList h v = Inr ys) \<longleftrightarrow> printableItems v"
proof (cases v)
  case (JArr xs)
  have "(\<exists>ys. normalizeList h v = Inr ys) \<longleftrightarrow> (\<exists>ss. mapE (toStr h) xs = Inr ss)"
    by (auto simp: JArr normalizeList_def mapE_andThen_pure andThen_eq_Inr)
  also have "\<dots> \<longleftrightarrow> (\<forall>x \<in> set xs. printable x)"
    by (simp add: mapE_returns toStr_returns(1))
  finally show ?thesis by (simp add: JArr printableItems_def)
qed (simp_all add: normalizeList_def printableItems_def)

lemma normalizeList_error: "normalizeList h v = Inl e \<Longrightarrow> e = TypeError"
proof (cases v)
  case (JArr xs)
  assume "normalizeList h v = Inl e"
  then have "mapE (toStr h) xs = Inl e"
    by (auto simp: JArr normalizeList_def mapE_andThen_pure andThen_eq_Inl)
  then obtain x where "toStr h x = Inl e" by (auto dest: mapE_error)
  then show ?thesis by (rule toStr_error(1))
qed (simp_all add: normalizeList_def)

lemma normalizeList_clean:
  assumes "trimSettles h" "normalizeList h v = Inr ys"
  shows "cleanList h ys"
proof (cases v)
  case (JArr xs)
  with assms(2) obtain ss where "ys = uniqueInOrder [] (filter (\<lambda>item. item \<noteq> []) (map (trim h) ss))"
    by (auto simp: normalizeList_def mapE_andThen_pure andThen_eq_Inr)
  with assms(1) show ?thesis by (simp add: cleanList_unique_trimmed)
next
  case (JStr s)
  with assms show ?thesis by (auto simp: normalizeList_def cleanList_unique_trimmed)
qed (use assms(2) in \<open>auto simp: normalizeList_def cleanList_def\<close>)

lemma normalizeList_fixed:
  assumes "cleanList h xs"
  shows "normalizeList h (JArr (map JStr xs)) = Inr xs"
proof -
  from assms have "map (trim h) xs = xs" by (simp add: cleanList_def map_idI)
  moreover from assms have "filter (\<lambda>item. item \<noteq> []) xs = xs" by (simp add: cleanList_def)
  moreover from assms have "uniqueInOrder [] xs = xs" by (simp add: cleanList_def uniqueInOrder_id)
  ultimately show ?thesis by (simp add: normalizeList_def mapE_map mapE_pure)
qed

lemma normalizePreferences_fixed:
  "cleanList h (favorite_authors p) \<Longrightarrow> cleanList h (pref_keywords p) \<Longrightarrow>
   normalizePreferences h (preferencesValue p) = Inr p"
  by (simp add: normalizePreferences_def preferencesValue_def getProp_def normalizeList_fixed)

lemma normalizePreferences_clean:
  assumes "trimSettles h" "normalizePreferences h x = Inr p"
  shows "cleanList h (favorite_authors p) \<and> cleanList h (pref_keywords p)"
proof -
  from assms(2) obtain fs ks where "normalizeList h (getProp x ''favorite_authors'') = Inr fs"
    "normalizeList h (getProp x ''keywords'') = Inr ks"
    "p = \<lparr> favorite_authors = fs, pref_keywords = ks \<rparr>"
    by (cases x) (auto simp: normalizePreferences_def andThen_eq_Inr)
  with assms(1) show ?thesis by (auto intro: normalizeList_clean)
qed

lemma normalizePreferences_returns:
  "(\<exists>p. normalizePreferences h x = Inr p) \<longleftrightarrow>
     x \<noteq> JNull \<and> x \<noteq> JUndefined
     \<and> printableItems (getProp x ''favorite_authors'') \<and> printableItems (getProp x ''keywords'')"
  using normalizeList_returns [of h "getProp x ''favorite_authors''"]
        normalizeList_returns [of h "getProp x ''keywords''"]
  by (cases x) (auto simp: normalizePreferences_def andThen_eq_Inr)

lemma normalizePreferences_error: "normalizePreferences h x = Inl e \<Longrightarrow> e = TypeError"
  by (cases x) (auto simp: normalizePreferences_def andThen_eq_Inl dest: normalizeList_error)

lemma normalizePreferences_typed: "\<exists>q. normalizePreferences h (preferencesValue p) = Inr q"
  by (simp add: normalizePreferences_returns)
     (simp add: preferencesValue_def getProp_def printableItems_def)

lemma trimSpaces_ends:
  "trimSpaces s = [] \<or> (\<not> isSpace (hd (trimSpaces s)) \<and> \<not> isSpace (last (trimSpaces s)))"
proof (cases "trimSpaces s = []")
  case True then show ?thesis by simp
next
  case False
  define u where "u = dropWhile isSpace s"
  define w where "w = dropWhile isSpace (rev u)"
  have t: "trimSpaces s = rev w" by (simp add: trimSpaces_def u_def w_def)
  with False have w: "w \<noteq> []" by simp
  then have ru: "rev u \<noteq> []" by (auto simp: w_def)
  then have u: "u \<noteq> []" by simp
  have 1: "\<not> isSpace (hd w)" using w unfolding w_def by (rule hd_dropWhile)
  from w have "hd w \<in> set w" by simp
  then have "hd w \<in> set (rev u)" unfolding w_def by (rule set_dropWhileD)
  from this 1 have "last w = last (rev u)" unfolding w_def by (rule dropWhile_last)
  also have "\<dots> = hd u" using u by (simp add: last_rev)
  finally have 2: "\<not> isSpace (last w)" using u hd_dropWhile [of isSpace s] by (simp add: u_def)
  from w 1 2 show ?thesis by (simp add: t hd_rev last_rev)
qed

lemma trimSpaces_fixed:
  "t = [] \<or> (\<not> isSpace (hd t) \<and> \<not> isSpace (last t)) \<Longrightarrow> trimSpaces t = t"
proof (cases "t = []")
  case True then show ?thesis by (simp add: trimSpaces_def)
next
  case False
  assume "t = [] \<or> (\<not> isSpace (hd t) \<and> \<not> isSpace (last t))"
  with False have h: "\<not> isSpace (hd t)" and l: "\<not> isSpace (last t)" by simp_all
  from h have 1: "dropWhile isSpace t = t" by (simp add: dropWhile_eq_self_iff)
  from l False have 2: "dropWhile isSpace (rev t) = rev t"
    by (simp add: dropWhile_eq_self_iff hd_rev)
  show ?thesis by (simp add: trimSpaces_def 1 2)
qed

lemma trim_example: "trim exampleHost s = trimSpaces s"
  by (simp add: exampleHost_def)

lemma trimSettles_example: "trimSettles exampleHost"
proof -
  have "trimSpaces (trimSpaces s) = trimSpaces s" for s
    by (rule trimSpaces_fixed) (rule trimSpaces_ends)
  moreover have "trimSpaces [] = []" by (simp add: trimSpaces_def)
  ultimately show ?thesis by (simp add: trimSettles_def trim_example)
qed

text \<open>
  C4, as the claim states it, fails on the inputs on which \<open>normalizePreferences\<close>
  returns nothing: on a list that holds an object with an own property \<^verbatim>\<open>toString\<close>
  (a malformed list, as \<^verbatim>\<open>JSON.parse('{"favorite_authors":[{"toString":1}]}')\<close>), where
  \<^verbatim>\<open>String(item)\<close> throws a \<^verbatim>\<open>TypeError\<close>, and on \<^verbatim>\<open>null\<close>, where reading the
  property throws one. There is then no result to serialize and normalize again.
\<close>

theorem normalizePreferences_throws:
  "normalizePreferences exampleHost
     (JObj [(''favorite_authors'', JArr [JObj [(''toString'', JNum (Finite 1))]])])
     = Inl TypeError
   \<and> normalizePreferences exampleHost JNull = Inl TypeError"
  by (simp add: normalizePreferences_def getProp_def normalizeList_def)

text \<open>
  C4, amended. \<open>normalizePreferences\<close> returns a value on every input but \<^verbatim>\<open>null\<close>,
  \<^verbatim>\<open>undefined\<close> and a value whose \<^verbatim>\<open>favorite_authors\<close> or \<^verbatim>\<open>keywords\<close> is an array
  holding an item that cannot be printed; on those it throws a \<^verbatim>\<open>TypeError\<close>. Whenever
  it returns, whatever shape the input has, normalizing the saved form of the result gives
  the result again; so a load that reads a saved result back returns it.
\<close>

theorem normalizePreferences_idempotent:
  "((\<exists>p. normalizePreferences h x = Inr p) \<longleftrightarrow>
       x \<noteq> JNull \<and> x \<noteq> JUndefined
       \<and> printableItems (getProp x ''favorite_authors'') \<and> printableItems (getProp x ''keywords''))
   \<and> (\<forall>e. normalizePreferences h x = Inl e \<longrightarrow> e = TypeError)
   \<and> (trimSettles h \<longrightarrow>
        (\<forall>p. normalizePreferences h x = Inr p \<longrightarrow>
           normalizePreferences h (preferencesValue p) = Inr p))
   \<and> (trimSettles h \<longrightarrow>
        (\<forall>p raw kvs initialPreferences.
           normalizePreferences h x = Inr p
           \<and> map_of kvs PREF_STORAGE_KEY = Some raw \<and> raw \<noteq> []
           \<and> jsonParse h raw = Some (preferencesValue p) \<longrightarrow>
           loadStoredPreferences h (Stored kvs) initialPreferences = Inr p))"
proof -
  have err: "\<forall>e. normalizePreferences h x = Inl e \<longrightarrow> e = TypeError"
    using normalizePreferences_error by blast
  have idem: "normalizePreferences h (preferencesValue p) = Inr p"
    if "trimSettles h" "normalizePreferences h x = Inr p" for p
    using normalizePreferences_clean [OF that] by (simp add: normalizePreferences_fixed)
  have load: "loadStoredPreferences h (Stored kvs) initialPreferences = Inr p"
    if "trimSettles h" "normalizePreferences h x = Inr p"
       "map_of kvs PREF_STORAGE_KEY = Some raw" "raw \<noteq> []"
       "jsonParse h raw = Some (preferencesValue p)" for p raw kvs initialPreferences
    using that idem [OF that(1,2)] by (simp add: loadStoredPreferences_def getItem_def Let_def)
  have i: "trimSettles h \<longrightarrow>
        (\<forall>p. normalizePreferences h x = Inr p \<longrightarrow>
           normalizePreferences h (preferencesValue p) = Inr p)"
    using idem by blast
  have l: "trimSettles h \<longrightarrow>
        (\<forall>p raw kvs initialPreferences.
           normalizePreferences h x = Inr p
           \<and> map_of kvs PREF_STORAGE_KEY = Some raw \<and> raw \<noteq> []
           \<and> jsonParse h raw = Some (preferencesValue p) \<longrightarrow>
           loadStoredPreferences h (Stored kvs) initialPreferences = Inr p)"
    using load by blast
  from normalizePreferences_returns [of h x] err i l show ?thesis by (intro conjI)
qed

theorem normalizePreferences_idempotent_witness:
  "trimSettles exampleHost
   \<and> normalizePreferences exampleHost
     (JObj [(''favorite_authors'', JStr ''Malik, He,Malik,,''),
            (''keywords'', JArr [JStr '' diffusion '', JNum (Finite 3), JStr '''', JStr ''diffusion''])])
     = Inr \<lparr> favorite_authors = [''Malik'', ''He''], pref_keywords = [''diffusion'', ''3''] \<rparr>
   \<and> normalizePreferences exampleHost
       (preferencesValue \<lparr> favorite_authors = [''Malik'', ''He''], pref_keywords = [''diffusion'', ''3''] \<rparr>)
     = Inr \<lparr> favorite_authors = [''Malik'', ''He''], pref_keywords = [''diffusion'', ''3''] \<rparr>
   \<and> loadStoredPreferences exampleHost
       (Stored [(PREF_STORAGE_KEY,
                 ''{\"favorite_authors\":[\"Malik\",\"He\"],\"keywords\":[\"diffusion\",\"3\"]}'')])
       \<lparr> favorite_authors = [], pref_keywords = [] \<rparr>
     = Inr \<lparr> favorite_authors = [''Malik'', ''He''], pref_keywords = [''diffusion'', ''3''] \<rparr>"
proof -
  let ?x = "JObj [(''favorite_authors'', JStr ''Malik, He,Malik,,''),
            (''keywords'', JArr [JStr '' diffusion '', JNum (Finite 3), JStr '''', JStr ''diffusion''])]"
  let ?p = "\<lparr> favorite_authors = [''Malik'', ''He''], pref_keywords = [''diffusion'', ''3''] \<rparr>"
  let ?raw = "''{\"favorite_authors\":[\"Malik\",\"He\"],\"keywords\":[\"diffusion\",\"3\"]}''"
  have ev: "normalizePreferences exampleHost ?x = Inr ?p"
    by code_simp
  have stored: "map_of [(PREF_STORAGE_KEY, ?raw)] PREF_STORAGE_KEY = Some ?raw" "?raw \<noteq> []"
    by simp_all
  have parse: "jsonParse exampleHost ?raw = Some (preferencesValue ?p)"
    by (simp add: exampleHost_def preferencesValue_def)
  note again = normalizePreferences_idempotent [of exampleHost ?x,
      THEN conjunct2, THEN conjunct2, THEN conjunct1, THEN mp, OF trimSettles_example,
      THEN spec, THEN mp, OF ev]
  note load = normalizePreferences_idempotent [of exampleHost ?x,
      THEN conjunct2, THEN conjunct2, THEN conjunct2, THEN mp, OF trimSettles_example,
      THEN spec, THEN spec, THEN spec, THEN spec, THEN mp,
      OF conjI [OF ev conjI [OF stored(1) conjI [OF stored(2) parse]]]]
  from trimSettles_example ev again load show ?thesis by (intro conjI)
qed

section \<open>Properties of the normalization of the read list\<close>

lemma getProp_falsy: "\<not> truthy item \<Longrightarrow> getProp item key = JUndefined"
  by (cases item) (simp_all add: getProp_def)

lemma truthy_guardedProp: "truthy (guardedProp item key) = truthy (getProp item key)"
  by (cases "truthy item") (simp_all add: guardedProp_def getProp_falsy)

lemma guardedProp_truthy_item: "truthy item \<Longrightarrow> guardedProp item key = getProp item key"
  by (simp add: guardedProp_def)

lemma printable_falsy: "\<not> truthy v \<Longrightarrow> printable v"
  by (cases v) simp_all

lemma printable_guardedProp: "printable (getProp item key) \<Longrightarrow> printable (guardedProp item key)"
  by (simp add: guardedProp_def printable_falsy)

lemma trimmedField_eq:
  "trimmedField h item key =
     andThen (toStr h (orElse (getProp item key) (JStr []))) (\<lambda>s. Inr (trim h s))"
  by (simp add: trimmedField_def truthy_guardedProp orElse_def)

lemma trimmedUrl_eq:
  "trimmedUrl h item =
     andThen (toStr h (orElse (orElse (getProp item ''absUrl'') (getProp item ''url'')) (JStr [])))
       (\<lambda>s. Inr (trim h s))"
  using getProp_falsy [of item]
  by (cases "truthy item") (simp_all add: trimmedUrl_def Let_def orElse_def)

lemma trimmed_value:
  assumes "trim h [] = []"
    and "andThen (toStr h (orElse v (JStr []))) (\<lambda>s. Inr (trim h s)) = Inr t"
  shows "t = (if truthy v then trimmedText h v else [])"
  using assms by (cases "truthy v") (auto simp: orElse_def trimmedText_def andThen_eq_Inr)

lemma trimmedText_printable:
  "printable v \<Longrightarrow> \<exists>s. toStr h v = Inr s \<and> trimmedText h v = trim h s"
  using toStr_returns(1) [of h v] by (auto simp: trimmedText_def)

lemma trimmed_returns:
  "(\<exists>t. andThen (toStr h (orElse v (JStr []))) (\<lambda>s. Inr (trim h s)) = Inr t) \<longleftrightarrow> printable v"
  using toStr_returns(1) [of h "orElse v (JStr [])"]
  by (auto simp: andThen_eq_Inr printable_orElse)

lemma trimmed_error:
  "andThen (toStr h v) (\<lambda>s. Inr (trim h s)) = Inl e \<Longrightarrow> e = TypeError"
  by (auto simp: andThen_eq_Inl dest: toStr_error(1))

lemma trimmedField_returns: "(\<exists>t. trimmedField h item key = Inr t) \<longleftrightarrow> printable (getProp item key)"
  unfolding trimmedField_eq by (rule trimmed_returns)

lemma trimmedUrl_returns:
  "printable (getProp item ''absUrl'') \<Longrightarrow> printable (getProp item ''url'') \<Longrightarrow>
   \<exists>t. trimmedUrl h item = Inr t"
  unfolding trimmedUrl_eq trimmed_returns by (simp add: orElse_def)

text \<open>What \<open>normalizeReadListItem\<close> returns, field by field.\<close>

lemma normalizeReadListItem_cases:
  assumes "normalizeReadListItem h now item = Inr r"
  obtains (dropped) idText titleText where
      "trimmedField h item ''id'' = Inr idText" "trimmedField h item ''title'' = Inr titleText"
      "idText = []" "r = None"
  | (kept) idText titleText absText pdfText authorText sourceText n where
      "trimmedField h item ''id'' = Inr idText" "trimmedField h item ''title'' = Inr titleText"
      "idText \<noteq> []"
      "trimmedUrl h item = Inr absText" "trimmedField h item ''pdfUrl'' = Inr pdfText"
      "trimmedField h item ''authors'' = Inr authorText"
      "trimmedField h item ''source'' = Inr sourceText"
      "toNumber h (guardedProp item ''addedAt'') = Inr n"
      "r = Some \<lparr> entry_id = idText,
                  entry_title = (if titleText = [] then idText else titleText),
                  entry_absUrl = absText, entry_pdfUrl = pdfText,
                  entry_authors = authorText, entry_source = sourceText,
                  entry_note = (case guardedProp item ''note'' of JStr s \<Rightarrow> s | _ \<Rightarrow> []),
                  entry_addedAt = (if truthy (JNum n) then n else now) \<rparr>"
proof -
  from assms obtain idText titleText where
    i: "trimmedField h item ''id'' = Inr idText" and t: "trimmedField h item ''title'' = Inr titleText"
    and rest: "(let title = (if titleText = [] then idText else titleText)
       in if idText = [] \<or> title = [] then Inr None
          else
            andThen (trimmedUrl h item) (\<lambda>absUrl.
            andThen (trimmedField h item ''pdfUrl'') (\<lambda>pdfUrl.
            andThen (trimmedField h item ''authors'') (\<lambda>authorNames.
            andThen (trimmedField h item ''source'') (\<lambda>sourceKey.
            andThen (toNumber h (guardedProp item ''addedAt'')) (\<lambda>n.
              Inr (Some
                \<lparr> entry_id = idText,
                  entry_title = title,
                  entry_absUrl = absUrl,
                  entry_pdfUrl = pdfUrl,
                  entry_authors = authorNames,
                  entry_source = sourceKey,
                  entry_note = (case guardedProp item ''note'' of JStr s \<Rightarrow> s | _ \<Rightarrow> []),
                  entry_addedAt = (if truthy (JNum n) then n else now) \<rparr>))))))) = Inr r"
    unfolding normalizeReadListItem_def andThen_eq_Inr by blast
  show thesis
  proof (cases "idText = []")
    case True
    with rest have "r = None" by (simp add: Let_def)
    with i t True show thesis by (rule dropped)
  next
    case False
    then have "\<not> (idText = [] \<or> (if titleText = [] then idText else titleText) = [])" by simp
    with rest obtain absText pdfText authorText sourceText n where
      "trimmedUrl h item = Inr absText" "trimmedField h item ''pdfUrl'' = Inr pdfText"
      "trimmedField h item ''authors'' = Inr authorText"
      "trimmedField h item ''source'' = Inr sourceText"
      "toNumber h (guardedProp item ''addedAt'') = Inr n"
      "Inr (Some \<lparr> entry_id = idText,
                  entry_title = (if titleText = [] then idText else titleText),
                  entry_absUrl = absText, entry_pdfUrl = pdfText,
                  entry_authors = authorText, entry_source = sourceText,
                  entry_note = (case guardedProp item ''note'' of JStr s \<Rightarrow> s | _ \<Rightarrow> []),
                  entry_addedAt = (if truthy (JNum n) then n else now) \<rparr>) = (Inr r :: error + readListEntry option)"
      unfolding Let_def if_not_P [OF \<open>\<not> (idText = [] \<or> (if titleText = [] then idText else titleText) = [])\<close>]
        andThen_eq_Inr
      by blast
    with i t False show thesis by (intro kept [of idText titleText absText pdfText authorText sourceText n]) simp_all
  qed
qed

lemma normalizeReadListItem_error: "normalizeReadListItem h now item = Inl e \<Longrightarrow> e = TypeError"
  unfolding normalizeReadListItem_def trimmedField_eq trimmedUrl_eq Let_def
  by (auto simp: andThen_eq_Inl andThen_eq_Inr split: if_splits
           dest: toStr_error(1) toNumber_error)

lemma normalizeReadListItem_returns:
  assumes "printableFields item"
  shows "\<exists>r. normalizeReadListItem h now item = Inr r"
proof -
  from assms have p: "printable (getProp item ''id'')" "printable (getProp item ''title'')"
    "printable (getProp item ''absUrl'')" "printable (getProp item ''url'')"
    "printable (getProp item ''pdfUrl'')" "printable (getProp item ''authors'')"
    "printable (getProp item ''source'')" "printable (getProp item ''addedAt'')"
    by (simp_all add: printableFields_def)
  from p(1) obtain idText where i: "trimmedField h item ''id'' = Inr idText"
    using trimmedField_returns by blast
  from p(2) obtain titleText where t: "trimmedField h item ''title'' = Inr titleText"
    using trimmedField_returns by blast
  from p(5) obtain pdfText where d: "trimmedField h item ''pdfUrl'' = Inr pdfText"
    using trimmedField_returns by blast
  from p(6) obtain authorText where a: "trimmedField h item ''authors'' = Inr authorText"
    using trimmedField_returns by blast
  from p(7) obtain sourceText where s: "trimmedField h item ''source'' = Inr sourceText"
    using trimmedField_returns by blast
  from p(3,4) obtain absText where u: "trimmedUrl h item = Inr absText"
    using trimmedUrl_returns by blast
  from p(8) have "printable (guardedProp item ''addedAt'')"
    by (rule printable_guardedProp)
  then obtain n where n: "toNumber h (guardedProp item ''addedAt'') = Inr n"
    using toNumber_returns by blast
  show ?thesis by (simp add: normalizeReadListItem_def i t d a s u n Let_def)
qed

lemma normalizeReadListItems_Inr:
  "normalizeReadListItems h now (JArr xs) = Inr rl \<longleftrightarrow>
     (\<exists>rs. mapE (normalizeReadListItem h now) xs = Inr rs
           \<and> rl = concat (map (\<lambda>r. case r of None \<Rightarrow> [] | Some e \<Rightarrow> [e]) rs))"
  by (auto simp: normalizeReadListItems_def andThen_eq_Inr)

lemma normalizeReadListItems_Nil: "normalizeReadListItems h now (JArr []) = Inr []"
  by (simp add: normalizeReadListItems_def)

lemma normalizeReadListItems_Cons:
  "normalizeReadListItems h now (JArr (item # xs)) = Inr rl \<longleftrightarrow>
     (\<exists>r rest. normalizeReadListItem h now item = Inr r
        \<and> normalizeReadListItems h now (JArr xs) = Inr rest
        \<and> rl = (case r of None \<Rightarrow> [] | Some e \<Rightarrow> [e]) @ rest)"
  by (auto simp: normalizeReadListItems_def andThen_eq_Inr split: sum.splits)

lemma normalizeReadListItems_error:
  "normalizeReadListItems h now v = Inl e \<Longrightarrow> e = TypeError"
proof (cases v)
  case (JArr xs)
  assume "normalizeReadListItems h now v = Inl e"
  then have "mapE (normalizeReadListItem h now) xs = Inl e"
    by (auto simp: JArr normalizeReadListItems_def andThen_eq_Inl)
  then obtain x where "normalizeReadListItem h now x = Inl e" by (auto dest: mapE_error)
  then show ?thesis by (rule normalizeReadListItem_error)
qed (simp_all add: normalizeReadListItems_def)

lemma normalizeReadListItems_returns:
  assumes "\<forall>item \<in> set xs. printableFields item"
  shows "\<exists>rl. normalizeReadListItems h now (JArr xs) = Inr rl"
proof -
  have "\<forall>item \<in> set xs. \<exists>r. normalizeReadListItem h now item = Inr r"
  proof
    fix item
    assume "item \<in> set xs"
    with assms have "printableFields item" by (rule bspec)
    then show "\<exists>r. normalizeReadListItem h now item = Inr r"
      by (rule normalizeReadListItem_returns)
  qed
  then obtain rs where "mapE (normalizeReadListItem h now) xs = Inr rs"
    using mapE_returns [of "normalizeReadListItem h now" xs] by blast
  then show ?thesis by (simp add: normalizeReadListItems_def)
qed

lemma normalizeReadListItems_set:
  assumes "normalizeReadListItems h now (JArr xs) = Inr rl"
  shows "set rl = {e. \<exists>item \<in> set xs. normalizeReadListItem h now item = Inr (Some e)}"
  using assms
proof (induction xs arbitrary: rl)
  case Nil
  then show ?case by (simp add: normalizeReadListItems_Nil)
next
  case (Cons item xs)
  from Cons.prems obtain r rest where r: "normalizeReadListItem h now item = Inr r"
    and rest: "normalizeReadListItems h now (JArr xs) = Inr rest"
    and rl: "rl = (case r of None \<Rightarrow> [] | Some e \<Rightarrow> [e]) @ rest"
    unfolding normalizeReadListItems_Cons by blast
  from Cons.IH [OF rest] r show ?case by (cases r) (auto simp: rl)
qed

lemma normalizeReadListItems_ids:
  assumes "trim h [] = []" "normalizeReadListItems h now (JArr xs) = Inr rl"
  shows "map entry_id rl =
           filter (\<lambda>s. s \<noteq> [])
             (map (\<lambda>item. if truthy (getProp item ''id'')
                           then trimmedText h (getProp item ''id'') else []) xs)"
  using assms(2)
proof (induction xs arbitrary: rl)
  case Nil
  then show ?case by (simp add: normalizeReadListItems_Nil)
next
  case (Cons item xs)
  from Cons.prems obtain r rest where r: "normalizeReadListItem h now item = Inr r"
    and rest: "normalizeReadListItems h now (JArr xs) = Inr rest"
    and rl: "rl = (case r of None \<Rightarrow> [] | Some e \<Rightarrow> [e]) @ rest"
    unfolding normalizeReadListItems_Cons by blast
  from r have "map entry_id (case r of None \<Rightarrow> [] | Some e \<Rightarrow> [e])
        = filter (\<lambda>s. s \<noteq> [])
            [if truthy (getProp item ''id'') then trimmedText h (getProp item ''id'') else []]"
  proof (cases rule: normalizeReadListItem_cases)
    case (dropped idText titleText)
    from trimmed_value [OF assms(1) dropped(1) [unfolded trimmedField_eq]] dropped(3,4)
    show ?thesis by simp
  next
    case (kept idText titleText absText pdfText authorText sourceText n)
    from trimmed_value [OF assms(1) kept(1) [unfolded trimmedField_eq]] kept(3,9)
    show ?thesis by simp
  qed
  with Cons.IH [OF rest] show ?case by (simp add: rl)
qed

text \<open>
  C6, as the claim states it, fails on a stored entry with \<^verbatim>\<open>addedAt: 0\<close> and a \<^verbatim>\<open>url\<close>
  but no \<^verbatim>\<open>absUrl\<close>: the numeric time 0 is not preserved but replaced by the time of the
  clock (0 is falsy in \<^verbatim>\<open>Number(...) || Date.now()\<close>), and the absent \<^verbatim>\<open>absUrl\<close> is not
  the empty string but the \<^verbatim>\<open>url\<close> of the entry. And on a record whose \<^verbatim>\<open>id\<close> is an
  object with an own property \<^verbatim>\<open>toString\<close> the function returns no list: \<^verbatim>\<open>String\<close>
  throws a \<^verbatim>\<open>TypeError\<close>.
\<close>

theorem normalizeReadListItems_zero_time_and_url:
  "normalizeReadListItems exampleHost firstTime
     (JArr [JObj [(''id'', JStr ''2401.0001''),
                  (''url'', JStr ''https://arxiv.org/abs/2401.0001''),
                  (''addedAt'', JNum (Finite 0))]])
   = Inr [\<lparr> entry_id = ''2401.0001'', entry_title = ''2401.0001'',
            entry_absUrl = ''https://arxiv.org/abs/2401.0001'', entry_pdfUrl = [],
            entry_authors = [], entry_source = [], entry_note = [],
            entry_addedAt = Finite 1700000000000 \<rparr>]
   \<and> firstTime = Finite 1700000000000
   \<and> normalizeReadListItems exampleHost firstTime
       (JArr [JObj [(''id'', JObj [(''toString'', JNum (Finite 1))])]])
     = Inl TypeError"
proof -
  have "firstTime = Finite 1700000000000" by (simp add: firstTime_def)
  moreover have "normalizeReadListItems exampleHost firstTime
     (JArr [JObj [(''id'', JStr ''2401.0001''),
                  (''url'', JStr ''https://arxiv.org/abs/2401.0001''),
                  (''addedAt'', JNum (Finite 0))]])
   = Inr [\<lparr> entry_id = ''2401.0001'', entry_title = ''2401.0001'',
            entry_absUrl = ''https://arxiv.org/abs/2401.0001'', entry_pdfUrl = [],
            entry_authors = [], entry_source = [], entry_note = [],
            entry_addedAt = Finite 1700000000000 \<rparr>]"
    by code_simp
  moreover have "normalizeReadListItems exampleHost firstTime
       (JArr [JObj [(''id'', JObj [(''toString'', JNum (Finite 1))])]])
     = Inl TypeError"
    by code_simp
  ultimately show ?thesis by (intro conjI)
qed

lemma normalizeReadListItem_Some:
  assumes tr: "trim h [] = []" and e: "normalizeReadListItem h now item = Inr (Some e)"
  shows "truthy (getProp item ''id'')"
    and "entry_id e = trimmedText h (getProp item ''id'')"
    and "entry_id e \<noteq> []"
    and "entry_title e =
           (if truthy (getProp item ''title'') \<and> trimmedText h (getProp item ''title'') \<noteq> []
            then trimmedText h (getProp item ''title'') else entry_id e)"
    and "entry_absUrl e =
           (if truthy (getProp item ''absUrl'') then trimmedText h (getProp item ''absUrl'')
            else if truthy (getProp item ''url'') then trimmedText h (getProp item ''url'')
            else [])"
    and "entry_pdfUrl e =
           (if truthy (getProp item ''pdfUrl'') then trimmedText h (getProp item ''pdfUrl'') else [])"
    and "entry_authors e =
           (if truthy (getProp item ''authors'') then trimmedText h (getProp item ''authors'') else [])"
    and "entry_source e =
           (if truthy (getProp item ''source'') then trimmedText h (getProp item ''source'') else [])"
    and "entry_note e = (case getProp item ''note'' of JStr s \<Rightarrow> s | _ \<Rightarrow> [])"
    and "\<exists>n. toNumber h (getProp item ''addedAt'') = Inr n
             \<and> entry_addedAt e = (if n \<noteq> NaN \<and> n \<noteq> Finite 0 then n else now)"
    and "printable (getProp item ''id'') \<and> printable (getProp item ''title'')
         \<and> printable (orElse (getProp item ''absUrl'') (getProp item ''url''))
         \<and> printable (getProp item ''pdfUrl'') \<and> printable (getProp item ''authors'')
         \<and> printable (getProp item ''source'')"
proof -
  from e obtain idText titleText absText pdfText authorText sourceText n where
    f: "trimmedField h item ''id'' = Inr idText" "trimmedField h item ''title'' = Inr titleText"
      "idText \<noteq> []"
      "trimmedUrl h item = Inr absText" "trimmedField h item ''pdfUrl'' = Inr pdfText"
      "trimmedField h item ''authors'' = Inr authorText"
      "trimmedField h item ''source'' = Inr sourceText"
      "toNumber h (guardedProp item ''addedAt'') = Inr n"
    and r: "Some e = Some \<lparr> entry_id = idText,
                  entry_title = (if titleText = [] then idText else titleText),
                  entry_absUrl = absText, entry_pdfUrl = pdfText,
                  entry_authors = authorText, entry_source = sourceText,
                  entry_note = (case guardedProp item ''note'' of JStr s \<Rightarrow> s | _ \<Rightarrow> []),
                  entry_addedAt = (if truthy (JNum n) then n else now) \<rparr>"
    by (cases rule: normalizeReadListItem_cases) simp_all
  note v = trimmed_value [OF tr]
  have i: "idText = (if truthy (getProp item ''id'') then trimmedText h (getProp item ''id'') else [])"
    by (rule v [OF f(1) [unfolded trimmedField_eq]])
  have t: "titleText = (if truthy (getProp item ''title'') then trimmedText h (getProp item ''title'') else [])"
    by (rule v [OF f(2) [unfolded trimmedField_eq]])
  have u: "absText = (if truthy (orElse (getProp item ''absUrl'') (getProp item ''url''))
                      then trimmedText h (orElse (getProp item ''absUrl'') (getProp item ''url''))
                      else [])"
    by (rule v [OF f(4) [unfolded trimmedUrl_eq]])
  have p: "pdfText = (if truthy (getProp item ''pdfUrl'') then trimmedText h (getProp item ''pdfUrl'') else [])"
    by (rule v [OF f(5) [unfolded trimmedField_eq]])
  have a: "authorText = (if truthy (getProp item ''authors'') then trimmedText h (getProp item ''authors'') else [])"
    by (rule v [OF f(6) [unfolded trimmedField_eq]])
  have s: "sourceText = (if truthy (getProp item ''source'') then trimmedText h (getProp item ''source'') else [])"
    by (rule v [OF f(7) [unfolded trimmedField_eq]])
  from i f(3) show tid: "truthy (getProp item ''id'')" by (auto split: if_splits)
  then have item: "truthy item" using getProp_falsy [of item "''id''"] by (cases "truthy item") auto
  from r have sel: "entry_id e = idText" "entry_title e = (if titleText = [] then idText else titleText)"
    "entry_absUrl e = absText" "entry_pdfUrl e = pdfText" "entry_authors e = authorText"
    "entry_source e = sourceText"
    "entry_note e = (case guardedProp item ''note'' of JStr s \<Rightarrow> s | _ \<Rightarrow> [])"
    "entry_addedAt e = (if truthy (JNum n) then n else now)"
    by simp_all
  show "entry_id e = trimmedText h (getProp item ''id'')" using i tid by (simp add: sel)
  show "entry_id e \<noteq> []" using f(3) by (simp add: sel)
  show "entry_title e =
           (if truthy (getProp item ''title'') \<and> trimmedText h (getProp item ''title'') \<noteq> []
            then trimmedText h (getProp item ''title'') else entry_id e)"
    using t by (auto simp: sel)
  show "entry_absUrl e =
           (if truthy (getProp item ''absUrl'') then trimmedText h (getProp item ''absUrl'')
            else if truthy (getProp item ''url'') then trimmedText h (getProp item ''url'')
            else [])"
    using u by (simp add: sel orElse_def)
  show "entry_pdfUrl e =
           (if truthy (getProp item ''pdfUrl'') then trimmedText h (getProp item ''pdfUrl'') else [])"
    using p by (simp add: sel)
  show "entry_authors e =
           (if truthy (getProp item ''authors'') then trimmedText h (getProp item ''authors'') else [])"
    using a by (simp add: sel)
  show "entry_source e =
           (if truthy (getProp item ''source'') then trimmedText h (getProp item ''source'') else [])"
    using s by (simp add: sel)
  show "entry_note e = (case getProp item ''note'' of JStr s \<Rightarrow> s | _ \<Rightarrow> [])"
    using item by (simp add: sel guardedProp_def)
  show "\<exists>n. toNumber h (getProp item ''addedAt'') = Inr n
             \<and> entry_addedAt e = (if n \<noteq> NaN \<and> n \<noteq> Finite 0 then n else now)"
    using item f(8) by (auto simp: sel guardedProp_def)
  have p1: "printable (getProp item ''id'')" using f(1) trimmedField_returns by blast
  have p2: "printable (getProp item ''title'')" using f(2) trimmedField_returns by blast
  have p3: "printable (orElse (getProp item ''absUrl'') (getProp item ''url''))"
    using f(4) [unfolded trimmedUrl_eq] trimmed_returns by blast
  have p4: "printable (getProp item ''pdfUrl'')" using f(5) trimmedField_returns by blast
  have p5: "printable (getProp item ''authors'')" using f(6) trimmedField_returns by blast
  have p6: "printable (getProp item ''source'')" using f(7) trimmedField_returns by blast
  from p1 p2 p3 p4 p5 p6
  show "printable (getProp item ''id'') \<and> printable (getProp item ''title'')
         \<and> printable (orElse (getProp item ''absUrl'') (getProp item ''url''))
         \<and> printable (getProp item ''pdfUrl'') \<and> printable (getProp item ''authors'')
         \<and> printable (getProp item ''source'')"
    by (intro conjI)
qed

text \<open>
  C6, amended. \<open>normalizeReadListItems\<close> gives the empty list on a value that is not an
  array. On an array of records whose fields can be printed it returns a list (on another
  array it returns one or throws a \<^verbatim>\<open>TypeError\<close>). The list it returns keeps, in their
  order, exactly the items whose \<^verbatim>\<open>id\<close> is truthy and not blank, with the trimmed
  \<^verbatim>\<open>id\<close> as id. For a kept entry the title is the trimmed \<^verbatim>\<open>title\<close>, or the id when
  there is none; a numeric \<^verbatim>\<open>addedAt\<close> other than 0 and not-a-number is preserved, and
  an \<^verbatim>\<open>addedAt\<close> that is absent, null, 0 or not-a-number (or that reads as one of
  these) becomes the time of the clock; the \<^verbatim>\<open>absUrl\<close> is the trimmed \<^verbatim>\<open>absUrl\<close> of the
  item, the trimmed \<^verbatim>\<open>url\<close> when that is absent, and the empty string when both are;
  absent \<^verbatim>\<open>pdfUrl\<close>, \<^verbatim>\<open>authors\<close>, \<^verbatim>\<open>source\<close> and \<^verbatim>\<open>note\<close> are the empty string.
  Every value whose trimmed text is a field of a kept entry can be printed, and its trimmed
  text is the printed text, trimmed.
\<close>

theorem normalizeReadListItems_fields:
  "((\<forall>xs. v \<noteq> JArr xs) \<longrightarrow> normalizeReadListItems h now v = Inr [])
   \<and> ((\<forall>item \<in> set xs. printableFields item) \<longrightarrow>
        (\<exists>rl. normalizeReadListItems h now (JArr xs) = Inr rl))
   \<and> (\<forall>err. normalizeReadListItems h now v = Inl err \<longrightarrow> err = TypeError)
   \<and> (printable v \<longrightarrow> (\<exists>s. toStr h v = Inr s \<and> trimmedText h v = trim h s))
   \<and> (trim h [] = [] \<longrightarrow>
      (\<forall>rl. normalizeReadListItems h now (JArr xs) = Inr rl \<longrightarrow>
        map entry_id rl
          = filter (\<lambda>s. s \<noteq> [])
              (map (\<lambda>item. if truthy (getProp item ''id'')
                            then trimmedText h (getProp item ''id'') else []) xs)
        \<and> (\<forall>e \<in> set rl. \<exists>item \<in> set xs.
              truthy (getProp item ''id'')
              \<and> entry_id e = trimmedText h (getProp item ''id'')
              \<and> entry_id e \<noteq> []
              \<and> entry_title e =
                  (if truthy (getProp item ''title'') \<and> trimmedText h (getProp item ''title'') \<noteq> []
                   then trimmedText h (getProp item ''title'') else entry_id e)
              \<and> (\<exists>n. toNumber h (getProp item ''addedAt'') = Inr n
                     \<and> entry_addedAt e = (if n \<noteq> NaN \<and> n \<noteq> Finite 0 then n else now))
              \<and> (\<forall>n. getProp item ''addedAt'' = JNum n \<and> n \<noteq> NaN \<and> n \<noteq> Finite 0
                     \<longrightarrow> entry_addedAt e = n)
              \<and> (getProp item ''addedAt'' \<in> {JUndefined, JNull, JNum NaN, JNum (Finite 0)}
                     \<longrightarrow> entry_addedAt e = now)
              \<and> entry_absUrl e =
                  (if truthy (getProp item ''absUrl'') then trimmedText h (getProp item ''absUrl'')
                   else if truthy (getProp item ''url'') then trimmedText h (getProp item ''url'')
                   else [])
              \<and> entry_pdfUrl e =
                  (if truthy (getProp item ''pdfUrl'') then trimmedText h (getProp item ''pdfUrl'')
                   else [])
              \<and> entry_authors e =
                  (if truthy (getProp item ''authors'') then trimmedText h (getProp item ''authors'')
                   else [])
              \<and> entry_source e =
                  (if truthy (getProp item ''source'') then trimmedText h (getProp item ''source'')
                   else [])
              \<and> entry_note e = (case getProp item ''note'' of JStr s \<Rightarrow> s | _ \<Rightarrow> [])
              \<and> (printable (getProp item ''id'') \<and> printable (getProp item ''title'')
                   \<and> printable (orElse (getProp item ''absUrl'') (getProp item ''url''))
                   \<and> printable (getProp item ''pdfUrl'') \<and> printable (getProp item ''authors'')
                   \<and> printable (getProp item ''source'')))))"
proof -
  have other: "(\<forall>xs. v \<noteq> JArr xs) \<longrightarrow> normalizeReadListItems h now v = Inr []"
    by (cases v) (simp_all add: normalizeReadListItems_def)
  have returns: "(\<forall>item \<in> set xs. printableFields item) \<longrightarrow>
        (\<exists>rl. normalizeReadListItems h now (JArr xs) = Inr rl)"
    using normalizeReadListItems_returns by blast
  have err: "\<forall>err. normalizeReadListItems h now v = Inl err \<longrightarrow> err = TypeError"
    using normalizeReadListItems_error by blast
  have fields: "\<exists>item \<in> set xs.
              truthy (getProp item ''id'')
              \<and> entry_id e = trimmedText h (getProp item ''id'')
              \<and> entry_id e \<noteq> []
              \<and> entry_title e =
                  (if truthy (getProp item ''title'') \<and> trimmedText h (getProp item ''title'') \<noteq> []
                   then trimmedText h (getProp item ''title'') else entry_id e)
              \<and> (\<exists>n. toNumber h (getProp item ''addedAt'') = Inr n
                     \<and> entry_addedAt e = (if n \<noteq> NaN \<and> n \<noteq> Finite 0 then n else now))
              \<and> (\<forall>n. getProp item ''addedAt'' = JNum n \<and> n \<noteq> NaN \<and> n \<noteq> Finite 0
                     \<longrightarrow> entry_addedAt e = n)
              \<and> (getProp item ''addedAt'' \<in> {JUndefined, JNull, JNum NaN, JNum (Finite 0)}
                     \<longrightarrow> entry_addedAt e = now)
              \<and> entry_absUrl e =
                  (if truthy (getProp item ''absUrl'') then trimmedText h (getProp item ''absUrl'')
                   else if truthy (getProp item ''url'') then trimmedText h (getProp item ''url'')
                   else [])
              \<and> entry_pdfUrl e =
                  (if truthy (getProp item ''pdfUrl'') then trimmedText h (getProp item ''pdfUrl'')
                   else [])
              \<and> entry_authors e =
                  (if truthy (getProp item ''authors'') then trimmedText h (getProp item ''authors'')
                   else [])
              \<and> entry_source e =
                  (if truthy (getProp item ''source'') then trimmedText h (getProp item ''source'')
                   else [])
              \<and> entry_note e = (case getProp item ''note'' of JStr s \<Rightarrow> s | _ \<Rightarrow> [])
              \<and> (printable (getProp item ''id'') \<and> printable (getProp item ''title'')
                   \<and> printable (orElse (getProp item ''absUrl'') (getProp item ''url''))
                   \<and> printable (getProp item ''pdfUrl'') \<and> printable (getProp item ''authors'')
                   \<and> printable (getProp item ''source''))"
    if tr: "trim h [] = []" and rl: "normalizeReadListItems h now (JArr xs) = Inr rl"
      and e: "e \<in> set rl" for rl e
  proof -
    from e obtain item where item: "item \<in> set xs"
      and n: "normalizeReadListItem h now item = Inr (Some e)"
      unfolding normalizeReadListItems_set [OF rl] by blast
    note f = normalizeReadListItem_Some [OF tr n]
    from f(10) obtain n where num: "toNumber h (getProp item ''addedAt'') = Inr n"
      and at: "entry_addedAt e = (if n \<noteq> NaN \<and> n \<noteq> Finite 0 then n else now)" by blast
    have 6: "\<forall>n. getProp item ''addedAt'' = JNum n \<and> n \<noteq> NaN \<and> n \<noteq> Finite 0
                     \<longrightarrow> entry_addedAt e = n"
      using num at by auto
    have 7: "getProp item ''addedAt'' \<in> {JUndefined, JNull, JNum NaN, JNum (Finite 0)}
                     \<longrightarrow> entry_addedAt e = now"
      using num at by auto
    note p = f(11) [THEN conjunct1] f(11) [THEN conjunct2, THEN conjunct1]
      f(11) [THEN conjunct2, THEN conjunct2, THEN conjunct1]
      f(11) [THEN conjunct2, THEN conjunct2, THEN conjunct2, THEN conjunct1]
      f(11) [THEN conjunct2, THEN conjunct2, THEN conjunct2, THEN conjunct2, THEN conjunct1]
      f(11) [THEN conjunct2, THEN conjunct2, THEN conjunct2, THEN conjunct2, THEN conjunct2]
    from item f(1) f(2) f(3) f(4) f(10) 6 7 f(5) f(6) f(7) f(8) f(9) p
    show ?thesis by (intro bexI [of _ item] conjI)
  qed
  have kept: "trim h [] = [] \<longrightarrow>
      (\<forall>rl. normalizeReadListItems h now (JArr xs) = Inr rl \<longrightarrow>
        map entry_id rl
          = filter (\<lambda>s. s \<noteq> [])
              (map (\<lambda>item. if truthy (getProp item ''id'')
                            then trimmedText h (getProp item ''id'') else []) xs)
        \<and> (\<forall>e \<in> set rl. \<exists>item \<in> set xs.
              truthy (getProp item ''id'')
              \<and> entry_id e = trimmedText h (getProp item ''id'')
              \<and> entry_id e \<noteq> []
              \<and> entry_title e =
                  (if truthy (getProp item ''title'') \<and> trimmedText h (getProp item ''title'') \<noteq> []
                   then trimmedText h (getProp item ''title'') else entry_id e)
              \<and> (\<exists>n. toNumber h (getProp item ''addedAt'') = Inr n
                     \<and> entry_addedAt e = (if n \<noteq> NaN \<and> n \<noteq> Finite 0 then n else now))
              \<and> (\<forall>n. getProp item ''addedAt'' = JNum n \<and> n \<noteq> NaN \<and> n \<noteq> Finite 0
                     \<longrightarrow> entry_addedAt e = n)
              \<and> (getProp item ''addedAt'' \<in> {JUndefined, JNull, JNum NaN, JNum (Finite 0)}
                     \<longrightarrow> entry_addedAt e = now)
              \<and> entry_absUrl e =
                  (if truthy (getProp item ''absUrl'') then trimmedText h (getProp item ''absUrl'')
                   else if truthy (getProp item ''url'') then trimmedText h (getProp item ''url'')
                   else [])
              \<and> entry_pdfUrl e =
                  (if truthy (getProp item ''pdfUrl'') then trimmedText h (getProp item ''pdfUrl'')
                   else [])
              \<and> entry_authors e =
                  (if truthy (getProp item ''authors'') then trimmedText h (getProp item ''authors'')
                   else [])
              \<and> entry_source e =
                  (if truthy (getProp item ''source'') then trimmedText h (getProp item ''source'')
                   else [])
              \<and> entry_note e = (case getProp item ''note'' of JStr s \<Rightarrow> s | _ \<Rightarrow> [])
              \<and> (printable (getProp item ''id'') \<and> printable (getProp item ''title'')
                   \<and> printable (orElse (getProp item ''absUrl'') (getProp item ''url''))
                   \<and> printable (getProp item ''pdfUrl'') \<and> printable (getProp item ''authors'')
                   \<and> printable (getProp item ''source''))))"
  proof (intro impI allI conjI ballI)
    fix rl
    assume "trim h [] = []" "normalizeReadListItems h now (JArr xs) = Inr rl"
    then show "map entry_id rl
          = filter (\<lambda>s. s \<noteq> [])
              (map (\<lambda>item. if truthy (getProp item ''id'')
                            then trimmedText h (getProp item ''id'') else []) xs)"
      by (rule normalizeReadListItems_ids)
  next
    fix rl e
    assume "trim h [] = []" "normalizeReadListItems h now (JArr xs) = Inr rl" "e \<in> set rl"
    then show "\<exists>item \<in> set xs.
              truthy (getProp item ''id'')
              \<and> entry_id e = trimmedText h (getProp item ''id'')
              \<and> entry_id e \<noteq> []
              \<and> entry_title e =
                  (if truthy (getProp item ''title'') \<and> trimmedText h (getProp item ''title'') \<noteq> []
                   then trimmedText h (getProp item ''title'') else entry_id e)
              \<and> (\<exists>n. toNumber h (getProp item ''addedAt'') = Inr n
                     \<and> entry_addedAt e = (if n \<noteq> NaN \<and> n \<noteq> Finite 0 then n else now))
              \<and> (\<forall>n. getProp item ''addedAt'' = JNum n \<and> n \<noteq> NaN \<and> n \<noteq> Finite 0
                     \<longrightarrow> entry_addedAt e = n)
              \<and> (getProp item ''addedAt'' \<in> {JUndefined, JNull, JNum NaN, JNum (Finite 0)}
                     \<longrightarrow> entry_addedAt e = now)
              \<and> entry_absUrl e =
                  (if truthy (getProp item ''absUrl'') then trimmedText h (getProp item ''absUrl'')
                   else if truthy (getProp item ''url'') then trimmedText h (getProp item ''url'')
                   else [])
              \<and> entry_pdfUrl e =
                  (if truthy (getProp item ''pdfUrl'') then trimmedText h (getProp item ''pdfUrl'')
                   else [])
              \<and> entry_authors e =
                  (if truthy (getProp item ''authors'') then trimmedText h (getProp item ''authors'')
                   else [])
              \<and> entry_source e =
                  (if truthy (getProp item ''source'') then trimmedText h (getProp item ''source'')
                   else [])
              \<and> entry_note e = (case getProp item ''note'' of JStr s \<Rightarrow> s | _ \<Rightarrow> [])
              \<and> (printable (getProp item ''id'') \<and> printable (getProp item ''title'')
                   \<and> printable (orElse (getProp item ''absUrl'') (getProp item ''url''))
                   \<and> printable (getProp item ''pdfUrl'') \<and> printable (getProp item ''authors'')
                   \<and> printable (getProp item ''source''))"
      by (rule fields)
  qed
  have printed: "printable v \<longrightarrow> (\<exists>s. toStr h v = Inr s \<and> trimmedText h v = trim h s)"
    using trimmedText_printable by blast
  from other returns err printed kept show ?thesis by (intro conjI)
qed

theorem normalizeReadListItems_fields_witness:
  "normalizeReadListItems exampleHost firstTime (JNum (Finite 5)) = Inr []
   \<and> trim exampleHost [] = []
   \<and> normalizeReadListItems exampleHost firstTime
       (JArr [JNull,
              JObj [(''id'', JStr ''   ''), (''title'', JStr ''No id'')],
              JObj [(''id'', JStr '' 2401.0001 ''), (''title'', JStr ''''),
                    (''addedAt'', JNum (Finite 1704067200000)), (''note'', JStr ''first'')]])
     = Inr [\<lparr> entry_id = ''2401.0001'', entry_title = ''2401.0001'', entry_absUrl = [],
              entry_pdfUrl = [], entry_authors = [], entry_source = [], entry_note = ''first'',
              entry_addedAt = Finite 1704067200000 \<rparr>]
   \<and> map entry_id
       [\<lparr> entry_id = ''2401.0001'', entry_title = ''2401.0001'', entry_absUrl = [],
          entry_pdfUrl = [], entry_authors = [], entry_source = [], entry_note = ''first'',
          entry_addedAt = Finite 1704067200000 \<rparr>]
     = filter (\<lambda>s. s \<noteq> [])
         (map (\<lambda>item. if truthy (getProp item ''id'')
                       then trimmedText exampleHost (getProp item ''id'') else [])
            [JNull,
             JObj [(''id'', JStr ''   ''), (''title'', JStr ''No id'')],
             JObj [(''id'', JStr '' 2401.0001 ''), (''title'', JStr ''''),
                   (''addedAt'', JNum (Finite 1704067200000)), (''note'', JStr ''first'')]])"
proof -
  let ?xs = "[JNull,
              JObj [(''id'', JStr ''   ''), (''title'', JStr ''No id'')],
              JObj [(''id'', JStr '' 2401.0001 ''), (''title'', JStr ''''),
                    (''addedAt'', JNum (Finite 1704067200000)), (''note'', JStr ''first'')]]"
  let ?e = "\<lparr> entry_id = ''2401.0001'', entry_title = ''2401.0001'', entry_absUrl = [],
          entry_pdfUrl = [], entry_authors = [], entry_source = [], entry_note = ''first'',
          entry_addedAt = Finite 1704067200000 \<rparr>"
  have ev: "normalizeReadListItems exampleHost firstTime (JArr ?xs) = Inr [?e]"
    by code_simp
  have tr: "trim exampleHost [] = []"
    by (simp add: trim_example trimSpaces_def)
  have notarr: "\<forall>xs. JNum (Finite 5) \<noteq> JArr xs" by simp
  note a = normalizeReadListItems_fields [of "JNum (Finite 5)" exampleHost firstTime ?xs,
      THEN conjunct1, THEN mp, OF notarr]
  note b = normalizeReadListItems_fields [of "JNum (Finite 5)" exampleHost firstTime ?xs,
      THEN conjunct2, THEN conjunct2, THEN conjunct2, THEN conjunct2, THEN mp, OF tr,
      THEN spec, THEN mp, OF ev, THEN conjunct1]
  from a tr ev b show ?thesis by (intro conjI)
qed

section \<open>Properties of the read-list controller\<close>

lemma getProp_entryValue:
  "getProp (entryValue e) ''id'' = JStr (entry_id e)"
  "getProp (entryValue e) ''title'' = JStr (entry_title e)"
  "getProp (entryValue e) ''absUrl'' = JStr (entry_absUrl e)"
  "getProp (entryValue e) ''url'' = JUndefined"
  "getProp (entryValue e) ''pdfUrl'' = JStr (entry_pdfUrl e)"
  "getProp (entryValue e) ''authors'' = JStr (entry_authors e)"
  "getProp (entryValue e) ''source'' = JStr (entry_source e)"
  "getProp (entryValue e) ''note'' = JStr (entry_note e)"
  "getProp (entryValue e) ''addedAt'' = JNum (entry_addedAt e)"
  by (simp_all add: getProp_def entryValue_def)

lemma truthy_entryValue: "truthy (entryValue e)"
  by (simp add: entryValue_def)

lemma trimmed_string:
  "andThen (toStr h (orElse (JStr s) (JStr []))) (\<lambda>t. Inr (trim h t)) = Inr (trim h s)"
  by (simp add: orElse_def)

lemma trimmedField_entryValue:
  "trimmedField h (entryValue e) ''id'' = Inr (trim h (entry_id e))"
  "trimmedField h (entryValue e) ''title'' = Inr (trim h (entry_title e))"
  "trimmedField h (entryValue e) ''pdfUrl'' = Inr (trim h (entry_pdfUrl e))"
  "trimmedField h (entryValue e) ''authors'' = Inr (trim h (entry_authors e))"
  "trimmedField h (entryValue e) ''source'' = Inr (trim h (entry_source e))"
  by (simp_all only: trimmedField_eq getProp_entryValue trimmed_string)

lemma trimmedUrl_entryValue: "trimmedUrl h (entryValue e) = Inr (trim h (entry_absUrl e))"
  by (simp add: trimmedUrl_eq getProp_entryValue orElse_def)

text \<open>What normalizing an entry of the list again gives.\<close>

lemma renormalized:
  "normalizeReadListItem h now (entryValue e) =
     Inr (if trim h (entry_id e) = [] then None
          else Some \<lparr> entry_id = trim h (entry_id e),
                      entry_title = (if trim h (entry_title e) = [] then trim h (entry_id e)
                                     else trim h (entry_title e)),
                      entry_absUrl = trim h (entry_absUrl e),
                      entry_pdfUrl = trim h (entry_pdfUrl e),
                      entry_authors = trim h (entry_authors e),
                      entry_source = trim h (entry_source e),
                      entry_note = entry_note e,
                      entry_addedAt = (if truthy (JNum (entry_addedAt e)) then entry_addedAt e
                                       else now) \<rparr>)"
  by (simp add: normalizeReadListItem_def trimmedField_entryValue trimmedUrl_entryValue Let_def
      guardedProp_truthy_item [OF truthy_entryValue] getProp_entryValue)

lemma renormalized_settled:
  "settledEntry h e \<Longrightarrow> normalizeReadListItem h now (entryValue e) = Inr (Some e)"
  by (simp add: renormalized settledEntry_def)

lemma renormalized_usable:
  assumes "entry_id e \<noteq> []" "trim h (entry_id e) = entry_id e"
  shows "\<exists>e'. normalizeReadListItem h now (entryValue e) = Inr (Some e') \<and> entry_id e' = entry_id e"
  using assms by (simp add: renormalized)

lemma trimmedField_trimmed:
  "trimSettles h \<Longrightarrow> trimmedField h item key = Inr t \<Longrightarrow> trim h t = t"
  by (auto simp: trimmedField_eq andThen_eq_Inr trimSettles_def)

lemma trimmedUrl_trimmed:
  "trimSettles h \<Longrightarrow> trimmedUrl h item = Inr t \<Longrightarrow> trim h t = t"
  by (auto simp: trimmedUrl_eq andThen_eq_Inr trimSettles_def)

text \<open>What \<open>normalizeReadListItem\<close> returns is trimmed, and normalizes to itself at the same time.\<close>

lemma normalized_trimmed:
  assumes ts: "trimSettles h" and n: "normalizeReadListItem h now item = Inr (Some e)"
  shows "entry_id e \<noteq> []" "entry_title e \<noteq> []"
    "trim h (entry_id e) = entry_id e" "trim h (entry_title e) = entry_title e"
    "trim h (entry_absUrl e) = entry_absUrl e" "trim h (entry_pdfUrl e) = entry_pdfUrl e"
    "trim h (entry_authors e) = entry_authors e" "trim h (entry_source e) = entry_source e"
    "clockRuns now \<Longrightarrow> truthy (JNum (entry_addedAt e))"
    "(if truthy (JNum (entry_addedAt e)) then entry_addedAt e else now) = entry_addedAt e"
proof -
  from n obtain idText titleText absText pdfText authorText sourceText n where
    f: "trimmedField h item ''id'' = Inr idText" "trimmedField h item ''title'' = Inr titleText"
      "idText \<noteq> []"
      "trimmedUrl h item = Inr absText" "trimmedField h item ''pdfUrl'' = Inr pdfText"
      "trimmedField h item ''authors'' = Inr authorText"
      "trimmedField h item ''source'' = Inr sourceText"
    and r: "Some e = Some \<lparr> entry_id = idText,
                  entry_title = (if titleText = [] then idText else titleText),
                  entry_absUrl = absText, entry_pdfUrl = pdfText,
                  entry_authors = authorText, entry_source = sourceText,
                  entry_note = (case guardedProp item ''note'' of JStr s \<Rightarrow> s | _ \<Rightarrow> []),
                  entry_addedAt = (if truthy (JNum n) then n else now) \<rparr>"
    by (cases rule: normalizeReadListItem_cases) simp_all
  from r have sel: "entry_id e = idText" "entry_title e = (if titleText = [] then idText else titleText)"
    "entry_absUrl e = absText" "entry_pdfUrl e = pdfText" "entry_authors e = authorText"
    "entry_source e = sourceText"
    "entry_addedAt e = (if truthy (JNum n) then n else now)"
    by simp_all
  note t = trimmedField_trimmed [OF ts] trimmedUrl_trimmed [OF ts]
  show "entry_id e \<noteq> []" using f(3) by (simp add: sel)
  show "entry_title e \<noteq> []" using f(3) by (simp add: sel)
  show "trim h (entry_id e) = entry_id e" using t(1) [OF f(1)] by (simp add: sel)
  show "trim h (entry_title e) = entry_title e" using t(1) [OF f(1)] t(1) [OF f(2)] by (simp add: sel)
  show "trim h (entry_absUrl e) = entry_absUrl e" using t(2) [OF f(4)] by (simp add: sel)
  show "trim h (entry_pdfUrl e) = entry_pdfUrl e" using t(1) [OF f(5)] by (simp add: sel)
  show "trim h (entry_authors e) = entry_authors e" using t(1) [OF f(6)] by (simp add: sel)
  show "trim h (entry_source e) = entry_source e" using t(1) [OF f(7)] by (simp add: sel)
  show "clockRuns now \<Longrightarrow> truthy (JNum (entry_addedAt e))"
    by (simp add: sel clockRuns_def)
  show "(if truthy (JNum (entry_addedAt e)) then entry_addedAt e else now) = entry_addedAt e"
    by (simp add: sel)
qed

lemma normalized_settled:
  "trimSettles h \<Longrightarrow> clockRuns now \<Longrightarrow> normalizeReadListItem h now item = Inr (Some e) \<Longrightarrow>
   settledEntry h e"
  unfolding settledEntry_def using normalized_trimmed [of h now item e] by blast

lemma renormalized_same:
  assumes "trimSettles h" "normalizeReadListItem h now item = Inr (Some e)"
  shows "normalizeReadListItem h now (entryValue e) = Inr (Some e)"
  using normalized_trimmed [OF assms] by (simp add: renormalized)

lemma normalizeReadListItems_append:
  "normalizeReadListItems h now (JArr (xs @ ys)) =
     (case normalizeReadListItems h now (JArr xs) of
        Inl e \<Rightarrow> Inl e
      | Inr us \<Rightarrow> (case normalizeReadListItems h now (JArr ys) of
                     Inl e \<Rightarrow> Inl e
                   | Inr vs \<Rightarrow> Inr (us @ vs)))"
  by (simp add: normalizeReadListItems_def mapE_append andThen_def split: sum.splits)

lemma normalizeReadListItems_single:
  "normalizeReadListItems h now (JArr [item]) =
     (case normalizeReadListItem h now item of
        Inl e \<Rightarrow> Inl e
      | Inr r \<Rightarrow> Inr (case r of None \<Rightarrow> [] | Some e \<Rightarrow> [e]))"
  by (simp add: normalizeReadListItems_def split: sum.splits)

lemma normalizeReadListItems_step:
  "normalizeReadListItems h now (JArr (item # xs)) =
     (case normalizeReadListItem h now item of
        Inl err \<Rightarrow> Inl err
      | Inr r \<Rightarrow>
          (case normalizeReadListItems h now (JArr xs) of
             Inl err \<Rightarrow> Inl err
           | Inr rest \<Rightarrow> Inr ((case r of None \<Rightarrow> [] | Some e \<Rightarrow> [e]) @ rest)))"
  by (simp add: normalizeReadListItems_def andThen_def split: sum.splits)

lemma renormalized_returns:
  "\<exists>rl'. normalizeReadListItems h now (JArr (map entryValue rl)) = Inr rl'"
proof (induction rl)
  case Nil
  show ?case by (simp add: normalizeReadListItems_Nil)
next
  case (Cons e rl)
  then obtain rest where "normalizeReadListItems h now (JArr (map entryValue rl)) = Inr rest"
    by blast
  then show ?case by (simp add: normalizeReadListItems_step renormalized)
qed

lemma renormalized_ids:
  assumes "usableIds h rl" "normalizeReadListItems h now (JArr (map entryValue rl)) = Inr rl'"
  shows "map entry_id rl' = map entry_id rl"
  using assms
proof (induction rl arbitrary: rl')
  case Nil
  then show ?case by (simp add: normalizeReadListItems_Nil)
next
  case (Cons e rl)
  from renormalized_returns [of h now rl] obtain rest
    where rest: "normalizeReadListItems h now (JArr (map entryValue rl)) = Inr rest" by blast
  from Cons.prems(1) have e: "entry_id e \<noteq> []" "trim h (entry_id e) = entry_id e"
    and u: "usableIds h rl" by (simp_all add: usableIds_def)
  from renormalized_usable [OF e, of now] obtain e'
    where e': "normalizeReadListItem h now (entryValue e) = Inr (Some e')" "entry_id e' = entry_id e"
    by blast
  from Cons.prems(2) have "rl' = e' # rest"
    by (simp add: normalizeReadListItems_step rest e')
  with Cons.IH [OF u rest] e'(2) show ?case by simp
qed

lemma renormalized_list:
  assumes "\<forall>e \<in> set rl. settledEntry h e"
  shows "normalizeReadListItems h now (JArr (map entryValue rl)) = Inr rl"
  using assms
proof (induction rl)
  case Nil
  show ?case by (simp add: normalizeReadListItems_Nil)
next
  case (Cons e rl)
  then show ?case by (simp add: normalizeReadListItems_step renormalized_settled)
qed

lemma normalized_list_usable:
  assumes "trimSettles h" "normalizeReadListItems h now v = Inr rl"
  shows "usableIds h rl"
proof (cases v)
  case (JArr xs)
  show ?thesis unfolding usableIds_def
  proof
    fix e
    assume "e \<in> set rl"
    then obtain item where "normalizeReadListItem h now item = Inr (Some e)"
      using normalizeReadListItems_set [OF assms(2) [unfolded JArr]] by blast
    from normalized_trimmed(1,3) [OF assms(1) this]
    show "entry_id e \<noteq> [] \<and> trim h (entry_id e) = entry_id e" by simp
  qed
qed (use assms(2) in \<open>auto simp: normalizeReadListItems_def usableIds_def\<close>)

lemma normalized_list_settled:
  assumes "trimSettles h" "clockRuns now" "normalizeReadListItems h now v = Inr rl"
  shows "\<forall>e \<in> set rl. settledEntry h e"
proof (cases v)
  case (JArr xs)
  show ?thesis
  proof
    fix e
    assume "e \<in> set rl"
    then obtain item where "normalizeReadListItem h now item = Inr (Some e)"
      using normalizeReadListItems_set [OF assms(3) [unfolded JArr]] by blast
    with assms(1,2) show "settledEntry h e" by (rule normalized_settled)
  qed
qed (use assms(3) in \<open>auto simp: normalizeReadListItems_def\<close>)

text \<open>The operations, each as what it makes of the read list.\<close>

lemma setReadList_Inr:
  "setReadList h now s next = Inr s' \<longleftrightarrow>
     (\<exists>rl. normalizeReadListItems h now (JArr (map entryValue next)) = Inr rl
           \<and> s' = s\<lparr>readList := rl\<rparr>)"
  by (auto simp: setReadList_def andThen_eq_Inr)

lemma setReadList_returns: "\<exists>s'. setReadList h now s next = Inr s'"
  using renormalized_returns [of h now "next"] by (auto simp: setReadList_Inr)

lemma setReadList_usable:
  "trimSettles h \<Longrightarrow> setReadList h now s next = Inr s' \<Longrightarrow> usableIds h (readList s')"
  by (auto simp: setReadList_Inr intro: normalized_list_usable)

lemma setReadList_settled:
  "trimSettles h \<Longrightarrow> clockRuns now \<Longrightarrow> setReadList h now s next = Inr s' \<Longrightarrow>
   \<forall>e \<in> set (readList s'). settledEntry h e"
  using normalized_list_settled [of h now "JArr (map entryValue next)"]
  by (auto simp: setReadList_Inr)

lemma setReadList_ids:
  "usableIds h next \<Longrightarrow> setReadList h now s next = Inr s' \<Longrightarrow>
   map entry_id (readList s') = map entry_id next"
  by (auto simp: setReadList_Inr dest: renormalized_ids)

lemma setReadList_list:
  "\<forall>e \<in> set next. settledEntry h e \<Longrightarrow> setReadList h now s next = Inr (s\<lparr>readList := next\<rparr>)"
  by (simp add: setReadList_def renormalized_list)

lemma addToReadList_throws:
  "normalizeReadListItem h now entry = Inl err \<Longrightarrow> addToReadList h now s entry = Inl err"
  by (simp add: addToReadList_def normalizeReadListItems_single)

lemma addToReadList_None:
  "normalizeReadListItem h now entry = Inr None \<Longrightarrow> addToReadList h now s entry = Inr s"
  by (simp add: addToReadList_def normalizeReadListItems_single)

lemma addToReadList_Some:
  "normalizeReadListItem h now entry = Inr (Some n) \<Longrightarrow>
   addToReadList h now s entry =
     setReadList h now (s\<lparr>readListEditingId := []\<rparr>)
       (filter (\<lambda>item. entry_id item \<noteq> entry_id n) (readList s) @ [n])"
  by (simp add: addToReadList_def normalizeReadListItems_single Let_def)

lemma addToReadList_returns:
  "(\<exists>s'. addToReadList h now s entry = Inr s') \<longleftrightarrow> (\<exists>r. normalizeReadListItem h now entry = Inr r)"
proof (cases "normalizeReadListItem h now entry")
  case (Inl err)
  then show ?thesis by (simp add: addToReadList_throws)
next
  case (Inr r)
  then show ?thesis
    using setReadList_returns by (cases r) (auto simp: addToReadList_None addToReadList_Some)
qed

lemma usableIds_filter: "usableIds h rl \<Longrightarrow> usableIds h (filter P rl)"
  by (simp add: usableIds_def)

lemma usableIds_append: "usableIds h (xs @ ys) \<longleftrightarrow> usableIds h xs \<and> usableIds h ys"
  by (auto simp: usableIds_def)

lemma addToReadList_ids:
  assumes ts: "trimSettles h" and n: "normalizeReadListItem h now entry = Inr (Some n)"
    and u: "usableIds h (readList s)" and s': "addToReadList h now s entry = Inr s'"
  shows "map entry_id (readList s') =
           filter (\<lambda>i. i \<noteq> entry_id n) (map entry_id (readList s)) @ [entry_id n]"
proof -
  let ?next = "filter (\<lambda>item. entry_id item \<noteq> entry_id n) (readList s) @ [n]"
  from normalized_trimmed(1,3) [OF ts n] u have "usableIds h ?next"
    by (simp add: usableIds_append usableIds_filter) (simp add: usableIds_def)
  moreover from s' have "setReadList h now (s\<lparr>readListEditingId := []\<rparr>) ?next = Inr s'"
    by (simp add: addToReadList_Some [OF n])
  ultimately have "map entry_id (readList s') = map entry_id ?next" by (rule setReadList_ids)
  then show ?thesis by (simp add: filter_map comp_def)
qed

lemma addToReadList_list:
  assumes ts: "trimSettles h" and n: "normalizeReadListItem h now entry = Inr (Some n)"
    and st: "\<forall>e \<in> set (readList s). settledEntry h e"
  shows "\<exists>s'. addToReadList h now s entry = Inr s'
           \<and> readList s' = filter (\<lambda>x. entry_id x \<noteq> entry_id n) (readList s) @ [n]"
proof -
  let ?front = "filter (\<lambda>item. entry_id item \<noteq> entry_id n) (readList s)"
  from st have "normalizeReadListItems h now (JArr (map entryValue ?front)) = Inr ?front"
    by (intro renormalized_list) simp
  moreover have "normalizeReadListItems h now (JArr (map entryValue [n])) = Inr [n]"
    using renormalized_same [OF ts n] by (simp add: normalizeReadListItems_single)
  ultimately have "normalizeReadListItems h now (JArr (map entryValue (?front @ [n]))) = Inr (?front @ [n])"
    using normalizeReadListItems_append [of h now "map entryValue ?front" "map entryValue [n]"]
    by simp
  then show ?thesis by (simp add: addToReadList_Some [OF n] setReadList_def)
qed

lemma removeFromReadList_returns: "\<exists>s'. removeFromReadList h now s targetId = Inr s'"
  by (simp add: removeFromReadList_def Let_def setReadList_returns)

lemma removeFromReadList_usable:
  "trimSettles h \<Longrightarrow> removeFromReadList h now s targetId = Inr s' \<Longrightarrow> usableIds h (readList s')"
  by (auto simp: removeFromReadList_def Let_def dest: setReadList_usable)

lemma removeFromReadList_settled:
  "trimSettles h \<Longrightarrow> clockRuns now \<Longrightarrow> removeFromReadList h now s targetId = Inr s' \<Longrightarrow>
   \<forall>e \<in> set (readList s'). settledEntry h e"
  unfolding removeFromReadList_def Let_def by (rule setReadList_settled)

lemma removeFromReadList_ids:
  assumes "usableIds h (readList s)" "removeFromReadList h now s targetId = Inr s'"
  shows "map entry_id (readList s') = filter (\<lambda>i. i \<noteq> targetId) (map entry_id (readList s))"
proof -
  let ?next = "filter (\<lambda>item. entry_id item \<noteq> targetId) (readList s)"
  from assms(1) have "usableIds h ?next" by (rule usableIds_filter)
  moreover from assms(2) obtain s1 where "setReadList h now s1 ?next = Inr s'"
    by (auto simp: removeFromReadList_def Let_def)
  ultimately have "map entry_id (readList s') = map entry_id ?next" by (rule setReadList_ids)
  then show ?thesis by (simp add: filter_map comp_def)
qed

lemma removeFromReadList_list:
  assumes "\<forall>e \<in> set (readList s). settledEntry h e" "removeFromReadList h now s targetId = Inr s'"
  shows "readList s' = filter (\<lambda>x. entry_id x \<noteq> targetId) (readList s)"
proof -
  let ?next = "filter (\<lambda>item. entry_id item \<noteq> targetId) (readList s)"
  from assms(1) have "\<forall>e \<in> set ?next. settledEntry h e" by simp
  from setReadList_list [OF this] assms(2) show ?thesis
    by (auto simp: removeFromReadList_def Let_def)
qed

lemma updateReadListNote_returns: "\<exists>s'. updateReadListNote h now s targetId note = Inr s'"
  by (simp add: updateReadListNote_def Let_def setReadList_returns)

lemma updateReadListNote_ids:
  assumes "usableIds h (readList s)" "updateReadListNote h now s targetId note = Inr s'"
  shows "map entry_id (readList s') = map entry_id (readList s)"
proof (cases "list_ex (\<lambda>item. entry_id item = targetId) (readList s)")
  case False
  with assms(2) show ?thesis by (simp add: updateReadListNote_def Let_def)
next
  case True
  let ?next = "map (\<lambda>item. if entry_id item \<noteq> targetId then item else item\<lparr>entry_note := note\<rparr>)
                 (readList s)"
  have ids: "map entry_id ?next = map entry_id (readList s)" by (induction "readList s") auto
  have "usableIds h ?next" using assms(1) by (auto simp: usableIds_def)
  moreover from assms(2) True have "setReadList h now (s\<lparr>readListEditingId := []\<rparr>) ?next = Inr s'"
    by (simp add: updateReadListNote_def Let_def)
  ultimately have "map entry_id (readList s') = map entry_id ?next" by (rule setReadList_ids)
  with ids show ?thesis by simp
qed

lemma updateReadListNote_list:
  assumes "\<forall>e \<in> set (readList s). settledEntry h e"
    "updateReadListNote h now s targetId note = Inr s'"
  shows "readList s' =
           map (\<lambda>x. if entry_id x = targetId then x\<lparr>entry_note := note\<rparr> else x) (readList s)"
proof (cases "list_ex (\<lambda>item. entry_id item = targetId) (readList s)")
  case False
  then have "map (\<lambda>x. if entry_id x = targetId then x\<lparr>entry_note := note\<rparr> else x) (readList s)
             = readList s"
    by (auto simp: list_ex_iff intro: map_idI)
  with assms(2) False show ?thesis by (simp add: updateReadListNote_def Let_def)
next
  case True
  let ?next = "map (\<lambda>item. if entry_id item \<noteq> targetId then item else item\<lparr>entry_note := note\<rparr>)
                 (readList s)"
  from assms(1) have "\<forall>e \<in> set ?next. settledEntry h e" by (auto simp: settledEntry_def)
  from setReadList_list [OF this] assms(2) True have "readList s' = ?next"
    by (auto simp: updateReadListNote_def Let_def)
  also have "?next = map (\<lambda>x. if entry_id x = targetId then x\<lparr>entry_note := note\<rparr> else x) (readList s)"
    by (rule map_cong) auto
  finally show ?thesis .
qed

lemma updateReadListNote_usable:
  assumes "trimSettles h" "usableIds h (readList s)"
    "updateReadListNote h now s targetId noteText = Inr s'"
  shows "usableIds h (readList s')"
proof (cases "list_ex (\<lambda>item. entry_id item = targetId) (readList s)")
  case False
  with assms(2,3) show ?thesis by (simp add: updateReadListNote_def Let_def)
next
  case True
  with assms(3) show ?thesis
    by (auto simp: updateReadListNote_def Let_def intro: setReadList_usable [OF assms(1)])
qed

lemma addToReadList_usable:
  assumes "trimSettles h" "usableIds h (readList s)" "addToReadList h now s entry = Inr s'"
  shows "usableIds h (readList s')"
proof (cases "normalizeReadListItem h now entry")
  case (Inl err)
  with assms(3) show ?thesis by (simp add: addToReadList_throws)
next
  case (Inr r)
  show ?thesis
  proof (cases r)
    case None
    with Inr assms(2,3) show ?thesis by (simp add: addToReadList_None)
  next
    case (Some n)
    with Inr assms(3) show ?thesis
      by (auto simp: addToReadList_Some intro: setReadList_usable [OF assms(1)])
  qed
qed

lemma applyOp_invariant:
  assumes ts: "trimSettles h" and u: "usableIds h (readList s)" and d: "uniqueIds (readList s)"
    and s': "applyOp h now s op = Inr s'"
  shows "usableIds h (readList s') \<and> uniqueIds (readList s')"
proof (cases op)
  case (Add entry)
  with s' have a: "addToReadList h now s entry = Inr s'" by simp
  from ts u a have us: "usableIds h (readList s')" by (rule addToReadList_usable)
  have "uniqueIds (readList s')"
  proof (cases "normalizeReadListItem h now entry")
    case (Inl err)
    with a show ?thesis by (simp add: addToReadList_throws)
  next
    case (Inr r)
    show ?thesis
    proof (cases r)
      case None
      with Inr a d show ?thesis by (simp add: addToReadList_None)
    next
      case (Some n)
      from addToReadList_ids [OF ts Inr [unfolded Some] u a] d show ?thesis
        by (simp add: uniqueIds_def)
    qed
  qed
  with us show ?thesis ..
next
  case (Remove t)
  with s' have r: "removeFromReadList h now s t = Inr s'" by simp
  from removeFromReadList_usable [OF ts r] removeFromReadList_ids [OF u r] d show ?thesis
    by (simp add: uniqueIds_def)
next
  case (SetNote t n)
  with s' have r: "updateReadListNote h now s t n = Inr s'" by simp
  from updateReadListNote_usable [OF ts u r] updateReadListNote_ids [OF u r] d show ?thesis
    by (simp add: uniqueIds_def)
next
  case Clear
  with s' show ?thesis by (auto simp: clearReadList_def usableIds_def uniqueIds_def)
qed

lemma applyOps_invariant:
  "trimSettles h \<Longrightarrow> usableIds h (readList s) \<Longrightarrow> uniqueIds (readList s) \<Longrightarrow>
   usableIds h (readList (applyOps h s ops)) \<and> uniqueIds (readList (applyOps h s ops))"
proof (induction ops arbitrary: s)
  case Nil
  then show ?case by simp
next
  case (Cons timed ops)
  obtain now op where timed: "timed = (now, op)" by (cases timed)
  show ?case
  proof (cases "applyOp h now s op")
    case (Inl err)
    with Cons show ?thesis by (simp add: timed)
  next
    case (Inr s')
    from applyOp_invariant [OF Cons.prems Inr] Cons.IH [OF Cons.prems(1), of s'] Inr
    show ?thesis by (simp add: timed)
  qed
qed

lemma applyOp_returns: "(\<forall>entry. op \<noteq> Add entry) \<Longrightarrow> \<exists>s'. applyOp h now s op = Inr s'"
  by (cases op) (simp_all add: removeFromReadList_returns updateReadListNote_returns)

lemma loadStoredReadList_cases:
  "loadStoredReadList h now st = []
   \<or> (\<exists>v. normalizeReadListItems h now v = Inr (loadStoredReadList h now st))"
  by (auto simp: loadStoredReadList_def split: sum.splits option.splits)

lemma loadStoredReadList_usable: "trimSettles h \<Longrightarrow> usableIds h (loadStoredReadList h now st)"
  using loadStoredReadList_cases [of h now st]
  by (auto simp: usableIds_def dest: normalized_list_usable)

lemma loadStoredReadList_settled:
  "trimSettles h \<Longrightarrow> clockRuns now \<Longrightarrow> \<forall>e \<in> set (loadStoredReadList h now st). settledEntry h e"
  using loadStoredReadList_cases [of h now st] normalized_list_settled [of h now]
  by (metis empty_iff list.set(1))

lemma initialState_readList:
  "initialState h now raw st = Inr (Some s0) \<Longrightarrow> readList s0 = loadStoredReadList h now st"
  by (auto simp: initialState_def split: list.splits sum.splits)

lemma only_one:
  "filter (\<lambda>x. entry_id x = entry_id n) (filter (\<lambda>x. entry_id x \<noteq> entry_id n) rl @ [n]) = [n]"
  by (induction rl) simp_all

text \<open>
  C5, as the claim states it, fails on a storage that holds a read list with the same id
  twice (the script reads whatever text the storage holds under the key):
  \<open>loadStoredReadList\<close> normalizes the entries and does not look for an id that occurs
  twice, so the script starts with two entries of one id, and removing another id or
  setting the note of this one keeps both. And an add of an entry that has no id adds
  nothing, so that no entry carries its fields.
\<close>

theorem loadStoredReadList_keeps_duplicates:
  "initialState exampleHost firstTime samplePayload storedTwice
     = Inr (Some \<lparr> source = ''cs.LG'',
                    preferences = \<lparr> favorite_authors = [''Malik''], pref_keywords = [] \<rparr>,
                    isEditingPreferences = False, activeSection = ''stats'',
                    displayMode = ''authors'', expandedArticles = {},
                    readList =
                      [\<lparr> entry_id = ''2401.0001'', entry_title = ''2401.0001'',
                         entry_absUrl = [], entry_pdfUrl = [], entry_authors = [],
                         entry_source = [], entry_note = ''a'',
                         entry_addedAt = Finite 1700000000000 \<rparr>,
                       \<lparr> entry_id = ''2401.0001'', entry_title = ''2401.0001'',
                         entry_absUrl = [], entry_pdfUrl = [], entry_authors = [],
                         entry_source = [], entry_note = ''b'',
                         entry_addedAt = Finite 1700000000000 \<rparr>],
                    readListEditingId = [] \<rparr>)
   \<and> map entry_id
       (readList (applyOps exampleHost
          (freshState \<lparr> readList := loadStoredReadList exampleHost firstTime storedTwice \<rparr>)
          [(laterTime, Remove ''2401.0002''), (laterTime, SetNote ''2401.0001'' ''seen'')]))
     = [''2401.0001'', ''2401.0001'']
   \<and> \<not> uniqueIds (loadStoredReadList exampleHost firstTime storedTwice)
   \<and> addToReadList exampleHost firstTime freshState (JObj [(''title'', JStr ''No id'')])
     = Inr freshState"
proof -
  have 1: "initialState exampleHost firstTime samplePayload storedTwice
     = Inr (Some \<lparr> source = ''cs.LG'',
                    preferences = \<lparr> favorite_authors = [''Malik''], pref_keywords = [] \<rparr>,
                    isEditingPreferences = False, activeSection = ''stats'',
                    displayMode = ''authors'', expandedArticles = {},
                    readList =
                      [\<lparr> entry_id = ''2401.0001'', entry_title = ''2401.0001'',
                         entry_absUrl = [], entry_pdfUrl = [], entry_authors = [],
                         entry_source = [], entry_note = ''a'',
                         entry_addedAt = Finite 1700000000000 \<rparr>,
                       \<lparr> entry_id = ''2401.0001'', entry_title = ''2401.0001'',
                         entry_absUrl = [], entry_pdfUrl = [], entry_authors = [],
                         entry_source = [], entry_note = ''b'',
                         entry_addedAt = Finite 1700000000000 \<rparr>],
                    readListEditingId = [] \<rparr>)"
    by code_simp
  have 2: "map entry_id
       (readList (applyOps exampleHost
          (freshState \<lparr> readList := loadStoredReadList exampleHost firstTime storedTwice \<rparr>)
          [(laterTime, Remove ''2401.0002''), (laterTime, SetNote ''2401.0001'' ''seen'')]))
     = [''2401.0001'', ''2401.0001'']"
    by code_simp
  have 3: "\<not> uniqueIds (loadStoredReadList exampleHost firstTime storedTwice)"
    by code_simp
  have 4: "addToReadList exampleHost firstTime freshState (JObj [(''title'', JStr ''No id'')])
     = Inr freshState"
    by code_simp
  from 1 2 3 4 show ?thesis by (intro conjI)
qed

text \<open>
  C5, amended. A read list whose ids are unique keeps unique ids under every operation
  (add, remove, set-note, clear), and so along every run of operations: from the empty
  list, and from the list that the script starts with whenever that list has unique ids.
  The list read from the storage is not searched for an id that occurs twice; a list with
  unique ids that was saved is loaded with unique ids. An add keeps the ids other than the
  new one in their order and puts the new id last, a remove takes the id out, set-note
  leaves the ids as they are; only an add can throw (on an entry that cannot be printed),
  and it then changes nothing. For every read list, after add, remove, add, or after two
  adds, an entry with a usable id that was added last is the only entry with its id,
  carries the fields of that add, and stands last, behind the entries with other ids,
  which are unchanged and in their order. All this on a host whose \<^verbatim>\<open>trim\<close> settles;
  the entries of a list are unchanged by a later operation when the clock ran (showed a
  time other than 0 and not-a-number) at the operation that set the list.
\<close>

theorem readList_unique_ids:
  "trimSettles h \<longrightarrow>
   (\<forall>s'. usableIds h (readList s) \<and> uniqueIds (readList s) \<and> applyOp h now s op = Inr s' \<longrightarrow>
      usableIds h (readList s') \<and> uniqueIds (readList s'))
   \<and> (usableIds h (readList s) \<and> uniqueIds (readList s) \<longrightarrow>
        uniqueIds (readList (applyOps h s ops)))
   \<and> (readList s = [] \<longrightarrow> uniqueIds (readList (applyOps h s ops)))
   \<and> usableIds h (loadStoredReadList h now st)
   \<and> (\<forall>s0. initialState h now raw st = Inr (Some s0) \<and> uniqueIds (readList s0) \<longrightarrow>
        uniqueIds (readList (applyOps h s0 ops)))
   \<and> (\<forall>kvs stored rl. map_of kvs READ_LIST_STORAGE_KEY = Some stored
          \<and> jsonParse h stored = Some (JArr (map entryValue rl))
          \<and> usableIds h rl \<and> uniqueIds rl \<longrightarrow>
        uniqueIds (loadStoredReadList h now (Stored kvs)))
   \<and> ((\<forall>entry. op \<noteq> Add entry) \<longrightarrow> (\<exists>s'. applyOp h now s op = Inr s'))
   \<and> ((\<exists>s'. addToReadList h now s e = Inr s') \<longleftrightarrow> (\<exists>r. normalizeReadListItem h now e = Inr r))
   \<and> (usableIds h (readList s) \<longrightarrow>
        (\<forall>s' n. addToReadList h now s e = Inr s' \<and> normalizeReadListItem h now e = Inr (Some n) \<longrightarrow>
           map entry_id (readList s')
             = filter (\<lambda>i. i \<noteq> entry_id n) (map entry_id (readList s)) @ [entry_id n])
        \<and> (\<forall>s'. removeFromReadList h now s r = Inr s' \<longrightarrow>
              map entry_id (readList s') = filter (\<lambda>i. i \<noteq> r) (map entry_id (readList s)))
        \<and> (\<forall>s'. updateReadListNote h now s r noteText = Inr s' \<longrightarrow>
              map entry_id (readList s') = map entry_id (readList s)))
   \<and> ((\<forall>x \<in> set (readList s). settledEntry h x) \<longrightarrow>
        (\<forall>n. normalizeReadListItem h now e = Inr (Some n) \<longrightarrow>
           (\<exists>s'. addToReadList h now s e = Inr s'
              \<and> readList s' = filter (\<lambda>x. entry_id x \<noteq> entry_id n) (readList s) @ [n]))
        \<and> (\<forall>s'. removeFromReadList h now s r = Inr s' \<longrightarrow>
              readList s' = filter (\<lambda>x. entry_id x \<noteq> r) (readList s))
        \<and> (\<forall>s'. updateReadListNote h now s r noteText = Inr s' \<longrightarrow>
              readList s'
                = map (\<lambda>x. if entry_id x = r then x\<lparr>entry_note := noteText\<rparr> else x) (readList s)))
   \<and> (clockRuns now \<longrightarrow> (\<forall>x \<in> set (loadStoredReadList h now st). settledEntry h x))
   \<and> (\<forall>s1 s2 n. clockRuns now2
          \<and> addToReadList h now1 s e = Inr s1
          \<and> removeFromReadList h now2 s1 r = Inr s2
          \<and> normalizeReadListItem h now3 e' = Inr (Some n) \<longrightarrow>
        (\<exists>s3. addToReadList h now3 s2 e' = Inr s3
           \<and> readList s3 = filter (\<lambda>x. entry_id x \<noteq> entry_id n) (readList s2) @ [n]
           \<and> filter (\<lambda>x. entry_id x = entry_id n) (readList s3) = [n]))
   \<and> (\<forall>s1 m n. clockRuns now1
          \<and> normalizeReadListItem h now1 e = Inr (Some m)
          \<and> addToReadList h now1 s e = Inr s1
          \<and> normalizeReadListItem h now3 e' = Inr (Some n) \<longrightarrow>
        (\<exists>s3. addToReadList h now3 s1 e' = Inr s3
           \<and> readList s3 = filter (\<lambda>x. entry_id x \<noteq> entry_id n) (readList s1) @ [n]
           \<and> filter (\<lambda>x. entry_id x = entry_id n) (readList s3) = [n]))"
proof
  assume ts: "trimSettles h"
  have step: "\<forall>s'. usableIds h (readList s) \<and> uniqueIds (readList s) \<and> applyOp h now s op = Inr s' \<longrightarrow>
      usableIds h (readList s') \<and> uniqueIds (readList s')"
    using applyOp_invariant [OF ts] by blast
  have run: "usableIds h (readList s) \<and> uniqueIds (readList s) \<longrightarrow>
        uniqueIds (readList (applyOps h s ops))"
    using applyOps_invariant [OF ts, of s ops] by simp
  have empty: "readList s = [] \<longrightarrow> uniqueIds (readList (applyOps h s ops))"
  proof
    assume "readList s = []"
    then have "usableIds h (readList s)" "uniqueIds (readList s)"
      by (simp_all add: usableIds_def uniqueIds_def)
    then show "uniqueIds (readList (applyOps h s ops))"
      using applyOps_invariant [OF ts, of s ops] by simp
  qed
  have load: "usableIds h (loadStoredReadList h now st)"
    using ts by (rule loadStoredReadList_usable)
  have start: "\<forall>s0. initialState h now raw st = Inr (Some s0) \<and> uniqueIds (readList s0) \<longrightarrow>
        uniqueIds (readList (applyOps h s0 ops))"
  proof (intro allI impI)
    fix s0
    assume a: "initialState h now raw st = Inr (Some s0) \<and> uniqueIds (readList s0)"
    then have "initialState h now raw st = Inr (Some s0)" ..
    then have "readList s0 = loadStoredReadList h now st"
      by (rule initialState_readList)
    with load have "usableIds h (readList s0)" by simp
    with a show "uniqueIds (readList (applyOps h s0 ops))"
      using applyOps_invariant [OF ts, of s0 ops] by simp
  qed
  have saved: "\<forall>kvs stored rl. map_of kvs READ_LIST_STORAGE_KEY = Some stored
          \<and> jsonParse h stored = Some (JArr (map entryValue rl))
          \<and> usableIds h rl \<and> uniqueIds rl \<longrightarrow>
        uniqueIds (loadStoredReadList h now (Stored kvs))"
  proof (intro allI impI)
    fix kvs stored rl
    assume a: "map_of kvs READ_LIST_STORAGE_KEY = Some stored
          \<and> jsonParse h stored = Some (JArr (map entryValue rl))
          \<and> usableIds h rl \<and> uniqueIds rl"
    from renormalized_returns [of h now rl] obtain rl'
      where rl': "normalizeReadListItems h now (JArr (map entryValue rl)) = Inr rl'" by blast
    from a have "usableIds h rl" by simp
    from this rl' have "map entry_id rl' = map entry_id rl" by (rule renormalized_ids)
    with a rl' show "uniqueIds (loadStoredReadList h now (Stored kvs))"
      by (simp add: loadStoredReadList_def getItem_def uniqueIds_def)
  qed
  have others: "(\<forall>entry. op \<noteq> Add entry) \<longrightarrow> (\<exists>s'. applyOp h now s op = Inr s')"
    using applyOp_returns by blast
  have add: "(\<exists>s'. addToReadList h now s e = Inr s') \<longleftrightarrow> (\<exists>r. normalizeReadListItem h now e = Inr r)"
    by (rule addToReadList_returns)
  have ids: "usableIds h (readList s) \<longrightarrow>
        (\<forall>s' n. addToReadList h now s e = Inr s' \<and> normalizeReadListItem h now e = Inr (Some n) \<longrightarrow>
           map entry_id (readList s')
             = filter (\<lambda>i. i \<noteq> entry_id n) (map entry_id (readList s)) @ [entry_id n])
        \<and> (\<forall>s'. removeFromReadList h now s r = Inr s' \<longrightarrow>
              map entry_id (readList s') = filter (\<lambda>i. i \<noteq> r) (map entry_id (readList s)))
        \<and> (\<forall>s'. updateReadListNote h now s r noteText = Inr s' \<longrightarrow>
              map entry_id (readList s') = map entry_id (readList s))"
    using addToReadList_ids [OF ts] removeFromReadList_ids updateReadListNote_ids by blast
  have lists: "(\<forall>x \<in> set (readList s). settledEntry h x) \<longrightarrow>
        (\<forall>n. normalizeReadListItem h now e = Inr (Some n) \<longrightarrow>
           (\<exists>s'. addToReadList h now s e = Inr s'
              \<and> readList s' = filter (\<lambda>x. entry_id x \<noteq> entry_id n) (readList s) @ [n]))
        \<and> (\<forall>s'. removeFromReadList h now s r = Inr s' \<longrightarrow>
              readList s' = filter (\<lambda>x. entry_id x \<noteq> r) (readList s))
        \<and> (\<forall>s'. updateReadListNote h now s r noteText = Inr s' \<longrightarrow>
              readList s'
                = map (\<lambda>x. if entry_id x = r then x\<lparr>entry_note := noteText\<rparr> else x) (readList s))"
    using addToReadList_list [OF ts] removeFromReadList_list updateReadListNote_list by blast
  have loaded: "clockRuns now \<longrightarrow> (\<forall>x \<in> set (loadStoredReadList h now st). settledEntry h x)"
    using loadStoredReadList_settled [OF ts] by blast
  have last: "\<exists>s3. addToReadList h now3 s2 e' = Inr s3
           \<and> readList s3 = filter (\<lambda>x. entry_id x \<noteq> entry_id n) (readList s2) @ [n]
           \<and> filter (\<lambda>x. entry_id x = entry_id n) (readList s3) = [n]"
    if "\<forall>x \<in> set (readList s2). settledEntry h x" "normalizeReadListItem h now3 e' = Inr (Some n)"
    for s2 n
  proof -
    from addToReadList_list [OF ts that(2,1)] obtain s3
      where s3: "addToReadList h now3 s2 e' = Inr s3"
        "readList s3 = filter (\<lambda>x. entry_id x \<noteq> entry_id n) (readList s2) @ [n]" by blast
    from s3(2) have "filter (\<lambda>x. entry_id x = entry_id n) (readList s3) = [n]"
      by (simp only: only_one)
    with s3 show ?thesis by blast
  qed
  have three: "\<forall>s1 s2 n. clockRuns now2
          \<and> addToReadList h now1 s e = Inr s1
          \<and> removeFromReadList h now2 s1 r = Inr s2
          \<and> normalizeReadListItem h now3 e' = Inr (Some n) \<longrightarrow>
        (\<exists>s3. addToReadList h now3 s2 e' = Inr s3
           \<and> readList s3 = filter (\<lambda>x. entry_id x \<noteq> entry_id n) (readList s2) @ [n]
           \<and> filter (\<lambda>x. entry_id x = entry_id n) (readList s3) = [n])"
  proof (intro allI impI)
    fix s1 s2 n
    assume a: "clockRuns now2
          \<and> addToReadList h now1 s e = Inr s1
          \<and> removeFromReadList h now2 s1 r = Inr s2
          \<and> normalizeReadListItem h now3 e' = Inr (Some n)"
    then have "\<forall>x \<in> set (readList s2). settledEntry h x"
      using removeFromReadList_settled [OF ts, of now2 s1 r s2] by blast
    with a show "\<exists>s3. addToReadList h now3 s2 e' = Inr s3
           \<and> readList s3 = filter (\<lambda>x. entry_id x \<noteq> entry_id n) (readList s2) @ [n]
           \<and> filter (\<lambda>x. entry_id x = entry_id n) (readList s3) = [n]"
      by (intro last) simp_all
  qed
  have two: "\<forall>s1 m n. clockRuns now1
          \<and> normalizeReadListItem h now1 e = Inr (Some m)
          \<and> addToReadList h now1 s e = Inr s1
          \<and> normalizeReadListItem h now3 e' = Inr (Some n) \<longrightarrow>
        (\<exists>s3. addToReadList h now3 s1 e' = Inr s3
           \<and> readList s3 = filter (\<lambda>x. entry_id x \<noteq> entry_id n) (readList s1) @ [n]
           \<and> filter (\<lambda>x. entry_id x = entry_id n) (readList s3) = [n])"
  proof (intro allI impI)
    fix s1 m n
    assume a: "clockRuns now1
          \<and> normalizeReadListItem h now1 e = Inr (Some m)
          \<and> addToReadList h now1 s e = Inr s1
          \<and> normalizeReadListItem h now3 e' = Inr (Some n)"
    then have c: "clockRuns now1" and m: "normalizeReadListItem h now1 e = Inr (Some m)"
      and s1: "addToReadList h now1 s e = Inr s1" by simp_all
    from s1 have "setReadList h now1 (s\<lparr>readListEditingId := []\<rparr>)
                 (filter (\<lambda>item. entry_id item \<noteq> entry_id m) (readList s) @ [m]) = Inr s1"
      unfolding addToReadList_Some [OF m] .
    with ts c have "\<forall>x \<in> set (readList s1). settledEntry h x"
      by (rule setReadList_settled)
    with a show "\<exists>s3. addToReadList h now3 s1 e' = Inr s3
           \<and> readList s3 = filter (\<lambda>x. entry_id x \<noteq> entry_id n) (readList s1) @ [n]
           \<and> filter (\<lambda>x. entry_id x = entry_id n) (readList s3) = [n]"
      by (intro last) simp_all
  qed
  from step run empty load start saved others add ids lists loaded three two
  show "(\<forall>s'. usableIds h (readList s) \<and> uniqueIds (readList s) \<and> applyOp h now s op = Inr s' \<longrightarrow>
      usableIds h (readList s') \<and> uniqueIds (readList s'))
   \<and> (usableIds h (readList s) \<and> uniqueIds (readList s) \<longrightarrow>
        uniqueIds (readList (applyOps h s ops)))
   \<and> (readList s = [] \<longrightarrow> uniqueIds (readList (applyOps h s ops)))
   \<and> usableIds h (loadStoredReadList h now st)
   \<and> (\<forall>s0. initialState h now raw st = Inr (Some s0) \<and> uniqueIds (readList s0) \<longrightarrow>
        uniqueIds (readList (applyOps h s0 ops)))
   \<and> (\<forall>kvs stored rl. map_of kvs READ_LIST_STORAGE_KEY = Some stored
          \<and> jsonParse h stored = Some (JArr (map entryValue rl))
          \<and> usableIds h rl \<and> uniqueIds rl \<longrightarrow>
        uniqueIds (loadStoredReadList h now (Stored kvs)))
   \<and> ((\<forall>entry. op \<noteq> Add entry) \<longrightarrow> (\<exists>s'. applyOp h now s op = Inr s'))
   \<and> ((\<exists>s'. addToReadList h now s e = Inr s') \<longleftrightarrow> (\<exists>r. normalizeReadListItem h now e = Inr r))
   \<and> (usableIds h (readList s) \<longrightarrow>
        (\<forall>s' n. addToReadList h now s e = Inr s' \<and> normalizeReadListItem h now e = Inr (Some n) \<longrightarrow>
           map entry_id (readList s')
             = filter (\<lambda>i. i \<noteq> entry_id n) (map entry_id (readList s)) @ [entry_id n])
        \<and> (\<forall>s'. removeFromReadList h now s r = Inr s' \<longrightarrow>
              map entry_id (readList s') = filter (\<lambda>i. i \<noteq> r) (map entry_id (readList s)))
        \<and> (\<forall>s'. updateReadListNote h now s r noteText = Inr s' \<longrightarrow>
              map entry_id (readList s') = map entry_id (readList s)))
   \<and> ((\<forall>x \<in> set (readList s). settledEntry h x) \<longrightarrow>
        (\<forall>n. normalizeReadListItem h now e = Inr (Some n) \<longrightarrow>
           (\<exists>s'. addToReadList h now s e = Inr s'
              \<and> readList s' = filter (\<lambda>x. entry_id x \<noteq> entry_id n) (readList s) @ [n]))
        \<and> (\<forall>s'. removeFromReadList h now s r = Inr s' \<longrightarrow>
              readList s' = filter (\<lambda>x. entry_id x \<noteq> r) (readList s))
        \<and> (\<forall>s'. updateReadListNote h now s r noteText = Inr s' \<longrightarrow>
              readList s'
                = map (\<lambda>x. if entry_id x = r then x\<lparr>entry_note := noteText\<rparr> else x) (readList s)))
   \<and> (clockRuns now \<longrightarrow> (\<forall>x \<in> set (loadStoredReadList h now st). settledEntry h x))
   \<and> (\<forall>s1 s2 n. clockRuns now2
          \<and> addToReadList h now1 s e = Inr s1
          \<and> removeFromReadList h now2 s1 r = Inr s2
          \<and> normalizeReadListItem h now3 e' = Inr (Some n) \<longrightarrow>
        (\<exists>s3. addToReadList h now3 s2 e' = Inr s3
           \<and> readList s3 = filter (\<lambda>x. entry_id x \<noteq> entry_id n) (readList s2) @ [n]
           \<and> filter (\<lambda>x. entry_id x = entry_id n) (readList s3) = [n]))
   \<and> (\<forall>s1 m n. clockRuns now1
          \<and> normalizeReadListItem h now1 e = Inr (Some m)
          \<and> addToReadList h now1 s e = Inr s1
          \<and> normalizeReadListItem h now3 e' = Inr (Some n) \<longrightarrow>
        (\<exists>s3. addToReadList h now3 s1 e' = Inr s3
           \<and> readList s3 = filter (\<lambda>x. entry_id x \<noteq> entry_id n) (readList s1) @ [n]
           \<and> filter (\<lambda>x. entry_id x = entry_id n) (readList s3) = [n]))"
    by (intro conjI)
qed

theorem readList_unique_ids_witness:
  "trimSettles exampleHost \<and> clockRuns firstTime
   \<and> normalizeReadListItem exampleHost firstTime markedFirst
     = Inr (Some \<lparr> entry_id = ''2401.0001'', entry_title = ''Learning to See by Moving'',
                    entry_absUrl = ''https://arxiv.org/abs/2401.0001'', entry_pdfUrl = [],
                    entry_authors = [], entry_source = [], entry_note = ''first'',
                    entry_addedAt = Finite 1700000000000 \<rparr>)
   \<and> normalizeReadListItem exampleHost laterTime markedSecond
     = Inr (Some \<lparr> entry_id = ''2401.0001'', entry_title = ''Learning to See by Moving'',
                    entry_absUrl = ''https://arxiv.org/abs/2401.0001'', entry_pdfUrl = [],
                    entry_authors = [], entry_source = [], entry_note = ''second'',
                    entry_addedAt = Finite 1700000060000 \<rparr>)
   \<and> addToReadList exampleHost firstTime freshState markedFirst
     = Inr (freshState \<lparr> readList :=
              [\<lparr> entry_id = ''2401.0001'', entry_title = ''Learning to See by Moving'',
                 entry_absUrl = ''https://arxiv.org/abs/2401.0001'', entry_pdfUrl = [],
                 entry_authors = [], entry_source = [], entry_note = ''first'',
                 entry_addedAt = Finite 1700000000000 \<rparr>] \<rparr>)
   \<and> addToReadList exampleHost laterTime
       (freshState \<lparr> readList :=
              [\<lparr> entry_id = ''2401.0001'', entry_title = ''Learning to See by Moving'',
                 entry_absUrl = ''https://arxiv.org/abs/2401.0001'', entry_pdfUrl = [],
                 entry_authors = [], entry_source = [], entry_note = ''first'',
                 entry_addedAt = Finite 1700000000000 \<rparr>] \<rparr>)
       markedSecond
     = Inr (freshState \<lparr> readList :=
              [\<lparr> entry_id = ''2401.0001'', entry_title = ''Learning to See by Moving'',
                 entry_absUrl = ''https://arxiv.org/abs/2401.0001'', entry_pdfUrl = [],
                 entry_authors = [], entry_source = [], entry_note = ''second'',
                 entry_addedAt = Finite 1700000060000 \<rparr>] \<rparr>)
   \<and> (\<exists>s3. addToReadList exampleHost laterTime
              (freshState \<lparr> readList :=
                [\<lparr> entry_id = ''2401.0001'', entry_title = ''Learning to See by Moving'',
                   entry_absUrl = ''https://arxiv.org/abs/2401.0001'', entry_pdfUrl = [],
                   entry_authors = [], entry_source = [], entry_note = ''first'',
                   entry_addedAt = Finite 1700000000000 \<rparr>] \<rparr>)
              markedSecond = Inr s3
          \<and> filter (\<lambda>x. entry_id x = ''2401.0001'') (readList s3)
              = [\<lparr> entry_id = ''2401.0001'', entry_title = ''Learning to See by Moving'',
                   entry_absUrl = ''https://arxiv.org/abs/2401.0001'', entry_pdfUrl = [],
                   entry_authors = [], entry_source = [], entry_note = ''second'',
                   entry_addedAt = Finite 1700000060000 \<rparr>])
   \<and> readList freshState = []
   \<and> uniqueIds (readList (applyOps exampleHost freshState
        [(firstTime, Add markedFirst), (firstTime, Remove ''2401.0001''),
         (laterTime, Add markedSecond), (laterTime, SetNote ''2401.0001'' ''third'')]))"
proof -
  let ?m = "\<lparr> entry_id = ''2401.0001'', entry_title = ''Learning to See by Moving'',
          entry_absUrl = ''https://arxiv.org/abs/2401.0001'', entry_pdfUrl = [],
          entry_authors = [], entry_source = [], entry_note = ''first'',
          entry_addedAt = Finite 1700000000000 \<rparr>"
  let ?n = "\<lparr> entry_id = ''2401.0001'', entry_title = ''Learning to See by Moving'',
          entry_absUrl = ''https://arxiv.org/abs/2401.0001'', entry_pdfUrl = [],
          entry_authors = [], entry_source = [], entry_note = ''second'',
          entry_addedAt = Finite 1700000060000 \<rparr>"
  let ?s1 = "freshState \<lparr> readList := [?m] \<rparr>"
  let ?ops = "[(firstTime, Add markedFirst), (firstTime, Remove ''2401.0001''),
               (laterTime, Add markedSecond), (laterTime, SetNote ''2401.0001'' ''third'')]"
  have clock: "clockRuns firstTime"
    by (simp add: clockRuns_def firstTime_def)
  have m: "normalizeReadListItem exampleHost firstTime markedFirst = Inr (Some ?m)"
    by code_simp
  have n: "normalizeReadListItem exampleHost laterTime markedSecond = Inr (Some ?n)"
    by code_simp
  have s1: "addToReadList exampleHost firstTime freshState markedFirst = Inr ?s1"
    by code_simp
  have s3: "addToReadList exampleHost laterTime ?s1 markedSecond
              = Inr (freshState \<lparr> readList := [?n] \<rparr>)"
    by code_simp
  have fresh: "readList freshState = []"
    by (simp add: freshState_def)
  note inst = readList_unique_ids [where h = exampleHost and s = freshState and ops = ?ops
      and e = markedFirst and e' = markedSecond and ?now1.0 = firstTime and ?now3.0 = laterTime,
      THEN mp, OF trimSettles_example]
  note run = inst [THEN conjunct2, THEN conjunct2, THEN conjunct1, THEN mp, OF fresh]
  note two = inst [THEN conjunct2, THEN conjunct2, THEN conjunct2, THEN conjunct2,
      THEN conjunct2, THEN conjunct2, THEN conjunct2, THEN conjunct2, THEN conjunct2,
      THEN conjunct2, THEN conjunct2, THEN conjunct2,
      THEN spec, THEN spec, THEN spec, THEN mp, OF conjI [OF clock conjI [OF m conjI [OF s1 n]]]]
  from two obtain s3' where
    a: "addToReadList exampleHost laterTime ?s1 markedSecond = Inr s3'"
    and b: "filter (\<lambda>x. entry_id x = entry_id ?n) (readList s3') = [?n]"
    by blast
  from b have "filter (\<lambda>x. entry_id x = ''2401.0001'') (readList s3') = [?n]"
    by (simp only: readListEntry.select_convs)
  with a have once: "\<exists>s3. addToReadList exampleHost laterTime ?s1 markedSecond = Inr s3
      \<and> filter (\<lambda>x. entry_id x = ''2401.0001'') (readList s3) = [?n]"
    by blast
  from trimSettles_example clock m n s1 s3 once fresh run show ?thesis by (intro conjI)
qed

section \<open>Properties of the expanded state\<close>

text \<open>
  C9. The expanded state computed for the card of an article is true if and only if the
  display mode is \<open>full\<close> or the id of the article is in the expansion set: in mode
  \<open>full\<close> every article is expanded whatever the set holds, in another mode exactly the
  ids of the set are. \<open>renderArticleCard\<close> computes it so for every set;
  \<open>updatePaperAria\<close> for every set without the empty id, and the expansion set never
  holds the empty id: it starts empty and \<open>togglePaperExpansion\<close> does not add it. A
  change of the display mode leaves the set as it is.
\<close>

theorem expanded_iff_full_or_user_expanded:
  "ariaExpanded s a = (displayMode s = ''full'' \<or> articleId a \<in> expandedArticles s)
   \<and> ([] \<notin> expandedArticles s \<longrightarrow>
        isExpanded s paperId = (displayMode s = ''full'' \<or> paperId \<in> expandedArticles s))
   \<and> (displayMode s = ''full'' \<longrightarrow> ariaExpanded s a \<and> isExpanded s paperId)
   \<and> (displayMode s \<noteq> ''full'' \<and> [] \<notin> expandedArticles s \<longrightarrow>
        ariaExpanded s a = (articleId a \<in> expandedArticles s)
        \<and> isExpanded s paperId = (paperId \<in> expandedArticles s))
   \<and> ([] \<notin> expandedArticles s \<longrightarrow> [] \<notin> expandedArticles (togglePaperExpansion s toggled))
   \<and> expandedArticles (setDisplayMode h s mode) = expandedArticles s
   \<and> (\<forall>s0. initialState h now raw st = Inr (Some s0) \<longrightarrow> expandedArticles s0 = {})"
proof -
  have card: "ariaExpanded s a = (displayMode s = ''full'' \<or> articleId a \<in> expandedArticles s)"
    by (simp add: ariaExpanded_def)
  have paper: "[] \<notin> expandedArticles s \<longrightarrow>
        isExpanded s paperId = (displayMode s = ''full'' \<or> paperId \<in> expandedArticles s)"
    by (auto simp: isExpanded_def)
  have toggle: "[] \<notin> expandedArticles s \<longrightarrow> [] \<notin> expandedArticles (togglePaperExpansion s toggled)"
    by (auto simp: togglePaperExpansion_def)
  have mode: "expandedArticles (setDisplayMode h s mode) = expandedArticles s"
    by (simp add: setDisplayMode_def Let_def)
  have init: "\<forall>s0. initialState h now raw st = Inr (Some s0) \<longrightarrow> expandedArticles s0 = {}"
    by (auto simp: initialState_def split: list.splits sum.splits)
  have full: "displayMode s = ''full'' \<longrightarrow> ariaExpanded s a \<and> isExpanded s paperId"
    by (simp add: ariaExpanded_def isExpanded_def)
  have other: "displayMode s \<noteq> ''full'' \<and> [] \<notin> expandedArticles s \<longrightarrow>
        ariaExpanded s a = (articleId a \<in> expandedArticles s)
        \<and> isExpanded s paperId = (paperId \<in> expandedArticles s)"
    by (auto simp: ariaExpanded_def isExpanded_def)
  from card paper full other toggle mode init show ?thesis by (intro conjI)
qed

theorem expanded_iff_full_or_user_expanded_witness:
  "isExpanded (freshState \<lparr> displayMode := ''title'', expandedArticles := {''2401.0001''} \<rparr>) ''2401.0001''
   \<and> \<not> isExpanded (freshState \<lparr> displayMode := ''title'', expandedArticles := {''2401.0001''} \<rparr>) ''2401.0002''
   \<and> isExpanded (freshState \<lparr> displayMode := ''full'', expandedArticles := {''2401.0001''} \<rparr>) ''2401.0002''
   \<and> ariaExpanded (freshState \<lparr> displayMode := ''full'' \<rparr>) paperMalik"
proof -
  let ?s = "freshState \<lparr> displayMode := ''title'', expandedArticles := {''2401.0001''} \<rparr>"
  let ?f = "freshState \<lparr> displayMode := ''full'', expandedArticles := {''2401.0001''} \<rparr>"
  have e: "[] \<notin> expandedArticles ?s" "displayMode ?s \<noteq> ''full''"
    "''2401.0001'' \<in> expandedArticles ?s" "''2401.0002'' \<notin> expandedArticles ?s" by simp_all
  have f: "displayMode ?f = ''full''" "displayMode (freshState \<lparr> displayMode := ''full'' \<rparr>) = ''full''"
    by simp_all
  from expanded_iff_full_or_user_expanded [of ?s paperMalik "''2401.0001''"] e
  have 1: "isExpanded ?s ''2401.0001''" by blast
  from expanded_iff_full_or_user_expanded [of ?s paperMalik "''2401.0002''"] e
  have 2: "\<not> isExpanded ?s ''2401.0002''" by blast
  from expanded_iff_full_or_user_expanded [of ?f paperMalik "''2401.0002''"] f
  have 3: "isExpanded ?f ''2401.0002''" by blast
  from expanded_iff_full_or_user_expanded
         [of "freshState \<lparr> displayMode := ''full'' \<rparr>" paperMalik "''2401.0002''"] f
  have 4: "ariaExpanded (freshState \<lparr> displayMode := ''full'' \<rparr>) paperMalik" by blast
  from 1 2 3 4 show ?thesis by (intro conjI)
qed

section \<open>Properties of the loads\<close>

lemma defaults_normalized:
  assumes "trimSettles h" "normalizePreferences h x = Inr initialPreferences"
  shows "normalizePreferences h (preferencesValue initialPreferences) = Inr initialPreferences"
  using normalizePreferences_clean [OF assms] by (simp add: normalizePreferences_fixed)

lemma loadStoredPreferences_none:
  "noStoredValue st PREF_STORAGE_KEY \<Longrightarrow>
   loadStoredPreferences h st initialPreferences
     = normalizePreferences h (preferencesValue initialPreferences)"
  by (auto simp: loadStoredPreferences_def noStoredValue_def Let_def split: sum.splits option.splits)

lemma loadStoredPreferences_unparsed:
  "storedValue st PREF_STORAGE_KEY v \<Longrightarrow> jsonParse h v = None \<Longrightarrow>
   loadStoredPreferences h st initialPreferences
     = normalizePreferences h (preferencesValue initialPreferences)"
  by (simp add: loadStoredPreferences_def storedValue_def Let_def)

lemma loadStoredPreferences_throws:
  "storedValue st PREF_STORAGE_KEY v \<Longrightarrow> jsonParse h v = Some parsed \<Longrightarrow>
   normalizePreferences h parsed = Inl err \<Longrightarrow>
   loadStoredPreferences h st initialPreferences
     = normalizePreferences h (preferencesValue initialPreferences)"
  by (simp add: loadStoredPreferences_def storedValue_def Let_def)

lemma loadStoredPreferences_parsed:
  "storedValue st PREF_STORAGE_KEY v \<Longrightarrow> jsonParse h v = Some parsed \<Longrightarrow>
   normalizePreferences h parsed = Inr p \<Longrightarrow>
   loadStoredPreferences h st initialPreferences = Inr p"
  by (simp add: loadStoredPreferences_def storedValue_def Let_def)

lemma loadStoredPreferences_returns: "\<exists>p. loadStoredPreferences h st initialPreferences = Inr p"
  using normalizePreferences_typed [of h initialPreferences]
  by (auto simp: loadStoredPreferences_def Let_def split: sum.splits option.splits)

text \<open>The state that the script starts with, for a payload with a source.\<close>

lemma initialState_Some:
  assumes "map fst (sources raw) = firstKey # others"
    and "normalizePreferences h (orElse (raw_preferences raw) (JObj [])) = Inr initialPreferences"
  shows "\<exists>prefs. loadStoredPreferences h st initialPreferences = Inr prefs
           \<and> initialState h now raw st =
               Inr (Some \<lparr> source = chooseSource raw firstKey (loadStoredSource st),
                            preferences = prefs,
                            isEditingPreferences = False,
                            activeSection = ''stats'',
                            displayMode = (let m = loadStoredDisplayMode h st
                                           in if m \<noteq> [] then m else ''authors''),
                            expandedArticles = {},
                            readList = loadStoredReadList h now st,
                            readListEditingId = [] \<rparr>)"
proof -
  from loadStoredPreferences_returns [of h st initialPreferences]
  obtain prefs where "loadStoredPreferences h st initialPreferences = Inr prefs" by blast
  with assms show ?thesis by (simp add: initialState_def)
qed

lemma initialState_error:
  "initialState h now raw st = Inl e \<longleftrightarrow>
     sources raw \<noteq> []
     \<and> normalizePreferences h (orElse (raw_preferences raw) (JObj [])) = Inl e"
proof (cases "map fst (sources raw)")
  case Nil
  then show ?thesis by (simp add: initialState_def)
next
  case (Cons firstKey others)
  then have ne: "sources raw \<noteq> []" by auto
  show ?thesis
  proof (cases "normalizePreferences h (orElse (raw_preferences raw) (JObj []))")
    case (Inl err)
    with Cons ne show ?thesis by (simp add: initialState_def)
  next
    case (Inr p)
    from initialState_Some [OF Cons Inr, of st now] Inr show ?thesis by auto
  qed
qed

lemma initialState_None: "initialState h now raw st = Inr None \<longleftrightarrow> sources raw = []"
proof (cases "map fst (sources raw)")
  case Nil
  then show ?thesis by (simp add: initialState_def)
next
  case (Cons firstKey others)
  then have ne: "sources raw \<noteq> []" by auto
  show ?thesis
  proof (cases "normalizePreferences h (orElse (raw_preferences raw) (JObj []))")
    case (Inl err)
    with Cons ne show ?thesis by (simp add: initialState_def)
  next
    case (Inr p)
    from initialState_Some [OF Cons Inr, of st now] ne show ?thesis by auto
  qed
qed

lemma loadStoredDisplayMode_none:
  "noStoredValue st DISPLAY_MODE_STORAGE_KEY \<Longrightarrow> loadStoredDisplayMode h st = []"
  by (auto simp: loadStoredDisplayMode_def noStoredValue_def split: sum.splits option.splits)

lemma loadStoredDisplayMode_stored:
  "storedValue st DISPLAY_MODE_STORAGE_KEY v \<Longrightarrow>
   loadStoredDisplayMode h st = normalizeDisplayMode h (JStr v)"
  by (simp add: loadStoredDisplayMode_def storedValue_def)

lemma normalizeDisplayMode_not_empty: "normalizeDisplayMode h v \<noteq> []"
  by (cases v) (auto simp: normalizeDisplayMode_def DISPLAY_MODE_CLASSES_def Let_def)

lemma normalizeDisplayMode_unknown:
  "toLowerCase h (trim h v) \<notin> {''title'', ''authors'', ''full''} \<Longrightarrow>
   normalizeDisplayMode h (JStr v) = ''full''"
  by (simp add: normalizeDisplayMode_def DISPLAY_MODE_CLASSES_def Let_def)

lemma loadStoredReadList_none:
  "noStoredValue st READ_LIST_STORAGE_KEY \<Longrightarrow> loadStoredReadList h now st = []"
  by (auto simp: loadStoredReadList_def noStoredValue_def split: sum.splits option.splits)

lemma loadStoredReadList_unparsed:
  "storedValue st READ_LIST_STORAGE_KEY v \<Longrightarrow> jsonParse h v = None \<Longrightarrow>
   loadStoredReadList h now st = []"
  by (simp add: loadStoredReadList_def storedValue_def)

lemma loadStoredReadList_throws:
  "storedValue st READ_LIST_STORAGE_KEY v \<Longrightarrow> jsonParse h v = Some parsed \<Longrightarrow>
   normalizeReadListItems h now parsed = Inl err \<Longrightarrow> loadStoredReadList h now st = []"
  by (simp add: loadStoredReadList_def storedValue_def)

lemma loadStoredReadList_parsed:
  "storedValue st READ_LIST_STORAGE_KEY v \<Longrightarrow> jsonParse h v = Some parsed \<Longrightarrow>
   normalizeReadListItems h now parsed = Inr rl \<Longrightarrow> loadStoredReadList h now st = rl"
  by (simp add: loadStoredReadList_def storedValue_def)

lemma normalizeReadListItems_not_array:
  "\<forall>xs. v \<noteq> JArr xs \<Longrightarrow> normalizeReadListItems h now v = Inr []"
  by (cases v) (simp_all add: normalizeReadListItems_def)

lemma loadStoredSource_none: "noStoredValue st SOURCE_STORAGE_KEY \<Longrightarrow> loadStoredSource st = []"
  by (auto simp: loadStoredSource_def noStoredValue_def split: sum.splits option.splits)

lemma loadStoredSource_stored: "storedValue st SOURCE_STORAGE_KEY v \<Longrightarrow> loadStoredSource st = v"
  by (simp add: loadStoredSource_def storedValue_def)

text \<open>
  C7, as the claim states it, fails on a storage that holds the display mode \<open>bogus\<close> and
  the preferences text \<open>5\<close>, with a payload whose default preferences name a favorite
  author: the malformed display mode is not treated as absent but becomes \<open>full\<close> (not
  \<open>authors\<close>), and the malformed preferences become two empty lists (not the defaults of
  the payload).
\<close>

theorem initialState_malformed_stored_values:
  "initialState exampleHost firstTime samplePayload
     (Stored [(DISPLAY_MODE_STORAGE_KEY, ''bogus''), (PREF_STORAGE_KEY, ''5'')])
   = Inr (Some \<lparr> source = ''cs.LG'',
                  preferences = \<lparr> favorite_authors = [], pref_keywords = [] \<rparr>,
                  isEditingPreferences = False, activeSection = ''stats'',
                  displayMode = ''full'', expandedArticles = {}, readList = [],
                  readListEditingId = [] \<rparr>)
   \<and> normalizePreferences exampleHost (orElse (raw_preferences samplePayload) (JObj []))
     = Inr \<lparr> favorite_authors = [''Malik''], pref_keywords = [] \<rparr>"
proof -
  have "initialState exampleHost firstTime samplePayload
     (Stored [(DISPLAY_MODE_STORAGE_KEY, ''bogus''), (PREF_STORAGE_KEY, ''5'')])
   = Inr (Some \<lparr> source = ''cs.LG'',
                  preferences = \<lparr> favorite_authors = [], pref_keywords = [] \<rparr>,
                  isEditingPreferences = False, activeSection = ''stats'',
                  displayMode = ''full'', expandedArticles = {}, readList = [],
                  readListEditingId = [] \<rparr>)"
    by code_simp
  moreover have "normalizePreferences exampleHost (orElse (raw_preferences samplePayload) (JObj []))
     = Inr \<lparr> favorite_authors = [''Malik''], pref_keywords = [] \<rparr>"
    by code_simp
  ultimately show ?thesis by (intro conjI)
qed

text \<open>
  C7, amended. No load surfaces an error: the start of the script throws only when the
  default preferences of the payload themselves cannot be normalized, whatever the storage
  holds, and it returns early, without a state, only when the payload has no source. When
  the storage is unavailable or holds no value (or the empty text) under the key of a
  slice, the display mode is \<open>authors\<close>, the read list is empty, the preferences are
  the normalized defaults of the payload, and the stored source is the empty key. A read
  list or preferences text
  that does not parse, and a parsed read list or parsed preferences on which the
  normalization throws (preferences that parse to null among them), count as absent. A
  stored value that is present but malformed in another way does not: a stored display
  mode is normalized, so an unknown one is \<open>full\<close>; stored preferences on which the
  normalization returns are taken as normalized (a field that is neither a list nor a
  string gives an empty list); a stored read list that parses to something that is not an
  array is empty. A stored source that is a key of the payload is kept. When the stored
  source is no property of the sources object (neither a key of the payload nor a member
  that every object inherits), the source is the default source of the payload if that is
  a non-empty key of the payload, and the first source if the payload names no default, the
  empty one, or a default that is no property of the sources object.
\<close>

theorem loads_fall_back:
  "(initialState h now raw st = Inl e \<longleftrightarrow>
      sources raw \<noteq> []
      \<and> normalizePreferences h (orElse (raw_preferences raw) (JObj [])) = Inl e)
   \<and> (initialState h now raw st = Inr None \<longleftrightarrow> sources raw = [])
   \<and> (\<forall>s0 initialPreferences firstKey others.
        initialState h now raw st = Inr (Some s0)
        \<and> normalizePreferences h (orElse (raw_preferences raw) (JObj [])) = Inr initialPreferences
        \<and> map fst (sources raw) = firstKey # others
        \<longrightarrow>
          (noStoredValue st DISPLAY_MODE_STORAGE_KEY \<longrightarrow> displayMode s0 = ''authors'')
          \<and> (\<forall>v. storedValue st DISPLAY_MODE_STORAGE_KEY v \<longrightarrow>
                displayMode s0 = normalizeDisplayMode h (JStr v))
          \<and> (\<forall>v. storedValue st DISPLAY_MODE_STORAGE_KEY v
                  \<and> toLowerCase h (trim h v) \<notin> {''title'', ''authors'', ''full''} \<longrightarrow>
                displayMode s0 = ''full'')
          \<and> (noStoredValue st READ_LIST_STORAGE_KEY \<longrightarrow> readList s0 = [])
          \<and> (\<forall>v. storedValue st READ_LIST_STORAGE_KEY v \<and> jsonParse h v = None \<longrightarrow>
                readList s0 = [])
          \<and> (\<forall>v parsed err. storedValue st READ_LIST_STORAGE_KEY v \<and> jsonParse h v = Some parsed
                  \<and> normalizeReadListItems h now parsed = Inl err \<longrightarrow>
                readList s0 = [])
          \<and> (\<forall>v parsed. storedValue st READ_LIST_STORAGE_KEY v \<and> jsonParse h v = Some parsed
                  \<and> (\<forall>xs. parsed \<noteq> JArr xs) \<longrightarrow>
                readList s0 = [])
          \<and> (\<forall>v parsed rl. storedValue st READ_LIST_STORAGE_KEY v \<and> jsonParse h v = Some parsed
                  \<and> normalizeReadListItems h now parsed = Inr rl \<longrightarrow>
                readList s0 = rl)
          \<and> (trimSettles h \<longrightarrow>
               (noStoredValue st PREF_STORAGE_KEY \<longrightarrow> preferences s0 = initialPreferences)
               \<and> (\<forall>v. storedValue st PREF_STORAGE_KEY v \<and> jsonParse h v = None \<longrightarrow>
                     preferences s0 = initialPreferences)
               \<and> (\<forall>v parsed err. storedValue st PREF_STORAGE_KEY v \<and> jsonParse h v = Some parsed
                       \<and> normalizePreferences h parsed = Inl err \<longrightarrow>
                     preferences s0 = initialPreferences)
               \<and> (\<forall>v. storedValue st PREF_STORAGE_KEY v \<and> jsonParse h v = Some JNull \<longrightarrow>
                     preferences s0 = initialPreferences))
          \<and> (\<forall>v parsed p. storedValue st PREF_STORAGE_KEY v \<and> jsonParse h v = Some parsed
                  \<and> normalizePreferences h parsed = Inr p \<longrightarrow>
                preferences s0 = p)
          \<and> (noStoredValue st SOURCE_STORAGE_KEY \<longrightarrow> loadStoredSource st = [])
          \<and> (\<forall>v. storedValue st SOURCE_STORAGE_KEY v \<longrightarrow> loadStoredSource st = v)
          \<and> (loadStoredSource st \<in> set (map fst (sources raw)) \<longrightarrow>
                source s0 = loadStoredSource st)
          \<and> (loadStoredSource st \<notin> set (map fst (sources raw))
              \<and> loadStoredSource st \<notin> set objectPrototypeMembers \<longrightarrow>
                (\<forall>d. default_source raw = Some d \<and> d \<noteq> [] \<and> d \<in> set (map fst (sources raw)) \<longrightarrow>
                   source s0 = d)
                \<and> (default_source raw = None \<or> default_source raw = Some [] \<longrightarrow>
                     source s0 = firstKey)
                \<and> (\<forall>d. default_source raw = Some d \<and> d \<notin> set (map fst (sources raw))
                        \<and> d \<notin> set objectPrototypeMembers \<longrightarrow>
                     source s0 = firstKey)))"
proof -
  have started: "(noStoredValue st DISPLAY_MODE_STORAGE_KEY \<longrightarrow> displayMode s0 = ''authors'')
          \<and> (\<forall>v. storedValue st DISPLAY_MODE_STORAGE_KEY v \<longrightarrow>
                displayMode s0 = normalizeDisplayMode h (JStr v))
          \<and> (\<forall>v. storedValue st DISPLAY_MODE_STORAGE_KEY v
                  \<and> toLowerCase h (trim h v) \<notin> {''title'', ''authors'', ''full''} \<longrightarrow>
                displayMode s0 = ''full'')
          \<and> (noStoredValue st READ_LIST_STORAGE_KEY \<longrightarrow> readList s0 = [])
          \<and> (\<forall>v. storedValue st READ_LIST_STORAGE_KEY v \<and> jsonParse h v = None \<longrightarrow>
                readList s0 = [])
          \<and> (\<forall>v parsed err. storedValue st READ_LIST_STORAGE_KEY v \<and> jsonParse h v = Some parsed
                  \<and> normalizeReadListItems h now parsed = Inl err \<longrightarrow>
                readList s0 = [])
          \<and> (\<forall>v parsed. storedValue st READ_LIST_STORAGE_KEY v \<and> jsonParse h v = Some parsed
                  \<and> (\<forall>xs. parsed \<noteq> JArr xs) \<longrightarrow>
                readList s0 = [])
          \<and> (\<forall>v parsed rl. storedValue st READ_LIST_STORAGE_KEY v \<and> jsonParse h v = Some parsed
                  \<and> normalizeReadListItems h now parsed = Inr rl \<longrightarrow>
                readList s0 = rl)
          \<and> (trimSettles h \<longrightarrow>
               (noStoredValue st PREF_STORAGE_KEY \<longrightarrow> preferences s0 = initialPreferences)
               \<and> (\<forall>v. storedValue st PREF_STORAGE_KEY v \<and> jsonParse h v = None \<longrightarrow>
                     preferences s0 = initialPreferences)
               \<and> (\<forall>v parsed err. storedValue st PREF_STORAGE_KEY v \<and> jsonParse h v = Some parsed
                       \<and> normalizePreferences h parsed = Inl err \<longrightarrow>
                     preferences s0 = initialPreferences)
               \<and> (\<forall>v. storedValue st PREF_STORAGE_KEY v \<and> jsonParse h v = Some JNull \<longrightarrow>
                     preferences s0 = initialPreferences))
          \<and> (\<forall>v parsed p. storedValue st PREF_STORAGE_KEY v \<and> jsonParse h v = Some parsed
                  \<and> normalizePreferences h parsed = Inr p \<longrightarrow>
                preferences s0 = p)
          \<and> (noStoredValue st SOURCE_STORAGE_KEY \<longrightarrow> loadStoredSource st = [])
          \<and> (\<forall>v. storedValue st SOURCE_STORAGE_KEY v \<longrightarrow> loadStoredSource st = v)
          \<and> (loadStoredSource st \<in> set (map fst (sources raw)) \<longrightarrow>
                source s0 = loadStoredSource st)
          \<and> (loadStoredSource st \<notin> set (map fst (sources raw))
              \<and> loadStoredSource st \<notin> set objectPrototypeMembers \<longrightarrow>
                (\<forall>d. default_source raw = Some d \<and> d \<noteq> [] \<and> d \<in> set (map fst (sources raw)) \<longrightarrow>
                   source s0 = d)
                \<and> (default_source raw = None \<or> default_source raw = Some [] \<longrightarrow>
                     source s0 = firstKey)
                \<and> (\<forall>d. default_source raw = Some d \<and> d \<notin> set (map fst (sources raw))
                        \<and> d \<notin> set objectPrototypeMembers \<longrightarrow>
                     source s0 = firstKey))"
    if s0: "initialState h now raw st = Inr (Some s0)"
      and ip: "normalizePreferences h (orElse (raw_preferences raw) (JObj [])) = Inr initialPreferences"
      and keys: "map fst (sources raw) = firstKey # others"
    for s0 initialPreferences firstKey others
  proof -
    from initialState_Some [OF keys ip, of st now] s0 obtain prefs
      where prefs: "loadStoredPreferences h st initialPreferences = Inr prefs"
        and src: "source s0 = chooseSource raw firstKey (loadStoredSource st)"
        and pr: "preferences s0 = prefs"
        and dm: "displayMode s0 = (let m = loadStoredDisplayMode h st
                                   in if m \<noteq> [] then m else ''authors'')"
        and rl: "readList s0 = loadStoredReadList h now st"
      by auto
    have d1: "noStoredValue st DISPLAY_MODE_STORAGE_KEY \<longrightarrow> displayMode s0 = ''authors''"
      by (simp add: dm loadStoredDisplayMode_none)
    have d2: "\<forall>v. storedValue st DISPLAY_MODE_STORAGE_KEY v \<longrightarrow>
                displayMode s0 = normalizeDisplayMode h (JStr v)"
      by (simp add: dm loadStoredDisplayMode_stored normalizeDisplayMode_not_empty)
    have d3: "\<forall>v. storedValue st DISPLAY_MODE_STORAGE_KEY v
                  \<and> toLowerCase h (trim h v) \<notin> {''title'', ''authors'', ''full''} \<longrightarrow>
                displayMode s0 = ''full''"
      using d2 normalizeDisplayMode_unknown by auto
    have r1: "noStoredValue st READ_LIST_STORAGE_KEY \<longrightarrow> readList s0 = []"
      by (simp add: rl loadStoredReadList_none)
    have r2: "\<forall>v. storedValue st READ_LIST_STORAGE_KEY v \<and> jsonParse h v = None \<longrightarrow>
                readList s0 = []"
      by (auto simp: rl loadStoredReadList_unparsed)
    have r3: "\<forall>v parsed err. storedValue st READ_LIST_STORAGE_KEY v \<and> jsonParse h v = Some parsed
                  \<and> normalizeReadListItems h now parsed = Inl err \<longrightarrow>
                readList s0 = []"
      by (auto simp: rl loadStoredReadList_throws)
    have r4: "\<forall>v parsed. storedValue st READ_LIST_STORAGE_KEY v \<and> jsonParse h v = Some parsed
                  \<and> (\<forall>xs. parsed \<noteq> JArr xs) \<longrightarrow>
                readList s0 = []"
      by (auto simp: rl loadStoredReadList_parsed normalizeReadListItems_not_array)
    have r5: "\<forall>v parsed rl. storedValue st READ_LIST_STORAGE_KEY v \<and> jsonParse h v = Some parsed
                  \<and> normalizeReadListItems h now parsed = Inr rl \<longrightarrow>
                readList s0 = rl"
      by (auto simp: rl loadStoredReadList_parsed)
    have p: "trimSettles h \<longrightarrow>
               (noStoredValue st PREF_STORAGE_KEY \<longrightarrow> preferences s0 = initialPreferences)
               \<and> (\<forall>v. storedValue st PREF_STORAGE_KEY v \<and> jsonParse h v = None \<longrightarrow>
                     preferences s0 = initialPreferences)
               \<and> (\<forall>v parsed err. storedValue st PREF_STORAGE_KEY v \<and> jsonParse h v = Some parsed
                       \<and> normalizePreferences h parsed = Inl err \<longrightarrow>
                     preferences s0 = initialPreferences)
               \<and> (\<forall>v. storedValue st PREF_STORAGE_KEY v \<and> jsonParse h v = Some JNull \<longrightarrow>
                     preferences s0 = initialPreferences)"
    proof
      assume ts: "trimSettles h"
      note dflt = defaults_normalized [OF ts ip]
      have p1: "noStoredValue st PREF_STORAGE_KEY \<longrightarrow> preferences s0 = initialPreferences"
        using prefs dflt by (auto simp: pr loadStoredPreferences_none)
      have p2: "\<forall>v. storedValue st PREF_STORAGE_KEY v \<and> jsonParse h v = None \<longrightarrow>
                     preferences s0 = initialPreferences"
        using prefs dflt by (auto simp: pr loadStoredPreferences_unparsed)
      have p3: "\<forall>v parsed err. storedValue st PREF_STORAGE_KEY v \<and> jsonParse h v = Some parsed
                       \<and> normalizePreferences h parsed = Inl err \<longrightarrow>
                     preferences s0 = initialPreferences"
        using prefs dflt by (auto simp: pr loadStoredPreferences_throws)
      have "normalizePreferences h JNull = Inl TypeError" by (simp add: normalizePreferences_def)
      with p3 have p4: "\<forall>v. storedValue st PREF_STORAGE_KEY v \<and> jsonParse h v = Some JNull \<longrightarrow>
                     preferences s0 = initialPreferences"
        by blast
      from p1 p2 p3 p4
      show "(noStoredValue st PREF_STORAGE_KEY \<longrightarrow> preferences s0 = initialPreferences)
               \<and> (\<forall>v. storedValue st PREF_STORAGE_KEY v \<and> jsonParse h v = None \<longrightarrow>
                     preferences s0 = initialPreferences)
               \<and> (\<forall>v parsed err. storedValue st PREF_STORAGE_KEY v \<and> jsonParse h v = Some parsed
                       \<and> normalizePreferences h parsed = Inl err \<longrightarrow>
                     preferences s0 = initialPreferences)
               \<and> (\<forall>v. storedValue st PREF_STORAGE_KEY v \<and> jsonParse h v = Some JNull \<longrightarrow>
                     preferences s0 = initialPreferences)"
        by (intro conjI)
    qed
    have p5: "\<forall>v parsed p. storedValue st PREF_STORAGE_KEY v \<and> jsonParse h v = Some parsed
                  \<and> normalizePreferences h parsed = Inr p \<longrightarrow>
                preferences s0 = p"
      using prefs by (auto simp: pr loadStoredPreferences_parsed)
    have s1: "noStoredValue st SOURCE_STORAGE_KEY \<longrightarrow> loadStoredSource st = []"
      by (simp add: loadStoredSource_none)
    have s2: "\<forall>v. storedValue st SOURCE_STORAGE_KEY v \<longrightarrow> loadStoredSource st = v"
      by (simp add: loadStoredSource_stored)
    have s3: "loadStoredSource st \<in> set (map fst (sources raw)) \<longrightarrow>
                source s0 = loadStoredSource st"
      by (simp add: src chooseSource_def hasSource_def)
    have s4: "loadStoredSource st \<notin> set (map fst (sources raw))
              \<and> loadStoredSource st \<notin> set objectPrototypeMembers \<longrightarrow>
                (\<forall>d. default_source raw = Some d \<and> d \<noteq> [] \<and> d \<in> set (map fst (sources raw)) \<longrightarrow>
                   source s0 = d)
                \<and> (default_source raw = None \<or> default_source raw = Some [] \<longrightarrow>
                     source s0 = firstKey)
                \<and> (\<forall>d. default_source raw = Some d \<and> d \<notin> set (map fst (sources raw))
                        \<and> d \<notin> set objectPrototypeMembers \<longrightarrow>
                     source s0 = firstKey)"
      by (auto simp: src chooseSource_def hasSource_def)
    from d1 d2 d3 r1 r2 r3 r4 r5 p p5 s1 s2 s3 s4 show ?thesis by (intro conjI)
  qed
  from initialState_error [of h now raw st e] initialState_None [of h now raw st] started
  show ?thesis by (intro conjI allI impI) (simp_all only:, blast+)
qed

theorem loads_fall_back_witness:
  "initialState exampleHost firstTime samplePayload storedUnprintable
   = Inr (Some \<lparr> source = ''cs.LG'',
                  preferences = \<lparr> favorite_authors = [''Malik''], pref_keywords = [] \<rparr>,
                  isEditingPreferences = False, activeSection = ''stats'',
                  displayMode = ''authors'', expandedArticles = {}, readList = [],
                  readListEditingId = [] \<rparr>)
   \<and> trimSettles exampleHost
   \<and> noStoredValue storedUnprintable DISPLAY_MODE_STORAGE_KEY
   \<and> displayMode \<lparr> source = ''cs.LG'',
                  preferences = \<lparr> favorite_authors = [''Malik''], pref_keywords = [] \<rparr>,
                  isEditingPreferences = False, activeSection = ''stats'',
                  displayMode = ''authors'', expandedArticles = {}, readList = [],
                  readListEditingId = [] \<rparr> = ''authors''
   \<and> storedValue storedUnprintable PREF_STORAGE_KEY ''{\"favorite_authors\":[{\"toString\":1}]}''
   \<and> jsonParse exampleHost ''{\"favorite_authors\":[{\"toString\":1}]}''
       = Some (JObj [(''favorite_authors'', JArr [JObj [(''toString'', JNum (Finite 1))]])])
   \<and> normalizePreferences exampleHost
        (JObj [(''favorite_authors'', JArr [JObj [(''toString'', JNum (Finite 1))]])])
       = Inl TypeError
   \<and> preferences \<lparr> source = ''cs.LG'',
                  preferences = \<lparr> favorite_authors = [''Malik''], pref_keywords = [] \<rparr>,
                  isEditingPreferences = False, activeSection = ''stats'',
                  displayMode = ''authors'', expandedArticles = {}, readList = [],
                  readListEditingId = [] \<rparr>
       = \<lparr> favorite_authors = [''Malik''], pref_keywords = [] \<rparr>"
proof -
  let ?s0 = "\<lparr> source = ''cs.LG'',
                  preferences = \<lparr> favorite_authors = [''Malik''], pref_keywords = [] \<rparr>,
                  isEditingPreferences = False, activeSection = ''stats'',
                  displayMode = ''authors'', expandedArticles = {}, readList = [],
                  readListEditingId = [] \<rparr>"
  let ?text = "''{\"favorite_authors\":[{\"toString\":1}]}''"
  let ?parsed = "JObj [(''favorite_authors'', JArr [JObj [(''toString'', JNum (Finite 1))]])]"
  have ev: "initialState exampleHost firstTime samplePayload storedUnprintable = Inr (Some ?s0)"
    by code_simp
  have ip: "normalizePreferences exampleHost (orElse (raw_preferences samplePayload) (JObj []))
              = Inr \<lparr> favorite_authors = [''Malik''], pref_keywords = [] \<rparr>"
    by code_simp
  have keys: "map fst (sources samplePayload) = ''cs.CV'' # [''cs.LG'']"
    by (simp add: samplePayload_def)
  have none: "noStoredValue storedUnprintable DISPLAY_MODE_STORAGE_KEY"
    by code_simp
  have sv: "storedValue storedUnprintable PREF_STORAGE_KEY ?text"
    by code_simp
  have parse: "jsonParse exampleHost ?text = Some ?parsed"
    by (simp add: exampleHost_def)
  have throws: "normalizePreferences exampleHost ?parsed = Inl TypeError"
    by (simp add: normalizePreferences_def getProp_def normalizeList_def)
  note started = loads_fall_back [where h = exampleHost and now = firstTime
      and raw = samplePayload and st = storedUnprintable and e = TypeError,
      THEN conjunct2, THEN conjunct2, THEN spec, THEN spec, THEN spec, THEN spec, THEN mp,
      OF conjI [OF ev conjI [OF ip keys]]]
  note mode = started [THEN conjunct1, THEN mp, OF none]
  note prefs = started [THEN conjunct2, THEN conjunct2, THEN conjunct2, THEN conjunct2,
      THEN conjunct2, THEN conjunct2, THEN conjunct2, THEN conjunct2, THEN conjunct1,
      THEN mp, OF trimSettles_example, THEN conjunct2, THEN conjunct2, THEN conjunct1,
      THEN spec, THEN spec, THEN spec, THEN mp, OF conjI [OF sv conjI [OF parse throws]]]
  from ev trimSettles_example none mode sv parse throws prefs show ?thesis by (intro conjI)
qed

end
